(* ===== verification/Ledger_Prelude.thy ===== *)
theory Ledger_Prelude
  imports
    Main
    "HOL-Library.Word"
    "HOL-Library.AList"
    "HOL-Library.List_Lexorder"
    "HOL-Library.Char_ord"
    "HOL-Library.Product_Lexorder"
    "HOL-Library.Sublist"
begin

text \<open>
  Shared vocabulary of the development: the parts of the Rust language and standard library
  that the crates use (\<open>Result\<close> and the \<open>?\<close> operator, \<open>HashMap\<close>, \<open>BTreeMap\<close>, the machine
  integers, byte strings, \<open>str::trim\<close>, integer parsing and printing), the theorem collections
  that carry the component proofs, and the interface \<open>kv_map\<close> of a finite map.

  A Rust \<open>String\<close> is its UTF-8 byte sequence, an Isabelle \<open>string\<close>, so \<open>len\<close> is
  \<open>length\<close> and a non-ASCII character is several \<open>char\<close>s, each at or above 128.
\<close>

named_theorems result_simps \<open>inversion of the result combinators\<close>
named_theorems amt_simps \<open>checked 128-bit arithmetic read as integers\<close>

section \<open>Results\<close>

text \<open>\<open>Result<T, E>\<close> is \<open>'e + 'a\<close>; \<open>and_then\<close> is the \<open>?\<close> operator.\<close>

type_synonym ('e, 'a) result = "'e + 'a"

fun and_then :: "'e + 'a \<Rightarrow> ('a \<Rightarrow> 'e + 'b) \<Rightarrow> 'e + 'b" where
  "and_then (Inl e) f = Inl e"
| "and_then (Inr a) f = f a"

fun map_err :: "('e \<Rightarrow> 'f) \<Rightarrow> 'e + 'a \<Rightarrow> 'f + 'a" where
  "map_err g (Inl e) = Inl (g e)"
| "map_err g (Inr a) = Inr a"

fun ok_or :: "'a option \<Rightarrow> 'e \<Rightarrow> 'e + 'a" where
  "ok_or None e = Inl e"
| "ok_or (Some a) e = Inr a"

text \<open>\<open>collect::<Result<Vec<_>, _>>\<close>: the values in order, or the first error.\<close>

fun collect_results :: "('e + 'a) list \<Rightarrow> 'e + 'a list" where
  "collect_results [] = Inr []"
| "collect_results (r # rs) = and_then r (\<lambda>a. and_then (collect_results rs) (\<lambda>as. Inr (a # as)))"

lemma and_then_eq_Inr [result_simps]:
  "and_then r f = Inr b \<longleftrightarrow> (\<exists>a. r = Inr a \<and> f a = Inr b)"
  by (cases r) auto

lemma and_then_eq_Inl [result_simps]:
  "and_then r f = Inl e \<longleftrightarrow> r = Inl e \<or> (\<exists>a. r = Inr a \<and> f a = Inl e)"
  by (cases r) auto

lemma map_err_eq_Inr [result_simps]: "map_err g r = Inr b \<longleftrightarrow> r = Inr b"
  by (cases r) auto

lemma map_err_eq_Inl [result_simps]: "map_err g r = Inl e \<longleftrightarrow> (\<exists>e'. r = Inl e' \<and> e = g e')"
  by (cases r) auto

lemma ok_or_eq_Inr [result_simps]: "ok_or x e = Inr a \<longleftrightarrow> x = Some a"
  by (cases x) auto

lemma ok_or_eq_Inl [result_simps]: "ok_or x e = Inl e' \<longleftrightarrow> x = None \<and> e' = e"
  by (cases x) auto

lemma and_then_assoc: "and_then (and_then r f) g = and_then r (\<lambda>a. and_then (f a) g)"
  by (cases r) auto

lemma not_Inl_iff_Inr: "(\<forall>e. r \<noteq> Inl e) \<longleftrightarrow> (\<exists>a. r = Inr a)"
  by (cases r) auto

lemma collect_results_eq_Inr:
  "collect_results rs = Inr as \<longleftrightarrow> rs = map Inr as"
  by (induction rs arbitrary: as) (auto simp: result_simps)

lemma collect_results_eq_Inl:
  "collect_results rs = Inl e \<longleftrightarrow> (\<exists>as rs'. rs = map Inr as @ Inl e # rs')"
proof (induction rs)
  case Nil
  then show ?case by simp
next
  case (Cons r rs)
  show ?case
  proof (cases r)
    case (Inl e')
    then show ?thesis by (auto simp: Cons_eq_append_conv)
  next
    case (Inr a)
    have "collect_results (r # rs) = Inl e \<longleftrightarrow> collect_results rs = Inl e"
      using Inr by (auto simp: result_simps)
    also have "\<dots> \<longleftrightarrow> (\<exists>as rs'. r # rs = map Inr as @ Inl e # rs')"
      unfolding Cons.IH using Inr
      by (auto simp: Cons_eq_append_conv Cons_eq_map_conv)
    finally show ?thesis .
  qed
qed

section \<open>Finite maps\<close>

text \<open>
  What the crates rely on in \<open>HashMap\<close> and \<open>BTreeMap\<close>: what a lookup returns after an insert,
  and that the keys of the entries stay distinct.  \<open>HashMap\<close> is an association list with
  distinct keys, whose order stands for the unspecified iteration order; \<open>BTreeMap\<close> is an
  association list strictly ascending in its keys.
\<close>

locale kv_map =
  fixes empty_map :: "('k \<times> 'v) list"
    and insert_kv :: "'k \<Rightarrow> 'v \<Rightarrow> ('k \<times> 'v) list \<Rightarrow> ('k \<times> 'v) list"
    and map_ok :: "('k \<times> 'v) list \<Rightarrow> bool"
  assumes empty_lookup: "map_of empty_map = Map.empty"
    and empty_ok: "map_ok empty_map"
    and insert_lookup: "map_of (insert_kv k v m) = (map_of m)(k \<mapsto> v)"
    and insert_ok: "map_ok m \<Longrightarrow> map_ok (insert_kv k v m)"
    and ok_distinct: "map_ok m \<Longrightarrow> distinct (map fst m)"
begin

lemma lookup_after_insert:
  "map_of (insert_kv k v m) k' = (if k' = k then Some v else map_of m k')"
  by (simp add: insert_lookup)

lemma keys_after_insert: "fst ` set (insert_kv k v m) = insert k (fst ` set m)"
  by (metis dom_fun_upd dom_map_of_conv_image_fst insert_lookup option.distinct(1))

lemma entry_iff_lookup: "map_ok m \<Longrightarrow> (k, v) \<in> set m \<longleftrightarrow> map_of m k = Some v"
  by (simp add: ok_distinct)

lemma insert_all_ok: "map_ok m \<Longrightarrow> map_ok (fold (\<lambda>(k, v). insert_kv k v) kvs m)"
  by (induction kvs arbitrary: m) (auto simp: insert_ok)

end

abbreviation hm_ok :: "('k \<times> 'v) list \<Rightarrow> bool" where
  "hm_ok m \<equiv> distinct (map fst m)"

interpretation hm: kv_map "[]" AList.update hm_ok
  by unfold_locales (auto simp: update_conv' distinct_update)

fun bt_insert :: "'k::linorder \<Rightarrow> 'v \<Rightarrow> ('k \<times> 'v) list \<Rightarrow> ('k \<times> 'v) list" where
  "bt_insert k v [] = [(k, v)]"
| "bt_insert k v ((k', v') # m) =
     (if k < k' then (k, v) # (k', v') # m
      else if k = k' then (k, v) # m
      else (k', v') # bt_insert k v m)"

definition bt_ok :: "('k::linorder \<times> 'v) list \<Rightarrow> bool" where
  "bt_ok m \<longleftrightarrow> sorted_wrt (<) (map fst m)"

lemma bt_insert_lookup: "map_of (bt_insert k v m) = (map_of m)(k \<mapsto> v)"
  by (induction k v m rule: bt_insert.induct) auto

lemma bt_insert_keys: "fst ` set (bt_insert k v m) = insert k (fst ` set m)"
  by (induction k v m rule: bt_insert.induct) auto

lemma bt_ok_Cons:
  "bt_ok ((k, v) # m) \<longleftrightarrow> (\<forall>x \<in> fst ` set m. k < x) \<and> bt_ok m"
  by (simp add: bt_ok_def)

lemma bt_insert_ok: "bt_ok m \<Longrightarrow> bt_ok (bt_insert k v m)"
proof (induction k v m rule: bt_insert.induct)
  case (2 k v k' v' m)
  then show ?case
    by (cases k k' rule: linorder_cases) (force simp: bt_ok_Cons bt_insert_keys)+
qed (simp add: bt_ok_def)

lemma bt_ok_distinct: "bt_ok m \<Longrightarrow> distinct (map fst m)"
  by (simp add: bt_ok_def strict_sorted_iff)

interpretation bt: kv_map "[]" bt_insert bt_ok
  by unfold_locales
    (auto simp: bt_insert_lookup bt_insert_ok bt_ok_distinct, simp add: bt_ok_def)

lemma alist_delete_update_fresh:
  "k \<notin> fst ` set m \<Longrightarrow> AList.delete k (AList.update k v m) = m"
  by (induction m) (auto simp: AList.delete_eq filter_id_conv)

lemma alist_update_fresh: "k \<notin> fst ` set m \<Longrightarrow> AList.update k v m = m @ [(k, v)]"
  by (induction m) auto

lemma map_add_fresh: "m k = None \<Longrightarrow> [k \<mapsto> v] ++ m = m(k \<mapsto> v)"
  by (auto simp: fun_eq_iff map_add_def split: option.splits)

end
