(* ===== verification/Rust_Std.thy ===== *)
theory Rust_Std
  imports Ledger_Prelude
begin

text \<open>
  The standard-library routines the crates call on machine integers and strings:
  \<open>i128::checked_*\<close>, \<open>i128::from_str\<close>, \<open>i128::to_string\<close>, \<open>str::trim\<close>,
  \<open>to_ascii_uppercase\<close> and the ASCII character classes.  An \<open>i128\<close> is a \<open>128 word\<close>,
  read as a signed integer by \<open>sint\<close>.
\<close>

section \<open>128-bit integers\<close>

type_synonym i128 = "128 word"
type_synonym u8 = "8 word"
type_synonym u32 = "32 word"
type_synonym i32 = "32 word"
type_synonym u64 = "64 word"
type_synonym i64 = "64 word"
type_synonym u128 = "128 word"

definition in_i128 :: "int \<Rightarrow> bool" where
  "in_i128 x \<longleftrightarrow> - (2 ^ 127) \<le> x \<and> x < 2 ^ 127"

definition i128_of :: "int \<Rightarrow> i128 option" where
  "i128_of x = (if in_i128 x then Some (word_of_int x) else None)"

definition i128_checked_add :: "i128 \<Rightarrow> i128 \<Rightarrow> i128 option" where
  "i128_checked_add a b = i128_of (sint a + sint b)"

definition i128_checked_sub :: "i128 \<Rightarrow> i128 \<Rightarrow> i128 option" where
  "i128_checked_sub a b = i128_of (sint a - sint b)"

definition i128_checked_mul :: "i128 \<Rightarrow> i128 \<Rightarrow> i128 option" where
  "i128_checked_mul a b = i128_of (sint a * sint b)"

definition i128_checked_neg :: "i128 \<Rightarrow> i128 option" where
  "i128_checked_neg a = i128_of (- sint a)"

definition i128_checked_abs :: "i128 \<Rightarrow> i128 option" where
  "i128_checked_abs a = i128_of \<bar>sint a\<bar>"

definition i128_checked_pow :: "i128 \<Rightarrow> u32 \<Rightarrow> i128 option" where
  "i128_checked_pow a n = i128_of (sint a ^ unat n)"

lemmas i128_checked_defs =
  i128_checked_add_def i128_checked_sub_def i128_checked_mul_def
  i128_checked_neg_def i128_checked_abs_def i128_checked_pow_def

lemma sint_in_i128 [simp]: "in_i128 (sint (a :: i128))"
  using sint_greater_eq [of a] sint_less [of a] by (simp add: in_i128_def)

lemma in_i128_0 [simp]: "in_i128 0"
  by (simp add: in_i128_def)

lemma sint_word_of_int_i128: "in_i128 x \<Longrightarrow> sint (word_of_int x :: i128) = x"
  by (simp add: in_i128_def int_word_sint)

lemma sint_eq_iff_i128: "sint (a :: i128) = sint b \<longleftrightarrow> a = b"
  by (metis scast_eq scast_id)

lemma i128_of_eq_Some [amt_simps]: "i128_of x = Some w \<longleftrightarrow> in_i128 x \<and> sint w = x"
  by (auto simp: i128_of_def sint_word_of_int_i128 sint_eq_iff_i128 [symmetric])

lemma i128_of_eq_None [amt_simps]: "i128_of x = None \<longleftrightarrow> \<not> in_i128 x"
  by (simp add: i128_of_def)

lemma sint_of_nat_i64:
  assumes "n < 2 ^ 63"
  shows "sint (of_nat n :: i64) = int n"
proof -
  have "sint (word_of_int (int n) :: i64) = int n"
    using assms by (simp only: int_word_sint) simp
  then show ?thesis
    by simp
qed

lemma in_i128E:
  assumes "in_i128 x"
  obtains w where "i128_of x = Some w" "sint w = x"
  using assms by (cases "i128_of x") (auto simp: i128_of_def sint_word_of_int_i128)

lemma i128_of_SomeD: "i128_of x = Some w \<Longrightarrow> sint w = x"
  by (simp add: i128_of_eq_Some)

lemma i128_of_sint [simp]: "i128_of (sint a) = Some a"
  by (simp add: i128_of_eq_Some)

section \<open>ASCII\<close>

definition code_of :: "char \<Rightarrow> nat" where
  "code_of c = of_char c"

definition is_ascii_digit :: "char \<Rightarrow> bool" where
  "is_ascii_digit c \<longleftrightarrow> 48 \<le> code_of c \<and> code_of c \<le> 57"

definition is_ascii_uppercase :: "char \<Rightarrow> bool" where
  "is_ascii_uppercase c \<longleftrightarrow> 65 \<le> code_of c \<and> code_of c \<le> 90"

definition is_ascii_lowercase :: "char \<Rightarrow> bool" where
  "is_ascii_lowercase c \<longleftrightarrow> 97 \<le> code_of c \<and> code_of c \<le> 122"

definition is_ascii_alphanumeric :: "char \<Rightarrow> bool" where
  "is_ascii_alphanumeric c \<longleftrightarrow>
     is_ascii_digit c \<or> is_ascii_uppercase c \<or> is_ascii_lowercase c"

definition to_ascii_uppercase :: "string \<Rightarrow> string" where
  "to_ascii_uppercase s =
     map (\<lambda>c. if is_ascii_lowercase c then char_of (code_of c - 32) else c) s"

lemmas ascii_defs =
  is_ascii_digit_def is_ascii_uppercase_def is_ascii_lowercase_def is_ascii_alphanumeric_def
  code_of_def

lemma code_of_less: "code_of c < 256"
  by (simp add: code_of_def)

lemma code_of_char_of: "n < 256 \<Longrightarrow> code_of (char_of n) = n"
  by (simp add: code_of_def)

lemma to_ascii_uppercase_length [simp]: "length (to_ascii_uppercase s) = length s"
  by (simp add: to_ascii_uppercase_def)

lemma to_ascii_uppercase_no_lower: "c \<in> set (to_ascii_uppercase s) \<Longrightarrow> \<not> is_ascii_lowercase c"
  by (auto simp: to_ascii_uppercase_def is_ascii_lowercase_def code_of_char_of
      split: if_splits)

lemma to_ascii_uppercase_fixed: "\<forall>c \<in> set s. \<not> is_ascii_lowercase c \<Longrightarrow> to_ascii_uppercase s = s"
  by (simp add: to_ascii_uppercase_def map_idI)

lemma to_ascii_uppercase_idem [simp]:
  "to_ascii_uppercase (to_ascii_uppercase s) = to_ascii_uppercase s"
  by (rule to_ascii_uppercase_fixed) (auto dest: to_ascii_uppercase_no_lower)

section \<open>Trimming\<close>

text \<open>
  \<open>str::trim\<close> removes leading and trailing characters with the Unicode property
  \<open>White_Space\<close>; \<open>ws_seqs\<close> lists their UTF-8 encodings.
\<close>

definition ws_seqs :: "string list" where
  "ws_seqs =
     [[CHR 0x20], [CHR 0x09], [CHR 0x0A], [CHR 0x0B], [CHR 0x0C], [CHR 0x0D],
      [CHR 0xC2, CHR 0x85], [CHR 0xC2, CHR 0xA0], [CHR 0xE1, CHR 0x9A, CHR 0x80]]
     @ map (\<lambda>b. [CHR 0xE2, CHR 0x80, b])
         [CHR 0x80, CHR 0x81, CHR 0x82, CHR 0x83, CHR 0x84, CHR 0x85, CHR 0x86, CHR 0x87,
          CHR 0x88, CHR 0x89, CHR 0x8A, CHR 0xA8, CHR 0xA9, CHR 0xAF]
     @ [[CHR 0xE2, CHR 0x81, CHR 0x9F], [CHR 0xE3, CHR 0x80, CHR 0x80]]"

definition graphic :: "char \<Rightarrow> bool" where
  "graphic c \<longleftrightarrow> 33 \<le> code_of c \<and> code_of c \<le> 126"

lemma ws_seqs_nonempty: "w \<in> set ws_seqs \<Longrightarrow> w \<noteq> []"
  by (auto simp: ws_seqs_def)

lemma ws_seqs_not_graphic: "w \<in> set ws_seqs \<Longrightarrow> c \<in> set w \<Longrightarrow> \<not> graphic c"
  by (auto simp: ws_seqs_def graphic_def code_of_def)

function trim_start :: "string \<Rightarrow> string" where
  "trim_start s =
     (case find (\<lambda>w. prefix w s) ws_seqs of
        None \<Rightarrow> s
      | Some w \<Rightarrow> trim_start (drop (length w) s))"
  by pat_completeness auto
termination
  by (relation "measure length")
    (auto simp: find_Some_iff prefix_def dest!: nth_mem [THEN ws_seqs_nonempty])

function trim_end :: "string \<Rightarrow> string" where
  "trim_end s =
     (case find (\<lambda>w. suffix w s) ws_seqs of
        None \<Rightarrow> s
      | Some w \<Rightarrow> trim_end (take (length s - length w) s))"
  by pat_completeness auto
termination
  by (relation "measure length")
    (auto simp: find_Some_iff suffix_def dest!: nth_mem [THEN ws_seqs_nonempty])

declare trim_start.simps [simp del] trim_end.simps [simp del]

definition trim :: "string \<Rightarrow> string" where
  "trim s = trim_end (trim_start s)"

definition ws_free_edges :: "string \<Rightarrow> bool" where
  "ws_free_edges s \<longleftrightarrow> (\<forall>w \<in> set ws_seqs. \<not> prefix w s \<and> \<not> suffix w s)"

lemma trim_start_no_ws: "w \<in> set ws_seqs \<Longrightarrow> \<not> prefix w (trim_start s)"
proof (induction s rule: trim_start.induct)
  case (1 s)
  show ?case
  proof (cases "find (\<lambda>w. prefix w s) ws_seqs")
    case None
    with 1(2) show ?thesis by (simp add: trim_start.simps [of s]) (simp add: find_None_iff)
  next
    case (Some v)
    with 1 show ?thesis by (simp add: trim_start.simps [of s])
  qed
qed

lemma trim_end_no_ws: "w \<in> set ws_seqs \<Longrightarrow> \<not> suffix w (trim_end s)"
proof (induction s rule: trim_end.induct)
  case (1 s)
  show ?case
  proof (cases "find (\<lambda>w. suffix w s) ws_seqs")
    case None
    with 1(2) show ?thesis by (simp add: trim_end.simps [of s]) (simp add: find_None_iff)
  next
    case (Some v)
    with 1 show ?thesis by (simp add: trim_end.simps [of s])
  qed
qed

lemma trim_end_prefix: "prefix (trim_end s) s"
proof (induction s rule: trim_end.induct)
  case (1 s)
  then show ?case
    by (cases "find (\<lambda>w. suffix w s) ws_seqs")
      (auto simp: trim_end.simps [of s] intro: prefix_order.trans take_is_prefix)
qed

lemma trim_start_suffix: "suffix (trim_start s) s"
proof (induction s rule: trim_start.induct)
  case (1 s)
  then show ?case
    by (cases "find (\<lambda>w. prefix w s) ws_seqs")
      (auto simp: trim_start.simps [of s] intro: suffix_order.trans suffix_drop)
qed

lemma trim_ws_free: "ws_free_edges (trim s)"
  unfolding ws_free_edges_def trim_def
  by (meson prefix_order.trans trim_end_no_ws trim_end_prefix trim_start_no_ws)

lemma trim_fixed: "ws_free_edges s \<Longrightarrow> trim s = s"
  by (simp add: ws_free_edges_def trim_def trim_start.simps [of s] trim_end.simps [of s]
      find_None_iff [THEN iffD2])

lemma trim_idem [simp]: "trim (trim s) = trim s"
  by (rule trim_fixed) (rule trim_ws_free)

lemma trim_length_le: "length (trim s) \<le> length s"
proof -
  have "length (trim s) \<le> length (trim_start s)"
    unfolding trim_def by (rule prefix_length_le) (rule trim_end_prefix)
  also have "\<dots> \<le> length s"
    by (rule suffix_length_le) (rule trim_start_suffix)
  finally show ?thesis .
qed

lemma graphic_ws_free: "\<forall>c \<in> set s. graphic c \<Longrightarrow> ws_free_edges s"
  unfolding ws_free_edges_def
  by (metis last_in_set set_mono_prefix set_mono_suffix subsetD ws_seqs_nonempty
      ws_seqs_not_graphic)

lemma trim_graphic: "\<forall>c \<in> set s. graphic c \<Longrightarrow> trim s = s"
  by (intro trim_fixed graphic_ws_free)

section \<open>Decimal integers\<close>

definition digit_val :: "char \<Rightarrow> nat" where
  "digit_val c = code_of c - 48"

definition digit_char :: "nat \<Rightarrow> char" where
  "digit_char d = char_of (d + 48)"

definition digits_val :: "string \<Rightarrow> nat" where
  "digits_val s = foldl (\<lambda>acc c. 10 * acc + digit_val c) 0 s"

text \<open>
  \<open>i128::from_str\<close>: an optional sign, then one or more ASCII digits whose signed value is in
  range.  The kind of the error is never inspected, so failure is \<open>None\<close>.
\<close>

definition parse_i128 :: "string \<Rightarrow> i128 option" where
  "parse_i128 s =
     (let (neg, ds) = (case s of
            [] \<Rightarrow> (False, [])
          | c # cs \<Rightarrow> if c = CHR ''-'' then (True, cs)
                      else if c = CHR ''+'' then (False, cs) else (False, s))
      in if ds = [] \<or> \<not> list_all is_ascii_digit ds then None
         else i128_of (if neg then - int (digits_val ds) else int (digits_val ds)))"

fun show_nat :: "nat \<Rightarrow> string" where
  "show_nat n =
     (if n < 10 then [digit_char n] else show_nat (n div 10) @ [digit_char (n mod 10)])"

declare show_nat.simps [simp del]

definition show_int :: "int \<Rightarrow> string" where
  "show_int x = (if x < 0 then CHR ''-'' # show_nat (nat (- x)) else show_nat (nat x))"

text \<open>\<open>i128::to_string\<close>.\<close>

definition show_i128 :: "i128 \<Rightarrow> string" where
  "show_i128 a = show_int (sint a)"

lemma digits_val_snoc: "digits_val (s @ [c]) = 10 * digits_val s + digit_val c"
  by (simp add: digits_val_def)

lemma digits_val_Nil [simp]: "digits_val [] = 0"
  by (simp add: digits_val_def)

lemma digits_val_append: "digits_val (s @ t) = digits_val s * 10 ^ length t + digits_val t"
proof (induction t rule: rev_induct)
  case (snoc c t)
  have "digits_val (s @ t @ [c]) = 10 * digits_val (s @ t) + digit_val c"
    using digits_val_snoc [of "s @ t" c] by simp
  with snoc show ?case by (simp add: digits_val_snoc algebra_simps)
qed simp

lemma digit_char_digit: "d < 10 \<Longrightarrow> is_ascii_digit (digit_char d)"
  by (simp add: is_ascii_digit_def digit_char_def code_of_char_of)

lemma digit_val_char: "d < 10 \<Longrightarrow> digit_val (digit_char d) = d"
  by (simp add: digit_val_def digit_char_def code_of_char_of)

lemma digit_val_less: "is_ascii_digit c \<Longrightarrow> digit_val c < 10"
  by (auto simp: is_ascii_digit_def digit_val_def)

lemma digits_val_less: "list_all is_ascii_digit s \<Longrightarrow> digits_val s < 10 ^ length s"
proof (induction s rule: rev_induct)
  case (snoc c s)
  then have "digits_val s < 10 ^ length s" and "digit_val c < 10"
    by (auto simp: digit_val_less)
  then show ?case by (simp add: digits_val_snoc)
qed simp

lemma show_nat_digits: "list_all is_ascii_digit (show_nat n)"
proof (induction n rule: show_nat.induct)
  case (1 n)
  then show ?case
    by (cases "n < 10") (auto simp: show_nat.simps [of n] digit_char_digit)
qed

lemma show_nat_nonempty [simp]: "show_nat n \<noteq> []"
  by (simp add: show_nat.simps [of n])

lemma digits_val_show_nat [simp]: "digits_val (show_nat n) = n"
proof (induction n rule: show_nat.induct)
  case (1 n)
  have unfolded: "digits_val (show_nat n) =
      (if n < 10 then n else 10 * digits_val (show_nat (n div 10)) + n mod 10)"
    by (simp add: show_nat.simps [of n] digits_val_snoc digit_val_char)
      (simp add: digits_val_def digit_val_char)
  show ?case
  proof (cases "n < 10")
    case False
    with 1 have "digits_val (show_nat (n div 10)) = n div 10" by simp
    with False unfolded show ?thesis by simp
  qed (simp add: unfolded)
qed

lemma digit_not_sign: "is_ascii_digit c \<Longrightarrow> c \<noteq> CHR ''-'' \<and> c \<noteq> CHR ''+''"
  by (auto simp: is_ascii_digit_def code_of_def)

lemma parse_i128_digits:
  assumes "ds \<noteq> []" and "list_all is_ascii_digit ds"
  shows "parse_i128 ds = i128_of (int (digits_val ds))"
    and "parse_i128 (CHR ''-'' # ds) = i128_of (- int (digits_val ds))"
    and "parse_i128 (CHR ''+'' # ds) = i128_of (int (digits_val ds))"
  using assms digit_not_sign [of "hd ds"]
  by (auto simp: parse_i128_def split: list.splits)

lemma parse_i128_show_int: "parse_i128 (show_int x) = i128_of x"
  by (simp add: show_int_def parse_i128_digits show_nat_digits)

lemma parse_i128_show_i128 [simp]: "parse_i128 (show_i128 a) = Some a"
  by (simp add: show_i128_def parse_i128_show_int)

lemma digit_graphic: "is_ascii_digit c \<Longrightarrow> graphic c"
  by (simp add: is_ascii_digit_def graphic_def)

lemma show_int_graphic: "\<forall>c \<in> set (show_int x). graphic c"
proof -
  have "graphic c" if "c \<in> set (show_nat n)" for c n
    using that show_nat_digits [of n] by (auto simp: list_all_iff digit_graphic)
  then show ?thesis
    by (auto simp: show_int_def graphic_def code_of_def)
qed

lemma show_i128_inj: "show_i128 a = show_i128 b \<Longrightarrow> a = b"
  by (metis option.inject parse_i128_show_i128)

text \<open>\<open>str::split_once\<close> on a character.\<close>

definition split_once :: "char \<Rightarrow> string \<Rightarrow> (string \<times> string) option" where
  "split_once c s =
     (let w = takeWhile (\<lambda>x. x \<noteq> c) s
      in if length w = length s then None else Some (w, drop (Suc (length w)) s))"

lemma takeWhile_neq_append: "c \<notin> set w \<Longrightarrow> takeWhile (\<lambda>x. x \<noteq> c) (w @ c # f) = w"
  by (induction w) auto

lemma split_once_Some: "c \<notin> set w \<Longrightarrow> split_once c (w @ c # f) = Some (w, f)"
  by (simp add: split_once_def takeWhile_neq_append)

lemma takeWhile_neq_all: "c \<notin> set s \<Longrightarrow> takeWhile (\<lambda>x. x \<noteq> c) s = s"
  by (induction s) auto

lemma split_once_None: "c \<notin> set s \<Longrightarrow> split_once c s = None"
  by (simp add: split_once_def takeWhile_neq_all)

lemma split_once_cases:
  obtains (without) "c \<notin> set s" "split_once c s = None"
    | (once) w f where "c \<notin> set w" "s = w @ c # f" "split_once c s = Some (w, f)"
proof (cases "c \<in> set s")
  case True
  then obtain w f where "s = w @ c # f" "c \<notin> set w"
    by (meson split_list_first)
  then show ?thesis
    using once split_once_Some by blast
next
  case False
  then show ?thesis
    by (intro without split_once_None)
qed

end
