(* ===== verification/Amount.thy ===== *)
theory Amount
  imports Rust_Std
begin

text \<open>
  \<open>crates/domain/src/error.rs\<close> and \<open>amount.rs\<close>: the domain error taxonomy with its display
  strings, and \<open>AtomicAmount\<close>, the overflow-checked signed 128-bit quantity every balance and
  posting carries.  \<open>amt a\<close> is the integer an amount stands for; the lemmas read each checked
  operation as integer arithmetic with an explicit range condition.
\<close>

section \<open>Domain errors\<close>

datatype DomainError =
    InvalidIdentifier string string
  | InvalidIdempotencyKey string
  | InvalidAssetCode string string
  | InvalidAssetScale u8
  | InvalidMoneyFormat string
  | AmountOverflow
  | NonPositiveAmount i128
  | AssetMismatch string string
  | InsufficientPostings nat
  | UnbalancedEntry string i128
  | InsufficientBalance string string i128 i128
  | AccountNotActive string string
  | MissingAdjustmentReason
  | Invariant string

fun display_domain_error :: "DomainError \<Rightarrow> string" where
  "display_domain_error (InvalidIdentifier kind value) =
     ''invalid '' @ kind @ '' identifier: '' @ value"
| "display_domain_error (InvalidIdempotencyKey reason) = ''invalid idempotency key: '' @ reason"
| "display_domain_error (InvalidAssetCode code reason) =
     ''invalid asset code '' @ [CHR 0x27] @ code @ [CHR 0x27] @ '': '' @ reason"
| "display_domain_error (InvalidAssetScale scale) =
     ''invalid asset scale '' @ show_nat (unat scale) @ ''; must be 0..=18''"
| "display_domain_error (InvalidMoneyFormat value) = ''invalid money format: '' @ value"
| "display_domain_error AmountOverflow = ''amount arithmetic overflow''"
| "display_domain_error (NonPositiveAmount amount) =
     ''amount must be positive, got '' @ show_i128 amount"
| "display_domain_error (AssetMismatch left right) =
     ''asset mismatch: '' @ left @ '' vs '' @ right"
| "display_domain_error (InsufficientPostings count) =
     ''journal entry requires at least two postings, got '' @ show_nat count"
| "display_domain_error (UnbalancedEntry asset residual) =
     ''unbalanced journal entry for asset '' @ asset @ '': residual '' @ show_i128 residual"
| "display_domain_error (InsufficientBalance account_id asset balance delta) =
     ''insufficient balance for account '' @ account_id @ '' asset '' @ asset @ '': balance ''
       @ show_i128 balance @ '', delta '' @ show_i128 delta"
| "display_domain_error (AccountNotActive account_id status) =
     ''account '' @ account_id @ '' is '' @ status"
| "display_domain_error MissingAdjustmentReason =
     ''administrative adjustment requires a non-empty reason''"
| "display_domain_error (Invariant message) = ''invariant violated: '' @ message"

section \<open>Atomic amounts\<close>

datatype AtomicAmount = AtomicAmount (raw: i128)

abbreviation amt :: "AtomicAmount \<Rightarrow> int" where
  "amt a \<equiv> sint (raw a)"

definition ZERO :: AtomicAmount where
  "ZERO = AtomicAmount 0"

definition from_raw :: "i128 \<Rightarrow> AtomicAmount" where
  "from_raw units = AtomicAmount units"

definition checked_abs :: "AtomicAmount \<Rightarrow> DomainError + AtomicAmount" where
  "checked_abs a = ok_or (map_option AtomicAmount (i128_checked_abs (raw a))) AmountOverflow"

definition checked_add :: "AtomicAmount \<Rightarrow> AtomicAmount \<Rightarrow> DomainError + AtomicAmount" where
  "checked_add a b =
     ok_or (map_option AtomicAmount (i128_checked_add (raw a) (raw b))) AmountOverflow"

definition checked_sub :: "AtomicAmount \<Rightarrow> AtomicAmount \<Rightarrow> DomainError + AtomicAmount" where
  "checked_sub a b =
     ok_or (map_option AtomicAmount (i128_checked_sub (raw a) (raw b))) AmountOverflow"

definition checked_neg :: "AtomicAmount \<Rightarrow> DomainError + AtomicAmount" where
  "checked_neg a = ok_or (map_option AtomicAmount (i128_checked_neg (raw a))) AmountOverflow"

definition is_negative :: "AtomicAmount \<Rightarrow> bool" where
  "is_negative a \<longleftrightarrow> sint (raw a) < 0"

definition is_zero :: "AtomicAmount \<Rightarrow> bool" where
  "is_zero a \<longleftrightarrow> raw a = 0"

definition is_positive :: "AtomicAmount \<Rightarrow> bool" where
  "is_positive a \<longleftrightarrow> sint (raw a) > 0"

definition require_positive :: "AtomicAmount \<Rightarrow> DomainError + AtomicAmount" where
  "require_positive a =
     (if sint (raw a) \<le> 0 then Inl (NonPositiveAmount (raw a)) else Inr a)"

definition amount_display :: "AtomicAmount \<Rightarrow> string" where
  "amount_display a = show_i128 (raw a)"

definition amount_from_str :: "string \<Rightarrow> DomainError + AtomicAmount" where
  "amount_from_str s =
     ok_or (map_option AtomicAmount (parse_i128 (trim s))) (InvalidMoneyFormat s)"

text \<open>
  Serialization writes the decimal string; deserialization is a visitor with one method per
  kind of primitive the format may hold.
\<close>

datatype serde_primitive =
    VisitStr string
  | VisitI64 i64
  | VisitU64 u64
  | VisitI128 i128
  | VisitU128 u128

definition amount_serialize :: "AtomicAmount \<Rightarrow> string" where
  "amount_serialize a = show_i128 (raw a)"

fun amount_deserialize :: "serde_primitive \<Rightarrow> string + AtomicAmount" where
  "amount_deserialize (VisitStr value) = map_err display_domain_error (amount_from_str value)"
| "amount_deserialize (VisitI64 value) = Inr (AtomicAmount (scast value))"
| "amount_deserialize (VisitU64 value) = Inr (AtomicAmount (ucast value))"
| "amount_deserialize (VisitI128 value) = Inr (AtomicAmount value)"
| "amount_deserialize (VisitU128 value) =
     (if uint value < 2 ^ 127 then Inr (AtomicAmount value)
      else Inl ''atomic amount exceeds i128 range'')"

text \<open>\<open>Add\<close>, \<open>Sub\<close>, \<open>Neg\<close> and \<open>From\<close>.\<close>

definition amount_add :: "AtomicAmount \<Rightarrow> AtomicAmount \<Rightarrow> DomainError + AtomicAmount" where
  "amount_add a b = checked_add a b"

definition amount_sub :: "AtomicAmount \<Rightarrow> AtomicAmount \<Rightarrow> DomainError + AtomicAmount" where
  "amount_sub a b = checked_sub a b"

definition amount_neg :: "AtomicAmount \<Rightarrow> DomainError + AtomicAmount" where
  "amount_neg a = checked_neg a"

definition amount_from_i64 :: "i64 \<Rightarrow> AtomicAmount" where
  "amount_from_i64 v = AtomicAmount (scast v)"

definition amount_from_i32 :: "i32 \<Rightarrow> AtomicAmount" where
  "amount_from_i32 v = AtomicAmount (scast v)"

text \<open>\<open>#[derive(PartialOrd, Ord)]\<close>: the order of the signed integers.\<close>

instantiation AtomicAmount :: linorder
begin

definition less_eq_AtomicAmount :: "AtomicAmount \<Rightarrow> AtomicAmount \<Rightarrow> bool" where
  "less_eq_AtomicAmount a b \<longleftrightarrow> amt a \<le> amt b"

definition less_AtomicAmount :: "AtomicAmount \<Rightarrow> AtomicAmount \<Rightarrow> bool" where
  "less_AtomicAmount a b \<longleftrightarrow> amt a < amt b"

instance
  by standard
    (auto simp: less_eq_AtomicAmount_def less_AtomicAmount_def sint_eq_iff_i128 AtomicAmount.expand)

end

section \<open>Checked arithmetic as integer arithmetic\<close>

lemma amt_eq_iff: "amt a = amt b \<longleftrightarrow> a = b"
  by (cases a; cases b) (simp add: sint_eq_iff_i128)

lemma amt_ZERO [simp]: "amt ZERO = 0"
  by (simp add: ZERO_def)

lemma amt_in_i128 [simp]: "in_i128 (amt a)"
  by simp

lemma checked_result_iff:
  "ok_or (map_option AtomicAmount (i128_of x)) AmountOverflow = Inr c \<longleftrightarrow> in_i128 x \<and> amt c = x"
  by (cases c) (auto simp: result_simps amt_simps)

lemma checked_error_iff:
  "ok_or (map_option AtomicAmount (i128_of x)) AmountOverflow = Inl e
     \<longleftrightarrow> \<not> in_i128 x \<and> e = AmountOverflow"
  by (auto simp: result_simps amt_simps)

lemmas checked_amount_defs =
  checked_abs_def checked_add_def checked_sub_def checked_neg_def i128_checked_defs

lemma checked_add_Inr [amt_simps]:
  "checked_add a b = Inr c \<longleftrightarrow> in_i128 (amt a + amt b) \<and> amt c = amt a + amt b"
  by (simp add: checked_amount_defs checked_result_iff)

lemma checked_add_Inl [amt_simps]:
  "checked_add a b = Inl e \<longleftrightarrow> \<not> in_i128 (amt a + amt b) \<and> e = AmountOverflow"
  by (simp add: checked_amount_defs checked_error_iff)

lemma checked_add_cases:
  obtains (ok) c where "checked_add a b = Inr c" "in_i128 (amt a + amt b)" "amt c = amt a + amt b"
    | (overflow) "checked_add a b = Inl AmountOverflow" "\<not> in_i128 (amt a + amt b)"
  by (cases "checked_add a b") (metis checked_add_Inl, metis checked_add_Inr)

lemma checked_sub_Inr [amt_simps]:
  "checked_sub a b = Inr c \<longleftrightarrow> in_i128 (amt a - amt b) \<and> amt c = amt a - amt b"
  by (simp add: checked_amount_defs checked_result_iff)

lemma checked_neg_Inr [amt_simps]:
  "checked_neg a = Inr c \<longleftrightarrow> in_i128 (- amt a) \<and> amt c = - amt a"
  by (simp add: checked_amount_defs checked_result_iff)

lemma checked_neg_Inl [amt_simps]:
  "checked_neg a = Inl e \<longleftrightarrow> \<not> in_i128 (- amt a) \<and> e = AmountOverflow"
  by (simp add: checked_amount_defs checked_error_iff)

lemma checked_abs_Inr [amt_simps]:
  "checked_abs a = Inr c \<longleftrightarrow> in_i128 \<bar>amt a\<bar> \<and> amt c = \<bar>amt a\<bar>"
  by (simp add: checked_amount_defs checked_result_iff)

lemma require_positive_Inr [amt_simps]: "require_positive a = Inr b \<longleftrightarrow> 0 < amt a \<and> b = a"
  by (auto simp: require_positive_def)

lemma require_positive_Inl [amt_simps]:
  "require_positive a = Inl e \<longleftrightarrow> amt a \<le> 0 \<and> e = NonPositiveAmount (raw a)"
  by (auto simp: require_positive_def)

lemma is_zero_amt [amt_simps]: "is_zero a \<longleftrightarrow> amt a = 0"
  by (metis amt_ZERO is_zero_def sint_eq_iff_i128 ZERO_def AtomicAmount.sel)

lemma is_positive_amt [amt_simps]: "is_positive a \<longleftrightarrow> 0 < amt a"
  by (simp add: is_positive_def)

lemma is_negative_amt [amt_simps]: "is_negative a \<longleftrightarrow> amt a < 0"
  by (simp add: is_negative_def)

lemma in_i128_neg_pos: "0 < amt a \<Longrightarrow> in_i128 (- amt a)"
  using amt_in_i128 [of a] unfolding in_i128_def by linarith

lemma amount_from_str_display [simp]: "amount_from_str (amount_display a) = Inr a"
  by (cases a)
    (simp add: amount_from_str_def amount_display_def show_i128_def trim_graphic
      show_int_graphic parse_i128_show_int)

text \<open>
  C38. Amounts survive text.  Printing an amount and parsing it back, as \<open>Display\<close> and \<open>FromStr\<close> do
  and as the JSON codec does with its decimal string, gives the same amount over the whole
  128-bit range.
\<close>

theorem amount_text_roundtrip:
  "amount_from_str (amount_display a) = Inr a
   \<and> amount_deserialize (VisitStr (amount_serialize a)) = Inr a"
  using amount_from_str_display [of a] by (simp add: amount_serialize_def amount_display_def)

end
