(* ===== verification/Asset.thy ===== *)
theory Asset
  imports Amount
begin

text \<open>
  \<open>crates/domain/src/asset.rs\<close>: validated asset codes (the partition key of the ledger) and
  asset scales.  The lemmas show that an accepted code is in normal form and that a scale
  accepted by \<open>AssetScale::new\<close> always has a representable multiplier.
\<close>

datatype AssetScale = AssetScale (scale_get: u8)

definition AssetScale_new :: "u8 \<Rightarrow> DomainError + AssetScale" where
  "AssetScale_new scale =
     (if scale > 18 then Inl (InvalidAssetScale scale) else Inr (AssetScale scale))"

definition multiplier :: "AssetScale \<Rightarrow> DomainError + i128" where
  "multiplier s = ok_or (i128_checked_pow 10 (ucast (scale_get s))) AmountOverflow"

datatype AssetCode = AssetCode (code_str: string)

definition AssetCode_new :: "string \<Rightarrow> DomainError + AssetCode" where
  "AssetCode_new text =
     (let code = to_ascii_uppercase text
      in if \<not> (2 \<le> length code \<and> length code \<le> 16)
         then Inl (InvalidAssetCode code ''length must be 2..=16'')
         else if \<not> list_all is_ascii_alphanumeric code
         then Inl (InvalidAssetCode code ''must be ASCII alphanumeric'')
         else Inr (AssetCode code))"

definition btc :: AssetCode where
  "btc = AssetCode ''BTC''"

definition usd :: AssetCode where
  "usd = AssetCode ''USD''"

record Asset =
  as_code :: AssetCode
  as_scale :: AssetScale
  as_name :: string

definition Asset_new :: "AssetCode \<Rightarrow> AssetScale \<Rightarrow> string \<Rightarrow> Asset" where
  "Asset_new code scale aname = \<lparr>as_code = code, as_scale = scale, as_name = aname\<rparr>"

definition Asset_btc :: Asset where
  "Asset_btc = \<lparr>as_code = btc, as_scale = AssetScale 8, as_name = ''Bitcoin''\<rparr>"

definition Asset_usd :: Asset where
  "Asset_usd = \<lparr>as_code = usd, as_scale = AssetScale 6, as_name = ''US Dollar''\<rparr>"

text \<open>\<open>#[derive(PartialOrd, Ord)]\<close> on the wrapped string: bytewise lexicographic.\<close>

instantiation AssetCode :: linorder
begin

definition less_eq_AssetCode :: "AssetCode \<Rightarrow> AssetCode \<Rightarrow> bool" where
  "less_eq_AssetCode a b \<longleftrightarrow> code_str a \<le> code_str b"

definition less_AssetCode :: "AssetCode \<Rightarrow> AssetCode \<Rightarrow> bool" where
  "less_AssetCode a b \<longleftrightarrow> code_str a < code_str b"

instance
  by standard
    (auto simp: less_eq_AssetCode_def less_AssetCode_def AssetCode.expand)

end

section \<open>Normal form of codes, multipliers of scales\<close>

definition code_wf :: "AssetCode \<Rightarrow> bool" where
  "code_wf c \<longleftrightarrow>
     2 \<le> length (code_str c) \<and> length (code_str c) \<le> 16
     \<and> list_all (\<lambda>ch. is_ascii_digit ch \<or> is_ascii_uppercase ch) (code_str c)"

lemma AssetCode_new_wf: "AssetCode_new text = Inr c \<Longrightarrow> code_wf c"
  using to_ascii_uppercase_no_lower [of _ "text"]
  by (auto simp: AssetCode_new_def code_wf_def Let_def list_all_iff is_ascii_alphanumeric_def
      split: if_splits)

lemma code_wf_no_lower: "code_wf c \<Longrightarrow> ch \<in> set (code_str c) \<Longrightarrow> \<not> is_ascii_lowercase ch"
  by (auto simp: code_wf_def list_all_iff ascii_defs)

lemma AssetCode_new_fixed: "code_wf c \<Longrightarrow> AssetCode_new (code_str c) = Inr c"
  using code_wf_no_lower [of c]
  by (auto simp: AssetCode_new_def Let_def to_ascii_uppercase_fixed code_wf_def list_all_iff
      is_ascii_alphanumeric_def)

lemma btc_usd_expected:
  "AssetCode_new ''BTC'' = Inr btc" "AssetCode_new ''USD'' = Inr usd"
  by (simp_all add: AssetCode_new_def btc_def usd_def to_ascii_uppercase_def ascii_defs)

lemma btc_less_usd: "btc < usd"
  by (simp add: less_AssetCode_def btc_def usd_def)

lemma multiplier_scale:
  assumes "AssetScale_new n = Inr s"
  shows "\<exists>m. multiplier s = Inr m \<and> sint m = 10 ^ unat n"
proof -
  from assms have s: "s = AssetScale n" and n: "unat n \<le> 18"
    by (auto simp: AssetScale_new_def word_less_nat_alt split: if_splits)
  have "(10::int) ^ unat n \<le> 10 ^ 18"
    using n by (intro power_increasing) auto
  then have "in_i128 (10 ^ unat n)"
    by (auto simp: in_i128_def intro: order_trans [of _ 0])
  moreover have "unat (ucast n :: u32) = unat n"
    by (transfer, simp add: nat_less_iff)
  moreover obtain m where "i128_of (10 ^ unat n) = Some m" "sint m = 10 ^ unat n"
    using \<open>in_i128 (10 ^ unat n)\<close> by (rule in_i128E)
  ultimately show ?thesis
    by (auto simp: multiplier_def s i128_checked_pow_def)
qed

text \<open>
  Asset codes have one normal form.  An accepted code consists of 2 to 16 upper-case letters
  and digits, is the upper-cased input, and is accepted again unchanged; so two spellings that
  differ only in case name the same asset.
\<close>

theorem asset_code_normal_form:
  assumes "AssetCode_new s = Inr c"
  shows "code_wf c \<and> code_str c = to_ascii_uppercase s \<and> AssetCode_new (code_str c) = Inr c
    \<and> AssetCode_new (to_ascii_uppercase s) = Inr c"
proof -
  have wf: "code_wf c" and up: "code_str c = to_ascii_uppercase s"
    using AssetCode_new_wf [OF assms] assms
    by (auto simp: AssetCode_new_def Let_def split: if_splits)
  have "AssetCode_new (code_str c) = Inr c"
    by (rule AssetCode_new_fixed [OF wf])
  with wf up show ?thesis
    by (simp flip: up)
qed

lemma ex_code: "AssetCode_new ''btc'' = Inr btc"
  by code_simp

theorem asset_code_normal_form_witness:
  "code_wf btc \<and> code_str btc = to_ascii_uppercase ''btc'' \<and> AssetCode_new (code_str btc) = Inr btc
    \<and> AssetCode_new (to_ascii_uppercase ''btc'') = Inr btc"
  by (rule asset_code_normal_form [OF ex_code])

end
