(* ===== verification/Money.thy ===== *)
theory Money
  imports Asset
begin

text \<open>
  \<open>crates/domain/src/money.rs\<close>: an amount of one asset, checked addition, and the decimal
  parser.  The main lemma characterizes the parser completely: it succeeds exactly on the
  texts of the decimal grammar whose value in atomic units fits, and returns that value.
\<close>

record Money =
  m_asset :: AssetCode
  m_amount :: AtomicAmount

definition Money_new :: "AssetCode \<Rightarrow> AtomicAmount \<Rightarrow> Money" where
  "Money_new asset amount = \<lparr>m_asset = asset, m_amount = amount\<rparr>"

text \<open>The loop \<open>while frac_padded.len() < scale { frac_padded.push('0') }\<close>.\<close>

function pad_frac :: "nat \<Rightarrow> string \<Rightarrow> string" where
  "pad_frac n s = (if length s < n then pad_frac n (s @ ''0'') else s)"
  by pat_completeness auto
termination
  by (relation "measure (\<lambda>(n, s). n - length s)") auto

declare pad_frac.simps [simp del]

definition decimal_units :: "AssetScale \<Rightarrow> bool \<Rightarrow> string \<Rightarrow> string \<Rightarrow> DomainError + i128" where
  "decimal_units scale negative whole frac =
     and_then (multiplier scale) (\<lambda>mult.
     and_then (ok_or (parse_i128 whole) AmountOverflow) (\<lambda>whole_i.
     and_then (ok_or (i128_checked_mul whole_i mult) AmountOverflow) (\<lambda>whole_units.
       let frac_padded = pad_frac (unat (scale_get scale)) frac
       in and_then (if frac_padded = [] then Inr 0
                    else ok_or (parse_i128 frac_padded) AmountOverflow) (\<lambda>frac_units.
     and_then (ok_or (i128_checked_add whole_units frac_units) AmountOverflow) (\<lambda>units.
       if negative then ok_or (i128_checked_neg units) AmountOverflow else Inr units)))))"

definition parse_decimal :: "AssetCode \<Rightarrow> AssetScale \<Rightarrow> string \<Rightarrow> DomainError + Money" where
  "parse_decimal asset scale s =
     (let t = trim s
      in case t of
           [] \<Rightarrow> Inl (InvalidMoneyFormat t)
         | b # rest \<Rightarrow>
             let (negative, body) =
                   (if b = CHR ''-'' then (True, rest)
                    else if b = CHR ''+'' then (False, rest)
                    else (False, t))
             in if body = [] \<or> \<not> list_all (\<lambda>c. is_ascii_digit c \<or> c = CHR ''.'') body
                then Inl (InvalidMoneyFormat t)
                else
                  let (whole, frac) =
                        (case split_once (CHR ''.'') body of
                           Some (w, f) \<Rightarrow> (w, f)
                         | None \<Rightarrow> (body, []))
                  in if whole = [] \<or> \<not> list_all is_ascii_digit whole
                     then Inl (InvalidMoneyFormat t)
                     else if \<not> list_all is_ascii_digit frac
                     then Inl (InvalidMoneyFormat t)
                     else if length frac > unat (scale_get scale)
                     then Inl (InvalidMoneyFormat
                            (''fractional precision exceeds scale ''
                               @ show_nat (unat (scale_get scale))))
                     else and_then (decimal_units scale negative whole frac) (\<lambda>units.
                            Inr (Money_new asset (from_raw units))))"

definition money_checked_add :: "Money \<Rightarrow> Money \<Rightarrow> DomainError + Money" where
  "money_checked_add a b =
     (if m_asset a \<noteq> m_asset b
      then Inl (AssetMismatch (code_str (m_asset a)) (code_str (m_asset b)))
      else and_then (checked_add (m_amount a) (m_amount b)) (\<lambda>amount.
             Inr (Money_new (m_asset a) amount)))"

section \<open>The decimal grammar\<close>

text \<open>
  A decimal text is an optional sign, a non-empty run of digits and optionally a point with a
  further, possibly empty, run of digits.  Its value at scale \<open>n\<close> counts units of \<open>10\<^sup>-\<^sup>n\<close>.
\<close>

definition decimal_form :: "string \<Rightarrow> bool \<Rightarrow> string \<Rightarrow> string \<Rightarrow> bool" where
  "decimal_form t neg whole frac \<longleftrightarrow>
     whole \<noteq> [] \<and> list_all is_ascii_digit whole \<and> list_all is_ascii_digit frac
     \<and> (\<exists>sign \<in> (if neg then {''-''} else {[], ''+''}).
          t = sign @ whole @ ''.'' @ frac \<or> (frac = [] \<and> t = sign @ whole))"

definition decimal_value :: "nat \<Rightarrow> string \<Rightarrow> string \<Rightarrow> int" where
  "decimal_value n whole frac =
     int (digits_val whole * 10 ^ n + digits_val frac * 10 ^ (n - length frac))"

lemma pad_frac_eq: "pad_frac n s = s @ replicate (n - length s) CHR ''0''"
proof (induction n s rule: pad_frac.induct)
  case (1 n s)
  show ?case
  proof (cases "length s < n")
    case True
    then have "n - length s = Suc (n - Suc (length s))" by simp
    then show ?thesis
      using True 1 by (subst pad_frac.simps) simp
  qed (simp add: pad_frac.simps)
qed

lemma digits_val_replicate_0: "digits_val (replicate k CHR ''0'') = 0"
proof (induction k)
  case (Suc k)
  have "replicate (Suc k) CHR ''0'' = replicate k CHR ''0'' @ ''0''"
    by (simp add: replicate_append_same)
  with Suc show ?case
    by (simp add: digits_val_snoc digit_val_def code_of_def del: replicate_Suc)
qed simp

lemma digits_val_pad_frac: "digits_val (pad_frac n s) = digits_val s * 10 ^ (n - length s)"
  by (simp add: pad_frac_eq digits_val_append digits_val_replicate_0)

lemma pad_frac_digits: "list_all is_ascii_digit s \<Longrightarrow> list_all is_ascii_digit (pad_frac n s)"
  by (auto simp: pad_frac_eq list_all_iff ascii_defs)

lemma in_i128_between: "0 \<le> x \<Longrightarrow> x \<le> y \<Longrightarrow> in_i128 y \<Longrightarrow> in_i128 x"
  by (auto simp: in_i128_def)

lemma parse_padded:
  assumes "list_all is_ascii_digit ds"
  shows "(if ds = [] then Inr 0 else ok_or (parse_i128 ds) AmountOverflow)
           = ok_or (i128_of (int (digits_val ds))) AmountOverflow"
  using assms by (auto simp: parse_i128_digits i128_of_def)

lemma decimal_units_value:
  assumes scale: "AssetScale_new n = Inr scale"
    and whole: "whole \<noteq> []" "list_all is_ascii_digit whole"
    and frac: "list_all is_ascii_digit frac"
  defines "V \<equiv> decimal_value (unat n) whole frac"
  shows "decimal_units scale neg whole frac
           = ok_or (if in_i128 V then i128_of (if neg then - V else V) else None) AmountOverflow"
proof -
  obtain m where m: "multiplier scale = Inr m" "sint m = 10 ^ unat n"
    using multiplier_scale [OF scale] by auto
  have n: "unat (scale_get scale) = unat n"
    using scale by (auto simp: AssetScale_new_def split: if_splits)
  define W where "W = int (digits_val whole)"
  define F where "F = int (digits_val (pad_frac (unat n) frac))"
  have V: "V = W * 10 ^ unat n + F" and nonneg: "0 \<le> W" "0 \<le> F"
    by (simp_all add: V_def W_def F_def decimal_value_def digits_val_pad_frac)
  have "W * 1 \<le> W * 10 ^ unat n"
    by (intro mult_left_mono) (simp_all add: nonneg)
  then have le: "W \<le> W * 10 ^ unat n" "W * 10 ^ unat n \<le> V" "F \<le> V"
    using nonneg V by simp_all
  have units: "decimal_units scale neg whole frac =
      and_then (ok_or (i128_of W) AmountOverflow) (\<lambda>w.
      and_then (ok_or (i128_of (sint w * 10 ^ unat n)) AmountOverflow) (\<lambda>wu.
      and_then (ok_or (i128_of F) AmountOverflow) (\<lambda>fu.
      and_then (ok_or (i128_of (sint wu + sint fu)) AmountOverflow) (\<lambda>u.
      if neg then ok_or (i128_of (- sint u)) AmountOverflow else Inr u))))"
    using whole frac unfolding decimal_units_def
    by (cases neg) (simp_all add: m n W_def F_def parse_i128_digits Let_def parse_padded pad_frac_digits
        i128_checked_defs)
  show ?thesis
  proof (cases "in_i128 V")
    case True
    have W: "in_i128 W" and WM: "in_i128 (W * 10 ^ unat n)" and F: "in_i128 F"
      using True le nonneg by (auto intro: in_i128_between order_trans)
    obtain w wm f v where "i128_of W = Some w" "sint w = W" "i128_of F = Some f" "sint f = F"
        "i128_of (W * 10 ^ unat n) = Some wm" "sint wm = W * 10 ^ unat n"
        "i128_of V = Some v" "sint v = V"
      using in_i128E [OF W] in_i128E [OF WM] in_i128E [OF F] in_i128E [OF True] by metis
    with True show ?thesis
      by (simp add: units flip: V)
  next
    case False
    then have "i128_of V = None"
      by (simp add: i128_of_def)
    with False show ?thesis
      by (cases "i128_of W"; cases "i128_of (W * 10 ^ unat n)"; cases "i128_of F")
        (simp_all add: units i128_of_SomeD flip: V)
  qed
qed

text \<open>The tokens the parser splits a text into are those of the grammar.\<close>

lemma digits_no_point: "list_all is_ascii_digit s \<Longrightarrow> CHR ''.'' \<notin> set s"
  by (auto simp: list_all_iff ascii_defs)

lemma digits_or_point: "list_all is_ascii_digit s
    \<Longrightarrow> list_all (\<lambda>c. is_ascii_digit c \<or> c = CHR ''.'') s"
  by (simp add: list_all_iff)

lemma decimal_form_body:
  assumes "whole \<noteq> []" "list_all is_ascii_digit whole" "list_all is_ascii_digit frac"
    and "body = whole @ ''.'' @ frac \<or> (frac = [] \<and> body = whole)"
  shows "body \<noteq> []" "list_all (\<lambda>c. is_ascii_digit c \<or> c = CHR ''.'') body"
    and "(case split_once (CHR ''.'') body of Some (w, f) \<Rightarrow> (w, f) | None \<Rightarrow> (body, []))
           = (whole, frac)"
    and "hd body \<noteq> CHR ''-''" "hd body \<noteq> CHR ''+''"
  using assms digit_not_sign [of "hd whole"]
  by (auto simp: digits_no_point digits_or_point split_once_Some split_once_None hd_append list_all_iff)

lemma parse_decimal_form:
  assumes form: "decimal_form (trim s) neg whole frac"
    and le: "length frac \<le> unat (scale_get scale)"
  shows "parse_decimal asset scale s =
           and_then (decimal_units scale neg whole frac) (\<lambda>u. Inr (Money_new asset (from_raw u)))"
proof -
  obtain sign body where t: "trim s = sign @ body" and sign: "sign \<in> (if neg then {''-''} else {[], ''+''})"
    and body: "body = whole @ ''.'' @ frac \<or> (frac = [] \<and> body = whole)"
    using form by (auto simp: decimal_form_def)
  have digits: "whole \<noteq> []" "list_all is_ascii_digit whole" "list_all is_ascii_digit frac"
    using form by (auto simp: decimal_form_def)
  note b = decimal_form_body [OF digits body]
  obtain b0 bs where "body = b0 # bs"
    using b(1) by (cases body) auto
  then show ?thesis
    using sign b digits le by (auto simp: parse_decimal_def t split: if_splits)
qed

lemma parse_decimal_ok_form:
  assumes "parse_decimal asset scale s = Inr m"
  obtains neg whole frac where "decimal_form (trim s) neg whole frac"
    and "length frac \<le> unat (scale_get scale)"
proof -
  define t where "t = trim s"
  obtain b rest where b: "t = b # rest"
    using assms by (cases t) (auto simp: parse_decimal_def t_def)
  obtain neg body where nb: "(neg, body) = (if b = CHR ''-'' then (True, rest)
      else if b = CHR ''+'' then (False, rest) else (False, t))"
    by (metis surj_pair)
  obtain whole frac where wf: "(whole, frac) =
      (case split_once (CHR ''.'') body of Some (w, f) \<Rightarrow> (w, f) | None \<Rightarrow> (body, []))"
    by (metis surj_pair)
  have "body = whole @ ''.'' @ frac \<or> (frac = [] \<and> body = whole)"
    using wf by (cases "CHR ''.''" body rule: split_once_cases) auto
  moreover have ok: "whole \<noteq> []" "list_all is_ascii_digit whole" "list_all is_ascii_digit frac"
      "length frac \<le> unat (scale_get scale)"
    using assms wf unfolding parse_decimal_def
    by (cases "CHR ''.''" body rule: split_once_cases;
        auto simp: Let_def t_def [symmetric] b nb [symmetric, unfolded b] split: if_splits)+
  moreover have "t = (if b = CHR ''-'' then ''-'' else if b = CHR ''+'' then ''+'' else []) @ body"
    and "neg \<longleftrightarrow> b = CHR ''-''"
    using nb b by (auto split: if_splits)
  ultimately have "decimal_form t neg whole frac"
    using ok by (auto simp: decimal_form_def)
  with ok that show ?thesis
    by (simp add: t_def)
qed

text \<open>
  C37. Decimal parsing is exact.  At a scale accepted by \<open>AssetScale::new\<close>, a text is accepted
  precisely when, after trimming, it is a signed decimal with at most \<open>scale\<close> fractional digits
  whose magnitude in atomic units is below \<open>2\<^sup>1\<^sup>2\<^sup>7\<close>; the amount is then that value, digit for digit.
\<close>

theorem parse_decimal_exact:
  assumes "AssetScale_new n = Inr scale"
  shows "parse_decimal asset scale s = Inr m \<longleftrightarrow>
           (\<exists>neg whole frac. decimal_form (trim s) neg whole frac
              \<and> length frac \<le> unat n
              \<and> decimal_value (unat n) whole frac < 2 ^ 127
              \<and> m = Money_new asset (m_amount m)
              \<and> amt (m_amount m) = (if neg then - decimal_value (unat n) whole frac
                                   else decimal_value (unat n) whole frac))"
proof -
  have n: "scale_get scale = n"
    using assms by (auto simp: AssetScale_new_def split: if_splits)
  have V: "0 \<le> decimal_value (unat n) whole frac" for whole frac
    by (simp add: decimal_value_def)
  have on_form: "parse_decimal asset scale s = Inr m \<longleftrightarrow>
        decimal_value (unat n) whole frac < 2 ^ 127 \<and> m = Money_new asset (m_amount m)
        \<and> amt (m_amount m) = (if neg then - decimal_value (unat n) whole frac
                              else decimal_value (unat n) whole frac)"
    if "decimal_form (trim s) neg whole frac" "length frac \<le> unat n" for neg whole frac
  proof -
    have "list_all is_ascii_digit whole" "list_all is_ascii_digit frac" "whole \<noteq> []"
      using that(1) by (auto simp: decimal_form_def)
    then show ?thesis
      using that V [of whole frac] assms
      by (cases m) (auto simp: n parse_decimal_form decimal_units_value result_simps amt_simps
          Money_new_def from_raw_def in_i128_def AtomicAmount.expand split: if_splits)
  qed
  show ?thesis
  proof
    assume ok: "parse_decimal asset scale s = Inr m"
    then obtain neg whole frac where "decimal_form (trim s) neg whole frac" "length frac \<le> unat n"
      using parse_decimal_ok_form n by metis
    with ok on_form show "\<exists>neg whole frac. decimal_form (trim s) neg whole frac
              \<and> length frac \<le> unat n
              \<and> decimal_value (unat n) whole frac < 2 ^ 127
              \<and> m = Money_new asset (m_amount m)
              \<and> amt (m_amount m) = (if neg then - decimal_value (unat n) whole frac
                                   else decimal_value (unat n) whole frac)"
      by blast
  qed (use on_form in blast)
qed

lemma trim_example: "trim '' -1.5 '' = ''-1.5''"
  by code_simp

theorem parse_decimal_exact_witness:
  "parse_decimal btc (AssetScale 8) '' -1.5 '' = Inr \<lparr>m_asset = btc, m_amount = AtomicAmount (-150000000)\<rparr>"
proof -
  have form: "decimal_form (trim '' -1.5 '') True ''1'' ''5''"
    by (simp add: trim_example decimal_form_def ascii_defs)
  have val: "decimal_value 8 ''1'' ''5'' = 150000000"
    by (simp add: decimal_value_def digits_val_def digit_val_def code_of_def)
  have scale: "AssetScale_new 8 = Inr (AssetScale 8)"
    by (simp add: AssetScale_new_def)
  let ?m = "\<lparr>m_asset = btc, m_amount = AtomicAmount (-150000000)\<rparr>"
  have "\<exists>neg whole frac. decimal_form (trim '' -1.5 '') neg whole frac
          \<and> length frac \<le> unat (8 :: u8) \<and> decimal_value (unat (8 :: u8)) whole frac < 2 ^ 127
          \<and> ?m = Money_new btc (m_amount ?m)
          \<and> amt (m_amount ?m) = (if neg then - decimal_value (unat (8 :: u8)) whole frac
                                else decimal_value (unat (8 :: u8)) whole frac)"
    using form val
    by (intro exI [of _ True] exI [of _ "''1''"] exI [of _ "''5''"]) (simp add: Money_new_def)
  then show ?thesis
    by (rule parse_decimal_exact [OF scale, THEN iffD2])
qed

end
