(* ===== verification/Ids.thy ===== *)
theory Ids
  imports Amount
begin

text \<open>
  \<open>crates/domain/src/ids.rs\<close>: identifiers and idempotency keys.  A \<open>Uuid\<close> is its 128 bits.
  Drawing one (\<open>Uuid::new_v4\<close>), printing and parsing belong to the \<open>uuid\<close> crate: a drawn value
  is an argument of the operation that draws it, and \<open>uuid_show\<close>, \<open>uuid_parse\<close> are arguments of
  the operations that print or parse.  Likewise \<open>Utc::now()\<close> of \<open>chrono\<close> is an argument \<open>now\<close>;
  a point in time is its number of nanoseconds after the start of the year 2000.
\<close>

type_synonym uuid = "128 word"
type_synonym datetime = int

datatype AccountId = AccountId (account_uuid: uuid)
datatype TransactionId = TransactionId (transaction_uuid: uuid)
datatype CorrelationId = CorrelationId (correlation_uuid: uuid)
datatype CausationId = CausationId (causation_uuid: uuid)

definition AccountId_display :: "(uuid \<Rightarrow> string) \<Rightarrow> AccountId \<Rightarrow> string" where
  "AccountId_display uuid_show i = uuid_show (account_uuid i)"

definition TransactionId_display :: "(uuid \<Rightarrow> string) \<Rightarrow> TransactionId \<Rightarrow> string" where
  "TransactionId_display uuid_show i = uuid_show (transaction_uuid i)"

definition AccountId_from_str :: "(string \<Rightarrow> uuid option) \<Rightarrow> string \<Rightarrow> DomainError + AccountId" where
  "AccountId_from_str uuid_parse s =
     ok_or (map_option AccountId (uuid_parse s)) (InvalidIdentifier ''AccountId'' s)"

definition TransactionId_from_str ::
    "(string \<Rightarrow> uuid option) \<Rightarrow> string \<Rightarrow> DomainError + TransactionId" where
  "TransactionId_from_str uuid_parse s =
     ok_or (map_option TransactionId (uuid_parse s)) (InvalidIdentifier ''TransactionId'' s)"

definition CorrelationId_from_str ::
    "(string \<Rightarrow> uuid option) \<Rightarrow> string \<Rightarrow> DomainError + CorrelationId" where
  "CorrelationId_from_str uuid_parse s =
     ok_or (map_option CorrelationId (uuid_parse s)) (InvalidIdentifier ''CorrelationId'' s)"

definition CausationId_from_str ::
    "(string \<Rightarrow> uuid option) \<Rightarrow> string \<Rightarrow> DomainError + CausationId" where
  "CausationId_from_str uuid_parse s =
     ok_or (map_option CausationId (uuid_parse s)) (InvalidIdentifier ''CausationId'' s)"

datatype IdempotencyKey = IdempotencyKey (key_str: string)

definition MAX_LEN :: nat where
  "MAX_LEN = 128"

definition key_char :: "char \<Rightarrow> bool" where
  "key_char c \<longleftrightarrow> is_ascii_alphanumeric c \<or> c \<in> {CHR ''-'', CHR ''_'', CHR ''.'', CHR '':''}"

definition IdempotencyKey_new :: "string \<Rightarrow> DomainError + IdempotencyKey" where
  "IdempotencyKey_new value =
     (if value = [] then Inl (InvalidIdempotencyKey ''key must not be empty'')
      else if length value > MAX_LEN
      then Inl (InvalidIdempotencyKey (''key exceeds '' @ show_nat MAX_LEN @ '' bytes''))
      else if \<not> list_all key_char value
      then Inl (InvalidIdempotencyKey ''key contains invalid characters'')
      else Inr (IdempotencyKey value))"

definition key_wf :: "IdempotencyKey \<Rightarrow> bool" where
  "key_wf k \<longleftrightarrow> key_str k \<noteq> [] \<and> length (key_str k) \<le> 128 \<and> list_all key_char (key_str k)"

lemma IdempotencyKey_new_iff:
  "IdempotencyKey_new value = Inr k \<longleftrightarrow> k = IdempotencyKey value \<and> key_wf k"
  by (auto simp: IdempotencyKey_new_def key_wf_def MAX_LEN_def)

end
