(* ===== verification/Account.thy ===== *)
theory Account
  imports Ids
begin

text \<open>
  \<open>crates/domain/src/account.rs\<close> and \<open>audit.rs\<close>: accounts with their balance policy and
  lifecycle status, and the audit metadata of administrative adjustments.
\<close>

datatype AccountKind =
    CustomerAvailable | CustomerLocked | ExchangeHotWallet | ExchangeColdWallet
  | FeeRevenue | WithdrawalClearing | DepositClearing | OtherKind

datatype AccountPolicy = NonNegative | AllowNegative

datatype AccountStatus = Active | Frozen | Closed

fun status_as_str :: "AccountStatus \<Rightarrow> string" where
  "status_as_str Active = ''active''"
| "status_as_str Frozen = ''frozen''"
| "status_as_str Closed = ''closed''"

record Account =
  acc_id :: AccountId
  acc_name :: string
  acc_kind :: AccountKind
  acc_policy :: AccountPolicy
  acc_status :: AccountStatus
  acc_created_at :: datetime

definition Account_new ::
    "datetime \<Rightarrow> AccountId \<Rightarrow> string \<Rightarrow> AccountKind \<Rightarrow> AccountPolicy \<Rightarrow> Account" where
  "Account_new now aid aname kind policy =
     \<lparr>acc_id = aid, acc_name = aname, acc_kind = kind, acc_policy = policy,
      acc_status = Active, acc_created_at = now\<rparr>"

definition is_active :: "Account \<Rightarrow> bool" where
  "is_active a \<longleftrightarrow> acc_status a = Active"

record AuditMetadata =
  au_actor :: string
  au_reason :: string
  au_ticket_id :: "string option"
  au_authorized_at :: datetime

definition AuditMetadata_new ::
    "datetime \<Rightarrow> string \<Rightarrow> string \<Rightarrow> string option \<Rightarrow> DomainError + AuditMetadata" where
  "AuditMetadata_new now actor reason ticket_id =
     (if trim actor = [] then Inl (Invariant ''audit actor must not be empty'')
      else if trim reason = [] then Inl MissingAdjustmentReason
      else if length reason > 1024 then Inl (Invariant ''audit reason exceeds 1024 characters'')
      else Inr \<lparr>au_actor = actor, au_reason = reason, au_ticket_id = ticket_id,
                au_authorized_at = now\<rparr>)"

lemma AuditMetadata_new_Inr:
  "AuditMetadata_new now actor reason ticket_id = Inr a \<Longrightarrow>
     au_actor a = actor \<and> au_reason a = reason \<and> au_ticket_id a = ticket_id
     \<and> trim (au_actor a) \<noteq> [] \<and> trim (au_reason a) \<noteq> [] \<and> length (au_reason a) \<le> 1024"
  by (auto simp: AuditMetadata_new_def split: if_splits)

end
