(* ===== verification/Checked_Fold.thy ===== *)
theory Checked_Fold
  imports Rust_Std
begin

text \<open>
  Loops of the shape \<open>for p in postings { update(p)?; }\<close> occur throughout the crates: per-asset
  totals, the policy guard, the in-memory store, the projection and the reconciler all add
  signed deltas to keyed balances and stop at the first error.  \<open>try_fold\<close> is that loop; the
  locales below state what one step promises and prove once what the whole loop then does.
\<close>

fun try_fold :: "('p \<Rightarrow> 's \<Rightarrow> 'e + 's) \<Rightarrow> 'p list \<Rightarrow> 's \<Rightarrow> 'e + 's" where
  "try_fold step [] s = Inr s"
| "try_fold step (p # ps) s = and_then (step p s) (try_fold step ps)"

lemma try_fold_append:
  "try_fold step (ps @ qs) s = and_then (try_fold step ps s) (try_fold step qs)"
proof (induction ps arbitrary: s)
  case (Cons p ps)
  then show ?case by (cases "step p s") auto
qed simp

lemma try_fold_invariant:
  assumes "try_fold step ps s = Inr s'" and "I s"
    and "\<And>p s s'. p \<in> set ps \<Longrightarrow> step p s = Inr s' \<Longrightarrow> I s \<Longrightarrow> I s'"
  shows "I s'"
  using assms by (induction ps arbitrary: s) (auto simp: result_simps)

text \<open>
  The same loop over a mutable structure: on an error the changes made so far stay behind.
  \<open>pure_step\<close> forgets them, and a run that succeeds is a run of \<open>try_fold\<close>.
\<close>

fun mut_fold :: "('p \<Rightarrow> 's \<Rightarrow> ('e + unit) \<times> 's) \<Rightarrow> 'p list \<Rightarrow> 's \<Rightarrow> ('e + unit) \<times> 's" where
  "mut_fold step [] s = (Inr (), s)"
| "mut_fold step (p # ps) s =
     (case step p s of
        (Inl e, s') \<Rightarrow> (Inl e, s')
      | (Inr _, s') \<Rightarrow> mut_fold step ps s')"

definition pure_step :: "('p \<Rightarrow> 's \<Rightarrow> ('e + unit) \<times> 's) \<Rightarrow> 'p \<Rightarrow> 's \<Rightarrow> 'e + 's" where
  "pure_step step p s = (case step p s of (Inl e, s') \<Rightarrow> Inl e | (Inr _, s') \<Rightarrow> Inr s')"

lemma mut_fold_ok: "mut_fold step ps s = (Inr u, s') \<longleftrightarrow> try_fold (pure_step step) ps s = Inr s'"
  by (induction ps arbitrary: s) (auto simp: pure_step_def split: prod.splits sum.splits)

lemma mut_fold_error:
  "fst (mut_fold step ps s) = Inl e \<longleftrightarrow> try_fold (pure_step step) ps s = Inl e"
  by (induction ps arbitrary: s) (auto simp: pure_step_def split: prod.splits sum.splits)

lemma mut_fold_invariant:
  assumes "\<And>p s. p \<in> set ps \<Longrightarrow> I s \<Longrightarrow> I (snd (step p s))" and "I s"
  shows "I (snd (mut_fold step ps s))"
  using assms
proof (induction ps arbitrary: s)
  case (Cons p ps)
  obtain r s' where s': "step p s = (r, s')"
    by fastforce
  have "I s'"
    using Cons.prems(1) [of p s] Cons.prems(2) s' by simp
  then show ?case
    using Cons s' by (cases r) auto
qed simp

text \<open>The sum of the deltas booked under one key.\<close>

definition key_sum :: "('p \<Rightarrow> 'k) \<Rightarrow> ('p \<Rightarrow> int) \<Rightarrow> 'k \<Rightarrow> 'p list \<Rightarrow> int" where
  "key_sum key delta k ps = (\<Sum>p \<leftarrow> ps. if key p = k then delta p else 0)"

lemma key_sum_Nil [simp]: "key_sum key delta k [] = 0"
  by (simp add: key_sum_def)

lemma key_sum_Cons [simp]:
  "key_sum key delta k (p # ps) = (if key p = k then delta p else 0) + key_sum key delta k ps"
  by (simp add: key_sum_def)

lemma key_sum_append [simp]:
  "key_sum key delta k (ps @ qs) = key_sum key delta k ps + key_sum key delta k qs"
  by (simp add: key_sum_def)

lemma key_sum_absent: "k \<notin> key ` set ps \<Longrightarrow> key_sum key delta k ps = 0"
  by (induction ps) auto

text \<open>
  A condition on every intermediate balance of the loop: at each position, the gate holds for
  the item there and the balance of its key after the deltas up to and including that position.
\<close>

definition running ::
    "('p \<Rightarrow> int \<Rightarrow> bool) \<Rightarrow> ('p \<Rightarrow> 'k) \<Rightarrow> ('p \<Rightarrow> int) \<Rightarrow> ('k \<Rightarrow> int) \<Rightarrow> 'p list \<Rightarrow> bool" where
  "running gate key delta b ps \<longleftrightarrow>
     (\<forall>i < length ps.
        gate (ps ! i) (b (key (ps ! i)) + key_sum key delta (key (ps ! i)) (take (Suc i) ps)))"

text \<open>No addition of the loop leaves the \<open>i128\<close> range.\<close>

abbreviation running_ok :: "('p \<Rightarrow> 'k) \<Rightarrow> ('p \<Rightarrow> int) \<Rightarrow> ('k \<Rightarrow> int) \<Rightarrow> 'p list \<Rightarrow> bool" where
  "running_ok \<equiv> running (\<lambda>_. in_i128)"

lemma running_Nil [simp]: "running gate key delta b []"
  by (simp add: running_def)

lemma running_Cons:
  "running gate key delta b (p # ps) \<longleftrightarrow>
     gate p (b (key p) + delta p)
     \<and> running gate key delta (\<lambda>k. b k + (if key p = k then delta p else 0)) ps"
  by (simp add: running_def All_less_Suc2 add.assoc del: take_Suc_Cons flip: take_Suc_Cons)
    (simp add: take_Suc_Cons)

lemma running_mono:
  "running gate key delta b ps \<Longrightarrow> (\<And>p x. p \<in> set ps \<Longrightarrow> gate p x \<Longrightarrow> gate' p x)
     \<Longrightarrow> running gate' key delta b ps"
  by (auto simp: running_def)

lemma running_snoc:
  "running gate key delta b (ps @ [p]) \<longleftrightarrow>
     running gate key delta b ps \<and> gate p (b (key p) + key_sum key delta (key p) (ps @ [p]))"
  by (auto simp: running_def nth_append less_Suc_eq)

text \<open>Every key that occurs ends at a balance its gate admitted.\<close>

lemma running_final:
  assumes "running gate key delta b ps" and "k \<in> key ` set ps"
  shows "\<exists>p \<in> set ps. key p = k \<and> gate p (b k + key_sum key delta k ps)"
  using assms
proof (induction ps rule: rev_induct)
  case (snoc p ps)
  show ?case
  proof (cases "key p = k")
    case True
    then show ?thesis
      using snoc.prems by (auto simp: running_snoc)
  next
    case False
    then show ?thesis
      using snoc by (auto simp: running_snoc)
  qed
qed simp

locale posting_fold =
  fixes step :: "'p \<Rightarrow> 's \<Rightarrow> 'e + 's"
    and bal :: "'s \<Rightarrow> 'k \<Rightarrow> int"
    and key :: "'p \<Rightarrow> 'k"
    and delta :: "'p \<Rightarrow> int"
  assumes step_bal:
    "step p s = Inr s' \<Longrightarrow> bal s' k = bal s k + (if key p = k then delta p else 0)"
begin

lemma fold_bal: "try_fold step ps s = Inr s' \<Longrightarrow> bal s' k = bal s k + key_sum key delta k ps"
  by (induction ps arbitrary: s) (auto simp: result_simps step_bal)

end

text \<open>Steps that succeed exactly when a gate admits the new balance; steps keep the gates.\<close>

locale gated_posting_fold = posting_fold step bal key delta
  for step :: "'p \<Rightarrow> 's \<Rightarrow> 'e + 's"
    and bal :: "'s \<Rightarrow> 'k \<Rightarrow> int"
    and key :: "'p \<Rightarrow> 'k"
    and delta :: "'p \<Rightarrow> int" +
  fixes gate :: "'s \<Rightarrow> 'p \<Rightarrow> int \<Rightarrow> bool"
  assumes step_gate: "(\<exists>s'. step p s = Inr s') \<longleftrightarrow> gate s p (bal s (key p) + delta p)"
    and gate_frame: "step p s = Inr s' \<Longrightarrow> gate s' = gate s"
begin

lemma fold_gate: "(\<exists>s'. try_fold step ps s = Inr s') \<longleftrightarrow> running (gate s) key delta (bal s) ps"
proof (induction ps arbitrary: s)
  case (Cons p ps)
  show ?case
  proof (cases "step p s")
    case (Inl e)
    then have "\<not> gate s p (bal s (key p) + delta p)"
      using step_gate [of p s] by simp
    with Inl show ?thesis
      by (simp add: running_Cons)
  next
    case (Inr s')
    then have "gate s p (bal s (key p) + delta p)"
      using step_gate [of p s] by simp
    moreover have "bal s' = (\<lambda>k. bal s k + (if key p = k then delta p else 0))"
      using step_bal [OF Inr] by blast
    ultimately show ?thesis
      using Inr Cons.IH [of s'] gate_frame [OF Inr] by (simp add: running_Cons)
  qed
qed simp

end

text \<open>Steps whose only failure is arithmetic overflow.\<close>

locale total_posting_fold = posting_fold step bal key delta
  for step :: "'p \<Rightarrow> 's \<Rightarrow> 'e + 's"
    and bal :: "'s \<Rightarrow> 'k \<Rightarrow> int"
    and key :: "'p \<Rightarrow> 'k"
    and delta :: "'p \<Rightarrow> int" +
  fixes overflow :: 'e
  assumes step_ok: "(\<exists>s'. step p s = Inr s') \<longleftrightarrow> in_i128 (bal s (key p) + delta p)"
    and step_error: "step p s = Inl e \<Longrightarrow> e = overflow"

sublocale total_posting_fold \<subseteq> in_range: gated_posting_fold step bal key delta "\<lambda>_ _. in_i128"
  by unfold_locales (auto simp: step_ok)

context total_posting_fold
begin

lemma fold_error: "try_fold step ps s = Inl e \<Longrightarrow> e = overflow"
  by (induction ps arbitrary: s) (auto simp: result_simps dest: step_error)

lemma fold_cases:
  obtains (ok) s' where "running_ok key delta (bal s) ps" "try_fold step ps s = Inr s'"
    | (overflow) "\<not> running_ok key delta (bal s) ps" "try_fold step ps s = Inl overflow"
  using in_range.fold_gate [of ps s] fold_error [of ps s] by (cases "try_fold step ps s") auto

end

end
