(* ===== verification/Journal.thy ===== *)
theory Journal
  imports Money Account Checked_Fold
begin

text \<open>
  \<open>crates/domain/src/journal.rs\<close>: postings, journal entries, per-asset totals and the
  double-entry check \<open>validate_balanced\<close>.  Its result is characterized on every branch: the
  posting count, an overflowing running sum, the first unbalanced asset, or success.
\<close>

datatype PostingSide = Debit | Credit

record Posting =
  p_account_id :: AccountId
  p_asset :: AssetCode
  p_amount :: AtomicAmount
  p_side :: PostingSide

definition Posting_new :: "AccountId \<Rightarrow> AssetCode \<Rightarrow> AtomicAmount \<Rightarrow> DomainError + Posting" where
  "Posting_new account_id asset amount =
     (if is_zero amount then Inl (NonPositiveAmount 0)
      else let side = (if is_positive amount then Debit else Credit)
           in Inr \<lparr>p_account_id = account_id, p_asset = asset, p_amount = amount, p_side = side\<rparr>)"

definition Posting_debit :: "AccountId \<Rightarrow> AssetCode \<Rightarrow> AtomicAmount \<Rightarrow> DomainError + Posting" where
  "Posting_debit account_id asset amount =
     and_then (require_positive amount) (\<lambda>amount. Posting_new account_id asset amount)"

definition Posting_credit :: "AccountId \<Rightarrow> AssetCode \<Rightarrow> AtomicAmount \<Rightarrow> DomainError + Posting" where
  "Posting_credit account_id asset amount =
     and_then (and_then (require_positive amount) checked_neg)
       (\<lambda>amount. Posting_new account_id asset amount)"

datatype EntryStatus = Posted | Voided

record JournalEntry =
  je_id :: TransactionId
  je_idempotency_key :: IdempotencyKey
  je_description :: string
  je_postings :: "Posting list"
  je_status :: EntryStatus
  je_correlation_id :: CorrelationId
  je_causation_id :: CausationId
  je_created_at :: datetime

type_synonym asset_map = "(AssetCode \<times> AtomicAmount) list"

text \<open>\<open>totals.entry(asset).or_insert(ZERO)\<close> followed by the checked addition.\<close>

definition or_zero :: "AtomicAmount option \<Rightarrow> AtomicAmount" where
  "or_zero x = (case x of None \<Rightarrow> ZERO | Some v \<Rightarrow> v)"

definition totals_step :: "Posting \<Rightarrow> asset_map \<Rightarrow> DomainError + asset_map" where
  "totals_step posting totals =
     and_then (checked_add (or_zero (map_of totals (p_asset posting))) (p_amount posting))
       (\<lambda>v. Inr (bt_insert (p_asset posting) v totals))"

definition asset_totals :: "Posting list \<Rightarrow> DomainError + asset_map" where
  "asset_totals postings = try_fold totals_step postings []"

fun check_residuals :: "asset_map \<Rightarrow> DomainError + unit" where
  "check_residuals [] = Inr ()"
| "check_residuals ((asset, tot) # totals) =
     (if \<not> is_zero tot then Inl (UnbalancedEntry (code_str asset) (raw tot))
      else check_residuals totals)"

definition validate_balanced :: "Posting list \<Rightarrow> DomainError + unit" where
  "validate_balanced postings =
     (if length postings < 2 then Inl (InsufficientPostings (length postings))
      else and_then (asset_totals postings) check_residuals)"

definition JournalEntry_new ::
    "datetime \<Rightarrow> TransactionId \<Rightarrow> IdempotencyKey \<Rightarrow> string \<Rightarrow> Posting list
      \<Rightarrow> CorrelationId \<Rightarrow> CausationId \<Rightarrow> DomainError + JournalEntry" where
  "JournalEntry_new now tid key description postings correlation_id causation_id =
     and_then (validate_balanced postings) (\<lambda>_.
       Inr \<lparr>je_id = tid, je_idempotency_key = key, je_description = description,
            je_postings = postings, je_status = Posted, je_correlation_id = correlation_id,
            je_causation_id = causation_id, je_created_at = now\<rparr>)"

section \<open>Sums of postings\<close>

abbreviation p_delta :: "Posting \<Rightarrow> int" where
  "p_delta p \<equiv> amt (p_amount p)"

abbreviation p_key :: "Posting \<Rightarrow> AccountId \<times> AssetCode" where
  "p_key p \<equiv> (p_account_id p, p_asset p)"

abbreviation asset_sum :: "AssetCode \<Rightarrow> Posting list \<Rightarrow> int" where
  "asset_sum \<equiv> key_sum p_asset p_delta"

abbreviation account_delta :: "AccountId \<times> AssetCode \<Rightarrow> Posting list \<Rightarrow> int" where
  "account_delta \<equiv> key_sum p_key p_delta"

definition totals_bal :: "asset_map \<Rightarrow> AssetCode \<Rightarrow> int" where
  "totals_bal m a = amt (or_zero (map_of m a))"

lemma or_zero_simps [simp]: "or_zero None = ZERO" "or_zero (Some v) = v"
  by (simp_all add: or_zero_def)

interpretation totals: total_posting_fold totals_step totals_bal p_asset p_delta AmountOverflow
proof
  fix p s s' k
  assume "totals_step p s = Inr s'"
  then show "totals_bal s' k = totals_bal s k + (if p_asset p = k then p_delta p else 0)"
    by (auto simp: totals_step_def totals_bal_def result_simps amt_simps bt.lookup_after_insert)
next
  fix p s
  show "(\<exists>s'. totals_step p s = Inr s') \<longleftrightarrow> in_i128 (totals_bal s (p_asset p) + p_delta p)"
    by (cases "or_zero (map_of s (p_asset p))" "p_amount p" rule: checked_add_cases)
      (auto simp: totals_step_def totals_bal_def)
next
  fix p s e
  assume "totals_step p s = Inl e"
  then show "e = AmountOverflow"
    by (auto simp: totals_step_def result_simps amt_simps)
qed

text \<open>The running per-asset sums of a posting list, started from zero, stay in range.\<close>

abbreviation sums_in_range :: "Posting list \<Rightarrow> bool" where
  "sums_in_range \<equiv> running_ok p_asset p_delta (\<lambda>_. 0)"

lemma totals_step_keys:
  "totals_step p m = Inr m' \<Longrightarrow> fst ` set m' = insert (p_asset p) (fst ` set m)"
  by (simp only: totals_step_def and_then_eq_Inr sum.inject, elim exE conjE, hypsubst,
      rule bt.keys_after_insert)

lemma totals_fold_keys:
  "try_fold totals_step ps m = Inr m' \<Longrightarrow> fst ` set m' = fst ` set m \<union> p_asset ` set ps"
proof (induction ps arbitrary: m)
  case (Cons p ps)
  then obtain m1 where m1: "totals_step p m = Inr m1" "try_fold totals_step ps m1 = Inr m'"
    by (auto simp: result_simps)
  then show ?case
    using Cons.IH [OF m1(2)] totals_step_keys [OF m1(1)] by simp
qed simp

lemma asset_totals_ok:
  assumes "asset_totals ps = Inr m"
  shows "bt_ok m" and "fst ` set m = p_asset ` set ps"
    and "map_of m a = Some v \<Longrightarrow> amt v = asset_sum a ps"
proof -
  show "bt_ok m"
    using assms unfolding asset_totals_def
    by (rule try_fold_invariant) (auto simp: bt.empty_ok totals_step_def result_simps bt.insert_ok)
  show "fst ` set m = p_asset ` set ps"
    using totals_fold_keys [of ps "[]" m] assms by (simp add: asset_totals_def)
  show "map_of m a = Some v \<Longrightarrow> amt v = asset_sum a ps"
    using totals.fold_bal [of ps "[]" m a] assms
    by (simp add: asset_totals_def totals_bal_def)
qed

lemma asset_totals_cases:
  obtains (ok) m where "sums_in_range ps" "asset_totals ps = Inr m"
    | (overflow) "\<not> sums_in_range ps" "asset_totals ps = Inl AmountOverflow"
proof -
  have "totals_bal [] = (\<lambda>_. 0)"
    by (simp add: totals_bal_def fun_eq_iff)
  with that show ?thesis
    unfolding asset_totals_def using totals.fold_cases [of "[]" ps] by metis
qed

lemma asset_totals_entry:
  assumes "asset_totals ps = Inr m"
  shows "(a, v) \<in> set m \<longleftrightarrow> a \<in> p_asset ` set ps \<and> amt v = asset_sum a ps" (is "_ \<longleftrightarrow> ?R")
proof -
  note m = asset_totals_ok [OF assms]
  have key: "map_of m a = None \<longleftrightarrow> a \<notin> p_asset ` set ps"
    by (simp only: map_of_eq_None_iff m(2))
  have "map_of m a = Some v \<longleftrightarrow> ?R"
  proof (cases "map_of m a")
    case None
    with key show ?thesis by simp
  next
    case (Some w)
    then have "amt w = asset_sum a ps" "a \<in> p_asset ` set ps"
      using key m(3) by auto
    then show ?thesis
      using Some amt_eq_iff [of v w] by auto
  qed
  then show ?thesis
    by (simp only: bt.entry_iff_lookup [OF m(1)])
qed

lemma asset_totals_zero:
  assumes "asset_totals ps = Inr m"
  shows "asset_sum a ps = 0 \<longleftrightarrow> (\<forall>v. (a, v) \<in> set m \<longrightarrow> amt v = 0)"
proof (cases "a \<in> p_asset ` set ps")
  case True
  then obtain v where "(a, v) \<in> set m"
    using asset_totals_ok(2) [OF assms] by fastforce
  with True show ?thesis
    using asset_totals_entry [OF assms, of a] by auto
next
  case False
  then show ?thesis
    using asset_totals_entry [OF assms, of a] by (simp add: key_sum_absent)
qed

lemma check_residuals_ok: "check_residuals m = Inr u \<longleftrightarrow> (\<forall>av \<in> set m. amt (snd av) = 0)"
  by (induction m) (auto simp: is_zero_amt split: if_splits)

lemma check_residuals_error:
  "bt_ok m \<Longrightarrow> check_residuals m = Inl e \<longleftrightarrow>
     (\<exists>a v. (a, v) \<in> set m \<and> amt v \<noteq> 0 \<and> (\<forall>(b, w) \<in> set m. b < a \<longrightarrow> amt w = 0)
        \<and> e = UnbalancedEntry (code_str a) (raw v))"
proof (induction m)
  case (Cons av m)
  obtain a v where av: "av = (a, v)"
    by (cases av)
  with Cons.prems have above: "\<And>b w. (b, w) \<in> set m \<Longrightarrow> a < b" and "bt_ok m"
    by (auto simp: bt_ok_Cons)
  show ?case
  proof (cases "amt v = 0")
    case True
    have "(\<exists>b w. (b, w) \<in> set (av # m) \<and> amt w \<noteq> 0
             \<and> (\<forall>(c, u) \<in> set (av # m). c < b \<longrightarrow> amt u = 0) \<and> e = UnbalancedEntry (code_str b) (raw w))
        \<longleftrightarrow> (\<exists>b w. (b, w) \<in> set m \<and> amt w \<noteq> 0
             \<and> (\<forall>(c, u) \<in> set m. c < b \<longrightarrow> amt u = 0) \<and> e = UnbalancedEntry (code_str b) (raw w))"
      using True av by auto
    with Cons.IH [OF \<open>bt_ok m\<close>] True av show ?thesis
      by (simp only: check_residuals.simps is_zero_amt) simp
  next
    case False
    have uniq: "b = a \<and> w = v"
      if "(b, w) \<in> set (av # m)" "\<forall>(c, u) \<in> set (av # m). c < b \<longrightarrow> amt u = 0" for b w
      using that False above av by auto
    have least: "\<forall>(c, u) \<in> set (av # m). c < a \<longrightarrow> amt u = 0"
      using above av by (auto dest: less_asym)
    have err: "check_residuals (av # m) = Inl (UnbalancedEntry (code_str a) (raw v))"
      using False av by (simp add: is_zero_amt)
    show ?thesis
      unfolding err sum.inject
      using uniq least False av by (metis list.set_intros(1))
  qed
qed simp

text \<open>
  C3. The double-entry check, on every branch.  \<open>validate_balanced\<close> accepts a list of postings
  iff there are at least two, no running per-asset sum leaves the \<open>i128\<close> range, and every
  asset sums to zero.  Otherwise it reports, in this order of precedence, the posting count,
  the overflow, or the least asset code with a non-zero sum together with that sum.
\<close>

theorem validate_balanced_spec:
  "(validate_balanced ps = Inr () \<longleftrightarrow>
      2 \<le> length ps \<and> sums_in_range ps \<and> (\<forall>a. asset_sum a ps = 0))
   \<and> (validate_balanced ps = Inl e \<longleftrightarrow>
      (length ps < 2 \<and> e = InsufficientPostings (length ps))
      \<or> (2 \<le> length ps \<and> \<not> sums_in_range ps \<and> e = AmountOverflow)
      \<or> (2 \<le> length ps \<and> sums_in_range ps
         \<and> (\<exists>a r. asset_sum a ps \<noteq> 0 \<and> (\<forall>b < a. asset_sum b ps = 0)
               \<and> sint r = asset_sum a ps \<and> e = UnbalancedEntry (code_str a) r)))"
proof (cases "length ps < 2")
  case True
  then show ?thesis
    by (auto simp: validate_balanced_def)
next
  case False
  show ?thesis
  proof (cases ps rule: asset_totals_cases)
    case overflow
    with False show ?thesis
      by (auto simp: validate_balanced_def)
  next
    case (ok m)
    note m = asset_totals_ok [OF ok(2)]
    note entry = asset_totals_entry [OF ok(2)] and sum = asset_totals_zero [OF ok(2)]
    have "check_residuals m = Inr () \<longleftrightarrow> (\<forall>a. asset_sum a ps = 0)"
      unfolding check_residuals_ok sum by force
    moreover have "check_residuals m = Inl e \<longleftrightarrow>
        (\<exists>a r. asset_sum a ps \<noteq> 0 \<and> (\<forall>b < a. asset_sum b ps = 0)
               \<and> sint r = asset_sum a ps \<and> e = UnbalancedEntry (code_str a) r)"
      (is "_ \<longleftrightarrow> ?R")
    proof
      assume "check_residuals m = Inl e"
      then obtain a v where "(a, v) \<in> set m" "amt v \<noteq> 0" "\<forall>(b, w) \<in> set m. b < a \<longrightarrow> amt w = 0"
          "e = UnbalancedEntry (code_str a) (raw v)"
        unfolding check_residuals_error [OF m(1)] by blast
      moreover from this have "\<forall>b < a. asset_sum b ps = 0"
        unfolding sum by blast
      ultimately show ?R
        using entry by auto
    next
      assume ?R
      then obtain a r where "asset_sum a ps \<noteq> 0" "\<forall>b < a. asset_sum b ps = 0"
        and r: "sint r = asset_sum a ps" "e = UnbalancedEntry (code_str a) r"
        by blast
      moreover from this have "(a, AtomicAmount r) \<in> set m"
        using entry [of a] key_sum_absent by fastforce
      ultimately show "check_residuals m = Inl e"
        unfolding check_residuals_error [OF m(1)] using entry
        by (intro exI [of _ a] exI [of _ "AtomicAmount r"]) auto
    qed
    ultimately show ?thesis
      using False ok by (simp add: validate_balanced_def)
  qed
qed

text \<open>Five units of one asset against five of another: the least asset is reported.\<close>

definition ex_mixed :: "Posting list" where
  "ex_mixed =
     [\<lparr>p_account_id = AccountId 1, p_asset = usd, p_amount = AtomicAmount (- 5), p_side = Credit\<rparr>,
      \<lparr>p_account_id = AccountId 2, p_asset = btc, p_amount = AtomicAmount 5, p_side = Debit\<rparr>]"

theorem validate_balanced_spec_witness:
  "validate_balanced ex_mixed = Inl (UnbalancedEntry ''BTC'' 5)"
proof -
  have order: "btc < usd"
    by code_simp
  have sums: "asset_sum a ex_mixed = (if a = btc then 5 else if a = usd then - 5 else 0)" for a
    using order by (auto simp: ex_mixed_def)
  have "sums_in_range ex_mixed"
    by (simp add: ex_mixed_def running_Cons in_i128_def btc_def usd_def)
  moreover have "\<forall>b < btc. asset_sum b ex_mixed = 0"
    using order by (auto simp: sums)
  moreover have "asset_sum btc ex_mixed = 5" "length ex_mixed = 2" "code_str btc = ''BTC''"
    by (simp_all add: sums) (simp_all add: ex_mixed_def btc_def)
  ultimately show ?thesis
    by (intro validate_balanced_spec [THEN conjunct2, THEN iffD2] disjI2 conjI exI [of _ btc]
        exI [of _ "5 :: i128"]) simp_all
qed

section \<open>Debits, credits and entries\<close>

text \<open>The posting a debit or credit of a positive amount builds.\<close>

definition debit_of :: "AccountId \<Rightarrow> AssetCode \<Rightarrow> AtomicAmount \<Rightarrow> Posting" where
  "debit_of account_id asset x =
     \<lparr>p_account_id = account_id, p_asset = asset, p_amount = x, p_side = Debit\<rparr>"

definition credit_of :: "AccountId \<Rightarrow> AssetCode \<Rightarrow> AtomicAmount \<Rightarrow> Posting" where
  "credit_of account_id asset x =
     \<lparr>p_account_id = account_id, p_asset = asset, p_amount = AtomicAmount (- raw x), p_side = Credit\<rparr>"

lemma debit_of_sel [simp]:
  "p_account_id (debit_of i a x) = i" "p_asset (debit_of i a x) = a" "p_amount (debit_of i a x) = x"
  by (simp_all add: debit_of_def)

lemma checked_neg_pos:
  assumes "0 < amt x"
  shows "checked_neg x = Inr (AtomicAmount (- raw x))" and "sint (- raw x) = - amt x"
proof -
  obtain y where y: "checked_neg x = Inr y" "amt y = - amt x"
    using in_i128_neg_pos [OF assms] by (cases "checked_neg x") (metis checked_neg_Inl, metis checked_neg_Inr)
  moreover have "sint (word_of_int (- amt x) :: i128) = - amt x"
    by (rule sint_word_of_int_i128 [OF in_i128_neg_pos [OF assms]])
  ultimately have "y = AtomicAmount (- raw x)"
    by (simp add: AtomicAmount.expand flip: amt_eq_iff)
  with y show "checked_neg x = Inr (AtomicAmount (- raw x))" "sint (- raw x) = - amt x"
    by simp_all
qed

lemma credit_of_sel [simp]:
  "p_account_id (credit_of i a x) = i" "p_asset (credit_of i a x) = a"
  "0 < amt x \<Longrightarrow> p_delta (credit_of i a x) = - amt x"
  by (simp_all add: credit_of_def checked_neg_pos)

lemma Posting_debit_eq:
  "Posting_debit i a x = (if 0 < amt x then Inr (debit_of i a x) else Inl (NonPositiveAmount (raw x)))"
  by (auto simp: Posting_debit_def Posting_new_def debit_of_def require_positive_def amt_simps)

lemma Posting_credit_eq:
  "Posting_credit i a x = (if 0 < amt x then Inr (credit_of i a x) else Inl (NonPositiveAmount (raw x)))"
  by (auto simp: Posting_credit_def Posting_new_def credit_of_def require_positive_def
      checked_neg_pos amt_simps)

lemma JournalEntry_new_Inr:
  "JournalEntry_new now tid key d ps co ca = Inr e \<Longrightarrow>
     validate_balanced (je_postings e) = Inr () \<and> je_postings e = ps \<and> je_id e = tid
     \<and> je_idempotency_key e = key \<and> je_description e = d \<and> je_correlation_id e = co
     \<and> je_causation_id e = ca \<and> je_created_at e = now \<and> je_status e = Posted"
  by (auto simp: JournalEntry_new_def result_simps)

text \<open>What the rest of the system needs of an accepted entry: every asset sums to zero.\<close>

lemma validated_zero_sum: "validate_balanced ps = Inr () \<Longrightarrow> asset_sum a ps = 0"
proof (cases ps rule: asset_totals_cases)
  case (ok m)
  moreover assume "validate_balanced ps = Inr ()"
  ultimately have "check_residuals m = Inr ()"
    by (auto simp: validate_balanced_def split: if_splits)
  then show ?thesis
    unfolding asset_totals_zero [OF ok(2)] check_residuals_ok by force
qed (auto simp: validate_balanced_def split: if_splits)

lemma validate_balancedI:
  assumes "2 \<le> length ps" "sums_in_range ps" "\<And>a. asset_sum a ps = 0"
  shows "validate_balanced ps = Inr ()"
proof (cases ps rule: asset_totals_cases)
  case (ok m)
  then have "check_residuals m = Inr ()"
    using assms asset_totals_entry [OF ok(2)] unfolding check_residuals_ok by force
  with ok assms show ?thesis
    by (simp add: validate_balanced_def)
qed (use assms in simp)

end
