(* ===== verification/Flow.thy ===== *)
theory Flow
  imports Journal
begin

text \<open>
  \<open>crates/domain/src/flow.rs\<close>: the eight transaction flows and the journal entries they build.
  \<open>legs\<close> gives each flow its meaning as a list of transfers; the interface \<open>flow_builder\<close>
  states that a flow's entry validates, exists exactly for positive amounts and has the net
  effect of those transfers, and every flow is an instance of it.
\<close>

definition transfer_pair ::
    "AccountId \<Rightarrow> AccountId \<Rightarrow> AssetCode \<Rightarrow> AtomicAmount \<Rightarrow> DomainError + Posting list" where
  "transfer_pair from to asset amount =
     and_then (require_positive amount) (\<lambda>amount.
     and_then (Posting_credit from asset amount) (\<lambda>c.
     and_then (Posting_debit to asset amount) (\<lambda>d. Inr [c, d])))"

record ConfirmedDeposit =
  cd_idempotency_key :: IdempotencyKey
  cd_customer_available :: AccountId
  cd_deposit_clearing :: AccountId
  cd_hot_wallet :: "AccountId option"
  cd_asset :: AssetCode
  cd_amount :: AtomicAmount
  cd_correlation_id :: CorrelationId
  cd_causation_id :: CausationId

definition ConfirmedDeposit_into_entry ::
    "uuid \<Rightarrow> datetime \<Rightarrow> ConfirmedDeposit \<Rightarrow> DomainError + JournalEntry" where
  "ConfirmedDeposit_into_entry tx now f =
     and_then (require_positive (cd_amount f)) (\<lambda>amount.
     and_then (transfer_pair (cd_deposit_clearing f) (cd_customer_available f) (cd_asset f) amount)
       (\<lambda>postings.
     and_then (case cd_hot_wallet f of
           None \<Rightarrow> Inr postings
         | Some hot \<Rightarrow>
             and_then (Posting_debit (cd_deposit_clearing f) (cd_asset f) amount) (\<lambda>d.
             and_then (Posting_credit hot (cd_asset f) amount) (\<lambda>c.
               Inr (postings @ [d] @ [c])))) (\<lambda>postings.
       JournalEntry_new now (TransactionId tx) (cd_idempotency_key f) ''confirmed_deposit''
         postings (cd_correlation_id f) (cd_causation_id f))))"

record InternalTransfer =
  it_idempotency_key :: IdempotencyKey
  it_from :: AccountId
  it_to :: AccountId
  it_asset :: AssetCode
  it_amount :: AtomicAmount
  it_correlation_id :: CorrelationId
  it_causation_id :: CausationId

definition InternalTransfer_into_entry ::
    "uuid \<Rightarrow> datetime \<Rightarrow> InternalTransfer \<Rightarrow> DomainError + JournalEntry" where
  "InternalTransfer_into_entry tx now f =
     and_then (transfer_pair (it_from f) (it_to f) (it_asset f) (it_amount f)) (\<lambda>postings.
       JournalEntry_new now (TransactionId tx) (it_idempotency_key f) ''internal_transfer''
         postings (it_correlation_id f) (it_causation_id f))"

record TradeSettlement =
  ts_idempotency_key :: IdempotencyKey
  ts_buyer_available :: AccountId
  ts_seller_available :: AccountId
  ts_base_asset :: AssetCode
  ts_base_amount :: AtomicAmount
  ts_quote_asset :: AssetCode
  ts_quote_amount :: AtomicAmount
  ts_correlation_id :: CorrelationId
  ts_causation_id :: CausationId

definition TradeSettlement_into_entry ::
    "uuid \<Rightarrow> datetime \<Rightarrow> TradeSettlement \<Rightarrow> DomainError + JournalEntry" where
  "TradeSettlement_into_entry tx now f =
     and_then (require_positive (ts_base_amount f)) (\<lambda>base.
     and_then (require_positive (ts_quote_amount f)) (\<lambda>quote.
     and_then (Posting_credit (ts_seller_available f) (ts_base_asset f) base) (\<lambda>p1.
     and_then (Posting_debit (ts_buyer_available f) (ts_base_asset f) base) (\<lambda>p2.
     and_then (Posting_credit (ts_buyer_available f) (ts_quote_asset f) quote) (\<lambda>p3.
     and_then (Posting_debit (ts_seller_available f) (ts_quote_asset f) quote) (\<lambda>p4.
       JournalEntry_new now (TransactionId tx) (ts_idempotency_key f) ''trade_settlement''
         [p1, p2, p3, p4] (ts_correlation_id f) (ts_causation_id f)))))))"

record TradingFee =
  tf_idempotency_key :: IdempotencyKey
  tf_customer_available :: AccountId
  tf_fee_revenue :: AccountId
  tf_asset :: AssetCode
  tf_amount :: AtomicAmount
  tf_correlation_id :: CorrelationId
  tf_causation_id :: CausationId

definition TradingFee_into_entry ::
    "uuid \<Rightarrow> datetime \<Rightarrow> TradingFee \<Rightarrow> DomainError + JournalEntry" where
  "TradingFee_into_entry tx now f =
     and_then (transfer_pair (tf_customer_available f) (tf_fee_revenue f) (tf_asset f)
        (tf_amount f)) (\<lambda>postings.
       JournalEntry_new now (TransactionId tx) (tf_idempotency_key f) ''trading_fee''
         postings (tf_correlation_id f) (tf_causation_id f))"

record WithdrawalRequest =
  wr_idempotency_key :: IdempotencyKey
  wr_customer_available :: AccountId
  wr_customer_locked :: AccountId
  wr_asset :: AssetCode
  wr_amount :: AtomicAmount
  wr_correlation_id :: CorrelationId
  wr_causation_id :: CausationId

definition WithdrawalRequest_into_entry ::
    "uuid \<Rightarrow> datetime \<Rightarrow> WithdrawalRequest \<Rightarrow> DomainError + JournalEntry" where
  "WithdrawalRequest_into_entry tx now f =
     and_then (transfer_pair (wr_customer_available f) (wr_customer_locked f) (wr_asset f)
        (wr_amount f)) (\<lambda>postings.
       JournalEntry_new now (TransactionId tx) (wr_idempotency_key f) ''withdrawal_request''
         postings (wr_correlation_id f) (wr_causation_id f))"

record WithdrawalCompletion =
  wc_idempotency_key :: IdempotencyKey
  wc_customer_locked :: AccountId
  wc_withdrawal_clearing :: AccountId
  wc_hot_wallet :: AccountId
  wc_asset :: AssetCode
  wc_amount :: AtomicAmount
  wc_correlation_id :: CorrelationId
  wc_causation_id :: CausationId

definition WithdrawalCompletion_into_entry ::
    "uuid \<Rightarrow> datetime \<Rightarrow> WithdrawalCompletion \<Rightarrow> DomainError + JournalEntry" where
  "WithdrawalCompletion_into_entry tx now f =
     and_then (require_positive (wc_amount f)) (\<lambda>amount.
     and_then (Posting_credit (wc_customer_locked f) (wc_asset f) amount) (\<lambda>p1.
     and_then (Posting_debit (wc_withdrawal_clearing f) (wc_asset f) amount) (\<lambda>p2.
     and_then (Posting_credit (wc_withdrawal_clearing f) (wc_asset f) amount) (\<lambda>p3.
     and_then (Posting_debit (wc_hot_wallet f) (wc_asset f) amount) (\<lambda>p4.
       JournalEntry_new now (TransactionId tx) (wc_idempotency_key f) ''withdrawal_completion''
         [p1, p2, p3, p4] (wc_correlation_id f) (wc_causation_id f))))))"

record WithdrawalRejection =
  wj_idempotency_key :: IdempotencyKey
  wj_customer_locked :: AccountId
  wj_customer_available :: AccountId
  wj_asset :: AssetCode
  wj_amount :: AtomicAmount
  wj_correlation_id :: CorrelationId
  wj_causation_id :: CausationId

definition WithdrawalRejection_into_entry ::
    "uuid \<Rightarrow> datetime \<Rightarrow> WithdrawalRejection \<Rightarrow> DomainError + JournalEntry" where
  "WithdrawalRejection_into_entry tx now f =
     and_then (transfer_pair (wj_customer_locked f) (wj_customer_available f) (wj_asset f)
        (wj_amount f)) (\<lambda>postings.
       JournalEntry_new now (TransactionId tx) (wj_idempotency_key f) ''withdrawal_rejection''
         postings (wj_correlation_id f) (wj_causation_id f))"

record AdminAdjustment =
  aa_idempotency_key :: IdempotencyKey
  aa_from :: AccountId
  aa_to :: AccountId
  aa_asset :: AssetCode
  aa_amount :: AtomicAmount
  aa_audit :: AuditMetadata
  aa_correlation_id :: CorrelationId
  aa_causation_id :: CausationId

definition AdminAdjustment_into_entry ::
    "uuid \<Rightarrow> datetime \<Rightarrow> AdminAdjustment \<Rightarrow> DomainError + JournalEntry" where
  "AdminAdjustment_into_entry tx now f =
     and_then (transfer_pair (aa_from f) (aa_to f) (aa_asset f) (aa_amount f)) (\<lambda>postings.
       let description = ''admin_adjustment: '' @ au_reason (aa_audit f)
       in JournalEntry_new now (TransactionId tx) (aa_idempotency_key f) description
            postings (aa_correlation_id f) (aa_causation_id f))"

section \<open>The meaning of a flow: a list of transfers\<close>

record leg =
  leg_from :: AccountId
  leg_to :: AccountId
  leg_asset :: AssetCode
  leg_amount :: AtomicAmount

abbreviation mk_leg :: "AccountId \<Rightarrow> AccountId \<Rightarrow> AssetCode \<Rightarrow> AtomicAmount \<Rightarrow> leg" where
  "mk_leg f t a x \<equiv> \<lparr>leg_from = f, leg_to = t, leg_asset = a, leg_amount = x\<rparr>"

definition legs_delta :: "leg list \<Rightarrow> AccountId \<times> AssetCode \<Rightarrow> int" where
  "legs_delta ls k =
     (\<Sum>l \<leftarrow> ls. (if (leg_to l, leg_asset l) = k then amt (leg_amount l) else 0)
               - (if (leg_from l, leg_asset l) = k then amt (leg_amount l) else 0))"

definition deposit_legs :: "ConfirmedDeposit \<Rightarrow> leg list" where
  "deposit_legs f =
     mk_leg (cd_deposit_clearing f) (cd_customer_available f) (cd_asset f) (cd_amount f)
     # (case cd_hot_wallet f of
          None \<Rightarrow> []
        | Some hot \<Rightarrow> [mk_leg hot (cd_deposit_clearing f) (cd_asset f) (cd_amount f)])"

definition transfer_legs :: "InternalTransfer \<Rightarrow> leg list" where
  "transfer_legs f = [mk_leg (it_from f) (it_to f) (it_asset f) (it_amount f)]"

definition trade_legs :: "TradeSettlement \<Rightarrow> leg list" where
  "trade_legs f =
     [mk_leg (ts_seller_available f) (ts_buyer_available f) (ts_base_asset f) (ts_base_amount f),
      mk_leg (ts_buyer_available f) (ts_seller_available f) (ts_quote_asset f) (ts_quote_amount f)]"

definition fee_legs :: "TradingFee \<Rightarrow> leg list" where
  "fee_legs f = [mk_leg (tf_customer_available f) (tf_fee_revenue f) (tf_asset f) (tf_amount f)]"

definition request_legs :: "WithdrawalRequest \<Rightarrow> leg list" where
  "request_legs f =
     [mk_leg (wr_customer_available f) (wr_customer_locked f) (wr_asset f) (wr_amount f)]"

definition completion_legs :: "WithdrawalCompletion \<Rightarrow> leg list" where
  "completion_legs f =
     [mk_leg (wc_customer_locked f) (wc_withdrawal_clearing f) (wc_asset f) (wc_amount f),
      mk_leg (wc_withdrawal_clearing f) (wc_hot_wallet f) (wc_asset f) (wc_amount f)]"

definition rejection_legs :: "WithdrawalRejection \<Rightarrow> leg list" where
  "rejection_legs f =
     [mk_leg (wj_customer_locked f) (wj_customer_available f) (wj_asset f) (wj_amount f)]"

definition adjustment_legs :: "AdminAdjustment \<Rightarrow> leg list" where
  "adjustment_legs f = [mk_leg (aa_from f) (aa_to f) (aa_asset f) (aa_amount f)]"

lemmas legs_defs =
  deposit_legs_def transfer_legs_def trade_legs_def fee_legs_def request_legs_def
  completion_legs_def rejection_legs_def adjustment_legs_def

text \<open>
  The contract of a flow.  \<open>build tx now f\<close> is its \<open>into_entry\<close> with the drawn identifier and
  time; \<open>key_of\<close> is the idempotency key it carries.
\<close>

locale flow_builder =
  fixes build :: "uuid \<Rightarrow> datetime \<Rightarrow> 'f \<Rightarrow> DomainError + JournalEntry"
    and legs :: "'f \<Rightarrow> leg list"
    and key_of :: "'f \<Rightarrow> IdempotencyKey"
  assumes build_ok_iff:
      "(\<exists>e. build tx now f = Inr e) \<longleftrightarrow> (\<forall>l \<in> set (legs f). 0 < amt (leg_amount l))"
    and build_error:
      "build tx now f = Inl err \<Longrightarrow>
         \<exists>l \<in> set (legs f). amt (leg_amount l) \<le> 0 \<and> err = NonPositiveAmount (raw (leg_amount l))"
    and build_valid: "build tx now f = Inr e \<Longrightarrow> validate_balanced (je_postings e) = Inr ()"
    and build_delta:
      "build tx now f = Inr e \<Longrightarrow> account_delta k (je_postings e) = legs_delta (legs f) k"
    and build_id:
      "build tx now f = Inr e \<Longrightarrow> je_id e = TransactionId tx \<and> je_idempotency_key e = key_of f"
begin

lemma build_zero_sum: "build tx now f = Inr e \<Longrightarrow> asset_sum a (je_postings e) = 0"
  using build_valid validated_zero_sum by blast

lemma build_untouched:
  assumes "build tx now f = Inr e"
    and "\<And>l. l \<in> set (legs f) \<Longrightarrow> (leg_from l, leg_asset l) \<noteq> k \<and> (leg_to l, leg_asset l) \<noteq> k"
  shows "account_delta k (je_postings e) = 0"
proof -
  have "legs_delta (legs f) k = (\<Sum>l \<leftarrow> legs f. 0)"
    unfolding legs_delta_def
    by (intro arg_cong [where f = sum_list] map_cong refl) (use assms(2) in auto)
  then show ?thesis
    using build_delta [OF assms(1)] by simp
qed

lemma build_cases:
  obtains (ok) e where "build tx now f = Inr e" "\<forall>l \<in> set (legs f). 0 < amt (leg_amount l)"
    | (rejected) l where "l \<in> set (legs f)" "amt (leg_amount l) \<le> 0"
        "build tx now f = Inl (NonPositiveAmount (raw (leg_amount l)))"
  using build_ok_iff [of tx now f] build_error [of tx now f] by (cases "build tx now f") blast+

end

lemma transfer_pair_eq:
  "transfer_pair f t a x =
     (if 0 < amt x then Inr [credit_of f a x, debit_of t a x] else Inl (NonPositiveAmount (raw x)))"
  by (simp add: transfer_pair_def require_positive_def Posting_credit_eq Posting_debit_eq)

text \<open>Credit/debit pairs in either order, one after the other, always validate.\<close>

lemma pair_valid:
  "0 < amt x \<Longrightarrow> validate_balanced [credit_of f a x, debit_of t a x] = Inr ()"
  by (intro validate_balancedI) (simp_all add: running_Cons in_i128_neg_pos)

lemma two_pairs_valid:
  "0 < amt x \<Longrightarrow> 0 < amt y \<Longrightarrow>
     validate_balanced [credit_of f a x, debit_of t a x, credit_of f' b y, debit_of t' b y] = Inr ()"
  by (intro validate_balancedI) (auto simp: running_Cons in_i128_neg_pos)

lemma mirrored_pairs_valid:
  "0 < amt x \<Longrightarrow>
     validate_balanced [credit_of f a x, debit_of t a x, debit_of t' a x, credit_of f' a x] = Inr ()"
  by (intro validate_balancedI) (auto simp: running_Cons in_i128_neg_pos)

lemmas flow_simps =
  transfer_pair_eq Posting_credit_eq Posting_debit_eq require_positive_def JournalEntry_new_def
  pair_valid two_pairs_valid mirrored_pairs_valid legs_delta_def

interpretation deposit: flow_builder ConfirmedDeposit_into_entry deposit_legs cd_idempotency_key
  by unfold_locales
    (auto simp: ConfirmedDeposit_into_entry_def legs_defs flow_simps split: option.splits if_splits)

interpretation transfer: flow_builder InternalTransfer_into_entry transfer_legs it_idempotency_key
  by unfold_locales
    (auto simp: InternalTransfer_into_entry_def legs_defs flow_simps split: if_splits)

interpretation trade: flow_builder TradeSettlement_into_entry trade_legs ts_idempotency_key
  by unfold_locales
    (auto simp: TradeSettlement_into_entry_def legs_defs flow_simps split: if_splits)

interpretation fee: flow_builder TradingFee_into_entry fee_legs tf_idempotency_key
  by unfold_locales
    (auto simp: TradingFee_into_entry_def legs_defs flow_simps split: if_splits)

interpretation request: flow_builder WithdrawalRequest_into_entry request_legs wr_idempotency_key
  by unfold_locales
    (auto simp: WithdrawalRequest_into_entry_def legs_defs flow_simps split: if_splits)

interpretation completion:
  flow_builder WithdrawalCompletion_into_entry completion_legs wc_idempotency_key
  by unfold_locales
    (auto simp: WithdrawalCompletion_into_entry_def legs_defs flow_simps split: if_splits)

interpretation rejection:
  flow_builder WithdrawalRejection_into_entry rejection_legs wj_idempotency_key
  by unfold_locales
    (auto simp: WithdrawalRejection_into_entry_def legs_defs flow_simps split: if_splits)

interpretation adjustment:
  flow_builder AdminAdjustment_into_entry adjustment_legs aa_idempotency_key
  by unfold_locales
    (auto simp: AdminAdjustment_into_entry_def legs_defs flow_simps split: if_splits)

section \<open>The flows' effects\<close>

text \<open>
  Confirmed deposits.  The flow builds an entry exactly for a positive amount; the entry
  validates and its net effect on every account is the transfer clearing \<open>\<rightarrow>\<close> customer and, with
  a hot wallet, the transfer hot wallet \<open>\<rightarrow>\<close> clearing.
\<close>

theorem deposit_entry:
  "(0 < amt (cd_amount f) \<longrightarrow>
     (\<exists>e. ConfirmedDeposit_into_entry tx now f = Inr e \<and> validate_balanced (je_postings e) = Inr ()
        \<and> (\<forall>k. account_delta k (je_postings e) = legs_delta (deposit_legs f) k)))
   \<and> (amt (cd_amount f) \<le> 0 \<longrightarrow>
     ConfirmedDeposit_into_entry tx now f = Inl (NonPositiveAmount (raw (cd_amount f))))"
proof -
  have legs: "leg_amount l = cd_amount f" if "l \<in> set (deposit_legs f)" for l
    using that by (auto simp: deposit_legs_def split: option.splits)
  show ?thesis
  proof (cases rule: deposit.build_cases [of tx now f])
    case (ok e)
    then have "0 < amt (cd_amount f)"
      by (auto simp: deposit_legs_def)
    then show ?thesis
      using deposit.build_valid [OF ok(1)] deposit.build_delta [OF ok(1)] ok(1) by auto
  next
    case (rejected l)
    then show ?thesis
      using legs by auto
  qed
qed

theorem deposit_entry_witness:
  "\<exists>e. ConfirmedDeposit_into_entry 7 0
       \<lparr>cd_idempotency_key = IdempotencyKey ''d'', cd_customer_available = AccountId 1,
        cd_deposit_clearing = AccountId 2, cd_hot_wallet = Some (AccountId 3), cd_asset = btc,
        cd_amount = AtomicAmount 100, cd_correlation_id = CorrelationId 4,
        cd_causation_id = CausationId 5\<rparr> = Inr e
     \<and> account_delta (AccountId 2, btc) (je_postings e) = 0
     \<and> account_delta (AccountId 1, btc) (je_postings e) = 100
     \<and> account_delta (AccountId 3, btc) (je_postings e) = -100"
  using deposit_entry [of "\<lparr>cd_idempotency_key = IdempotencyKey ''d'', cd_customer_available = AccountId 1,
        cd_deposit_clearing = AccountId 2, cd_hot_wallet = Some (AccountId 3), cd_asset = btc,
        cd_amount = AtomicAmount 100, cd_correlation_id = CorrelationId 4,
        cd_causation_id = CausationId 5\<rparr>" 7 0]
  by (auto simp: deposit_legs_def legs_delta_def)

text \<open>
  Trade settlement.  Between distinct parties and assets, an accepted settlement moves the base
  amount from seller to buyer and the quote amount from buyer to seller, and touches nothing
  else; both assets balance.
\<close>

theorem trade_entry:
  assumes "TradeSettlement_into_entry tx now f = Inr e"
    and "ts_buyer_available f \<noteq> ts_seller_available f" and "ts_base_asset f \<noteq> ts_quote_asset f"
  shows "validate_balanced (je_postings e) = Inr ()
    \<and> account_delta (ts_buyer_available f, ts_base_asset f) (je_postings e) = amt (ts_base_amount f)
    \<and> account_delta (ts_seller_available f, ts_base_asset f) (je_postings e) = - amt (ts_base_amount f)
    \<and> account_delta (ts_seller_available f, ts_quote_asset f) (je_postings e) = amt (ts_quote_amount f)
    \<and> account_delta (ts_buyer_available f, ts_quote_asset f) (je_postings e) = - amt (ts_quote_amount f)
    \<and> (\<forall>i a. i \<notin> {ts_buyer_available f, ts_seller_available f} \<or> a \<notin> {ts_base_asset f, ts_quote_asset f}
         \<longrightarrow> account_delta (i, a) (je_postings e) = 0)"
  unfolding trade.build_delta [OF assms(1)]
  using trade.build_valid [OF assms(1)] assms(2,3) by (auto simp: trade_legs_def legs_delta_def)

definition ex_trade :: TradeSettlement where
  "ex_trade = \<lparr>ts_idempotency_key = IdempotencyKey ''t'', ts_buyer_available = AccountId 1,
     ts_seller_available = AccountId 2, ts_base_asset = btc, ts_base_amount = AtomicAmount 3,
     ts_quote_asset = usd, ts_quote_amount = AtomicAmount 90, ts_correlation_id = CorrelationId 4,
     ts_causation_id = CausationId 5\<rparr>"

theorem trade_entry_witness:
  "\<exists>e. TradeSettlement_into_entry 7 0 ex_trade = Inr e
     \<and> account_delta (AccountId 1, btc) (je_postings e) = 3
     \<and> account_delta (AccountId 1, usd) (je_postings e) = -90"
proof -
  have "0 < amt (leg_amount l)" if "l \<in> set (trade_legs ex_trade)" for l
    using that by (auto simp: trade_legs_def ex_trade_def)
  then obtain e where e: "TradeSettlement_into_entry 7 0 ex_trade = Inr e"
    using trade.build_ok_iff [of 7 0 ex_trade] by blast
  then show ?thesis
    using trade_entry [OF e] by (auto simp: ex_trade_def btc_def usd_def)
qed

text \<open>
  Withdrawal completion leaves clearing flat.  With a clearing account different from the
  customer's and from custody, an accepted completion takes the amount out of the locked
  account, returns it to the hot wallet and nets to zero on the clearing account.
\<close>

theorem completion_entry:
  assumes "WithdrawalCompletion_into_entry tx now f = Inr e"
    and "wc_withdrawal_clearing f \<notin> {wc_customer_locked f, wc_hot_wallet f}"
    and "wc_customer_locked f \<noteq> wc_hot_wallet f"
  shows "validate_balanced (je_postings e) = Inr ()
    \<and> account_delta (wc_withdrawal_clearing f, wc_asset f) (je_postings e) = 0
    \<and> account_delta (wc_customer_locked f, wc_asset f) (je_postings e) = - amt (wc_amount f)
    \<and> account_delta (wc_hot_wallet f, wc_asset f) (je_postings e) = amt (wc_amount f)"
  unfolding completion.build_delta [OF assms(1)]
  using completion.build_valid [OF assms(1)] assms(2,3)
  by (auto simp: completion_legs_def legs_delta_def)

definition ex_completion :: WithdrawalCompletion where
  "ex_completion = \<lparr>wc_idempotency_key = IdempotencyKey ''w'', wc_customer_locked = AccountId 1,
     wc_withdrawal_clearing = AccountId 2, wc_hot_wallet = AccountId 3, wc_asset = usd,
     wc_amount = AtomicAmount 25, wc_correlation_id = CorrelationId 4,
     wc_causation_id = CausationId 5\<rparr>"

theorem completion_entry_witness:
  "\<exists>e. WithdrawalCompletion_into_entry 7 0 ex_completion = Inr e
     \<and> account_delta (AccountId 2, usd) (je_postings e) = 0
     \<and> account_delta (AccountId 3, usd) (je_postings e) = 25"
proof -
  have "0 < amt (leg_amount l)" if "l \<in> set (completion_legs ex_completion)" for l
    using that by (auto simp: completion_legs_def ex_completion_def)
  then obtain e where e: "WithdrawalCompletion_into_entry 7 0 ex_completion = Inr e"
    using completion.build_ok_iff [of 7 0 ex_completion] by blast
  then show ?thesis
    using completion_entry [OF e] by (auto simp: ex_completion_def)
qed

end
