(* ===== verification/Event.thy ===== *)
theory Event
  imports Flow
begin

text \<open>
  \<open>crates/domain/src/event.rs\<close>: event payloads, the versioned envelope, and the schema guard of
  its decoder.  The JSON codec of \<open>serde_json\<close> is a pair of arguments.
\<close>

datatype EventId = EventId (event_uuid: uuid)

datatype LedgerEventPayload =
    AccountCreatedP AccountId string
  | JournalPosted JournalEntry
  | AdminAdjusted TransactionId AuditMetadata

fun event_type :: "LedgerEventPayload \<Rightarrow> string" where
  "event_type (AccountCreatedP account_id aname) = ''account_created''"
| "event_type (JournalPosted entry) = ''journal_posted''"
| "event_type (AdminAdjusted transaction_id audit) = ''admin_adjusted''"

record LedgerEvent =
  ev_event_id :: EventId
  ev_event_type :: string
  ev_schema_version :: u32
  ev_aggregate_id :: string
  ev_sequence :: "u64 option"
  ev_created_at :: datetime
  ev_correlation_id :: CorrelationId
  ev_causation_id :: CausationId
  ev_trace_context :: string
  ev_payload :: LedgerEventPayload

definition CURRENT_SCHEMA_VERSION :: u32 where
  "CURRENT_SCHEMA_VERSION = 1"

text \<open>\<open>eid\<close> and \<open>now\<close> are the values drawn by \<open>EventId::new()\<close> and \<open>Utc::now()\<close>.\<close>

definition wrap_event ::
    "uuid \<Rightarrow> datetime \<Rightarrow> string \<Rightarrow> u64 option \<Rightarrow> CorrelationId \<Rightarrow> CausationId \<Rightarrow> string
      \<Rightarrow> LedgerEventPayload \<Rightarrow> LedgerEvent" where
  "wrap_event eid now aggregate_id sequence correlation_id causation_id trace_context payload =
     \<lparr>ev_event_id = EventId eid, ev_event_type = event_type payload,
      ev_schema_version = CURRENT_SCHEMA_VERSION, ev_aggregate_id = aggregate_id,
      ev_sequence = sequence, ev_created_at = now, ev_correlation_id = correlation_id,
      ev_causation_id = causation_id, ev_trace_context = trace_context, ev_payload = payload\<rparr>"

definition event_to_bytes :: "(LedgerEvent \<Rightarrow> string + string) \<Rightarrow> LedgerEvent \<Rightarrow> DomainError + string" where
  "event_to_bytes to_vec e = map_err Invariant (to_vec e)"

definition event_from_bytes :: "(string \<Rightarrow> string + LedgerEvent) \<Rightarrow> string \<Rightarrow> DomainError + LedgerEvent" where
  "event_from_bytes from_slice bytes =
     and_then (map_err (\<lambda>e. Invariant (''event decode: '' @ e)) (from_slice bytes)) (\<lambda>event.
       if ev_schema_version event = 0 \<or> ev_schema_version event > CURRENT_SCHEMA_VERSION
       then Inl (Invariant (''unsupported schema version ''
              @ show_nat (unat (ev_schema_version event))))
       else Inr event)"

lemma event_from_bytes_Inr:
  "event_from_bytes from_slice bytes = Inr e \<longleftrightarrow>
     from_slice bytes = Inr e \<and> ev_schema_version e = 1"
proof -
  have "(ev_schema_version e = 0 \<or> 1 < ev_schema_version e) \<longleftrightarrow> ev_schema_version e \<noteq> 1" for e :: LedgerEvent
    by (simp add: word_less_nat_alt word_unat_eq_iff) arith
  then show ?thesis
    by (auto simp: event_from_bytes_def result_simps CURRENT_SCHEMA_VERSION_def)
qed

end
