(* ===== verification/Idempotency.thy ===== *)
theory Idempotency
  imports Event "HOL-Library.Multiset"
begin

text \<open>
  \<open>crates/ledger/src/error.rs\<close> and \<open>idempotency.rs\<close>: the application errors with their
  classification, canonical JSON, request fingerprints and idempotency records.

  The value printer of \<open>serde_json\<close>, its typed codecs and \<open>hex(sha256 _)\<close> are arguments.  So is
  the insertion \<open>ins\<close> of \<open>serde_json::Map\<close>, which is sorted by default and keeps insertion
  order under the feature \<open>preserve_order\<close>: the canonical form is shown not to depend on it.
\<close>

section \<open>Errors\<close>

datatype LedgerError =
    Domain DomainError
  | NotFound string string
  | IdempotencyConflict string string
  | Conflict string
  | Validation string
  | Storage string
  | Unavailable string
  | Serialization string

datatype ErrorCategory =
    CatInvalidArgument | CatNotFound | CatFailedPrecondition | CatAlreadyExists
  | CatUnavailable | CatInternal

fun domain_category :: "DomainError \<Rightarrow> ErrorCategory" where
  "domain_category (InsufficientBalance account_id asset balance delta) = CatFailedPrecondition"
| "domain_category (AccountNotActive account_id status) = CatFailedPrecondition"
| "domain_category (Invariant message) = CatInternal"
| "domain_category _ = CatInvalidArgument"

fun domain_code :: "DomainError \<Rightarrow> string" where
  "domain_code (InvalidIdentifier kind value) = ''invalid_identifier''"
| "domain_code (InvalidIdempotencyKey reason) = ''invalid_idempotency_key''"
| "domain_code (InvalidAssetCode code reason) = ''invalid_asset_code''"
| "domain_code (InvalidAssetScale scale) = ''invalid_asset_scale''"
| "domain_code (InvalidMoneyFormat value) = ''invalid_money_format''"
| "domain_code AmountOverflow = ''amount_overflow''"
| "domain_code (NonPositiveAmount amount) = ''non_positive_amount''"
| "domain_code (AssetMismatch left right) = ''asset_mismatch''"
| "domain_code (InsufficientPostings n) = ''insufficient_postings''"
| "domain_code (UnbalancedEntry asset residual) = ''unbalanced_entry''"
| "domain_code (InsufficientBalance account_id asset balance delta) = ''insufficient_balance''"
| "domain_code (AccountNotActive account_id status) = ''account_not_active''"
| "domain_code MissingAdjustmentReason = ''missing_adjustment_reason''"
| "domain_code (Invariant message) = ''invariant_violated''"

fun category :: "LedgerError \<Rightarrow> ErrorCategory" where
  "category (Domain err) = domain_category err"
| "category (NotFound entity i) = CatNotFound"
| "category (IdempotencyConflict scope key) = CatFailedPrecondition"
| "category (Conflict m) = CatAlreadyExists"
| "category (Validation m) = CatInvalidArgument"
| "category (Unavailable m) = CatUnavailable"
| "category (Storage m) = CatInternal"
| "category (Serialization m) = CatInternal"

fun error_code :: "LedgerError \<Rightarrow> string" where
  "error_code (Domain err) = domain_code err"
| "error_code (NotFound entity i) = ''not_found''"
| "error_code (IdempotencyConflict scope key) = ''idempotency_conflict''"
| "error_code (Conflict m) = ''conflict''"
| "error_code (Validation m) = ''invalid_request''"
| "error_code (Unavailable m) = ''unavailable''"
| "error_code (Storage m) = ''storage_failure''"
| "error_code (Serialization m) = ''serialization_failure''"

fun display_ledger_error :: "LedgerError \<Rightarrow> string" where
  "display_ledger_error (Domain err) = display_domain_error err"
| "display_ledger_error (NotFound entity i) =
     entity @ '' '' @ [CHR 0x27] @ i @ [CHR 0x27] @ '' not found''"
| "display_ledger_error (IdempotencyConflict scope key) =
     ''idempotency key '' @ [CHR 0x27] @ key @ [CHR 0x27] @ '' in scope '' @ [CHR 0x27] @ scope
       @ [CHR 0x27] @ '' was already used with a different request''"
| "display_ledger_error (Conflict m) = ''conflict: '' @ m"
| "display_ledger_error (Validation m) = ''invalid request: '' @ m"
| "display_ledger_error (Storage m) = ''storage failure: '' @ m"
| "display_ledger_error (Unavailable m) = ''dependency unavailable: '' @ m"
| "display_ledger_error (Serialization m) = ''serialization failure: '' @ m"

section \<open>Canonical JSON\<close>

datatype Value =
    JNull
  | JBool bool
  | JNumber string
  | JString string
  | JArray "Value list"
  | JObject "(string \<times> Value) list"

type_synonym json_map = "(string \<times> Value) list"
type_synonym json_insert = "string \<Rightarrow> Value \<Rightarrow> json_map \<Rightarrow> json_map"

function canonicalize :: "json_insert \<Rightarrow> Value \<Rightarrow> Value" where
  "canonicalize ins (JObject entries) =
     (let ordered = sort_key fst entries
      in JObject (fold (\<lambda>(key, item) out. ins key (canonicalize ins item) out) ordered []))"
| "canonicalize ins (JArray items) = JArray (map (canonicalize ins) items)"
| "canonicalize ins JNull = JNull"
| "canonicalize ins (JBool b) = JBool b"
| "canonicalize ins (JNumber n) = JNumber n"
| "canonicalize ins (JString s) = JString s"
  by pat_completeness auto
termination
proof (relation "measure (size \<circ> snd)")
  fix ins :: json_insert and entries :: json_map and x y key item
  assume "x = sort_key fst entries" "y \<in> set x" "(key, item) = y"
  then have "(key, item) \<in> set entries"
    by simp
  then show "((ins, item), ins, JObject entries) \<in> measure (size \<circ> snd)"
    by (induction entries) auto
qed (auto simp: less_Suc_eq_le size_list_estimation')

definition canonical_json :: "json_insert \<Rightarrow> (Value \<Rightarrow> string) \<Rightarrow> Value \<Rightarrow> string" where
  "canonical_json ins print v = print (canonicalize ins v)"

section \<open>Fingerprints and records\<close>

datatype RequestHash = RequestHash (hash_str: string)

text \<open>
  What the fingerprint takes from third-party crates: \<open>serde_json::Map::insert\<close>,
  \<open>Value::to_string\<close> and the composition of \<open>Sha256\<close> with \<open>hex::encode\<close>.
\<close>

record hash_env =
  json_ins :: json_insert
  json_print :: "Value \<Rightarrow> string"
  sha256_hex :: "string \<Rightarrow> string"

text \<open>The bytes fed to the hasher: scope, a zero byte, the canonical text.\<close>

definition hash_input :: "hash_env \<Rightarrow> string \<Rightarrow> Value \<Rightarrow> string" where
  "hash_input h scope v =
     scope @ [CHR 0x00] @ canonical_json (json_ins h) (json_print h) v"

definition RequestHash_compute ::
    "hash_env \<Rightarrow> ('p \<Rightarrow> string + Value) \<Rightarrow> string \<Rightarrow> 'p \<Rightarrow> LedgerError + RequestHash" where
  "RequestHash_compute h to_value scope payload =
     and_then (map_err Serialization (to_value payload)) (\<lambda>v.
       Inr (RequestHash (sha256_hex h (hash_input h scope v))))"

record IdempotencyRecord =
  ir_scope :: string
  ir_key :: IdempotencyKey
  ir_request_hash :: RequestHash
  ir_response :: Value
  ir_created_at :: datetime

definition IdempotencyRecord_new ::
    "datetime \<Rightarrow> ('r \<Rightarrow> string + Value) \<Rightarrow> string \<Rightarrow> IdempotencyKey \<Rightarrow> RequestHash \<Rightarrow> 'r
      \<Rightarrow> LedgerError + IdempotencyRecord" where
  "IdempotencyRecord_new now to_value scope key request_hash response =
     and_then (map_err Serialization (to_value response)) (\<lambda>v.
       Inr \<lparr>ir_scope = scope, ir_key = key, ir_request_hash = request_hash, ir_response = v,
            ir_created_at = now\<rparr>)"

definition replay ::
    "(Value \<Rightarrow> string + 'r) \<Rightarrow> IdempotencyRecord \<Rightarrow> RequestHash \<Rightarrow> LedgerError + 'r" where
  "replay from_value r request_hash =
     (if ir_request_hash r \<noteq> request_hash
      then Inl (IdempotencyConflict (ir_scope r) (key_str (ir_key r)))
      else map_err Serialization (from_value (ir_response r)))"

section \<open>The canonical form\<close>

text \<open>The object keys of a \<open>serde_json\<close> value are distinct at every level.\<close>

inductive json_wf :: "Value \<Rightarrow> bool" where
  wf_null: "json_wf JNull"
| wf_bool: "json_wf (JBool b)"
| wf_number: "json_wf (JNumber n)"
| wf_string: "json_wf (JString s)"
| wf_array: "(\<And>v. v \<in> set vs \<Longrightarrow> json_wf v) \<Longrightarrow> json_wf (JArray vs)"
| wf_object: "distinct (map fst es) \<Longrightarrow> (\<And>k v. (k, v) \<in> set es \<Longrightarrow> json_wf v) \<Longrightarrow> json_wf (JObject es)"

inductive_cases json_wf_ArrayE: "json_wf (JArray vs)"
inductive_cases json_wf_ObjectE: "json_wf (JObject es)"

text \<open>Equality of JSON values up to the order of object keys, at every level.\<close>

inductive json_equiv :: "Value \<Rightarrow> Value \<Rightarrow> bool" where
  eq_refl: "json_equiv v v"
| eq_array: "list_all2 json_equiv vs ws \<Longrightarrow> json_equiv (JArray vs) (JArray ws)"
| eq_object: "list_all2 (\<lambda>e f. fst e = fst f \<and> json_equiv (snd e) (snd f)) es fs
    \<Longrightarrow> mset fs = mset gs \<Longrightarrow> json_equiv (JObject es) (JObject gs)"

text \<open>
  All that canonicalization needs of the map type: inserting a key above all present ones
  appends it to the iteration order.  Both variants of \<open>serde_json::Map\<close> do that.
\<close>

locale ordered_insert =
  fixes ins :: json_insert
  assumes insert_above: "(\<And>k'. k' \<in> fst ` set m \<Longrightarrow> k' < k) \<Longrightarrow> ins k v m = m @ [(k, v)]"
begin

lemma fold_ascending:
  assumes "sorted_wrt (<) (map fst es)" and "\<And>k k'. k \<in> fst ` set m \<Longrightarrow> k' \<in> fst ` set es \<Longrightarrow> k < k'"
  shows "fold (\<lambda>(k, v) out. ins k (f v) out) es m = m @ map (\<lambda>(k, v). (k, f v)) es"
  using assms
proof (induction es arbitrary: m)
  case (Cons e es)
  obtain k v where e: "e = (k, v)"
    by (cases e)
  have "ins k (f v) m = m @ [(k, f v)]"
    using Cons.prems e by (intro insert_above) auto
  moreover have "fold (\<lambda>(k, v) out. ins k (f v) out) es (m @ [(k, f v)])
      = (m @ [(k, f v)]) @ map (\<lambda>(k, v). (k, f v)) es"
    using Cons.prems e by (intro Cons.IH) auto
  ultimately show ?case
    using e by simp
qed simp

lemma canonicalize_object:
  assumes "distinct (map fst es)"
  shows "canonicalize ins (JObject es) =
           JObject (map (\<lambda>(k, v). (k, canonicalize ins v)) (sort_key fst es))"
proof -
  have "distinct (map fst (sort_key fst es))"
    using assms by (metis distinct_map distinct_sort set_sort)
  then have "sorted_wrt (<) (map fst (sort_key fst es))"
    by (simp add: strict_sorted_iff)
  then show ?thesis
    using fold_ascending [of "sort_key fst es" "[]" "canonicalize ins"] by (simp add: Let_def)
qed

end

interpretation indexed: ordered_insert AList.update
proof
  fix m :: json_map and k v
  assume "\<And>k'. k' \<in> fst ` set m \<Longrightarrow> k' < k"
  then show "AList.update k v m = m @ [(k, v)]"
    by (intro alist_update_fresh) blast
qed

lemma bt_insert_above: "(\<And>k'. k' \<in> fst ` set m \<Longrightarrow> k' < k) \<Longrightarrow> bt_insert k v m = m @ [(k, v)]"
proof (induction k v m rule: bt_insert.induct)
  case (2 k v k' v' m)
  then have "k' < k" "\<not> k < k'" "k \<noteq> k'"
    by (auto dest: less_asym)
  with 2 show ?case
    by simp
qed simp

interpretation sorted_map: ordered_insert bt_insert
  by unfold_locales (rule bt_insert_above)

lemma sort_key_fst_perm:
  fixes es fs :: "(('k :: linorder) \<times> 'v) list"
  assumes "mset es = mset fs" and "distinct (map fst es)"
  shows "sort_key fst es = sort_key fst fs"
proof (rule sort_key_inj_key_eq)
  show "mset es = mset (sort_key fst fs)"
    using assms(1) by simp
  show "inj_on fst (set es)"
    using assms(2) by (simp add: distinct_map)
qed simp

lemma map_snd_insort_key:
  "map (\<lambda>(k, v). (k, f v)) (insort_key fst x xs) =
     insort_key fst (fst x, f (snd x)) (map (\<lambda>(k, v). (k, f v)) xs)"
  by (induction xs) (auto simp: split_beta)

lemma map_snd_sort_key:
  "map (\<lambda>(k, v). (k, f v)) (sort_key fst xs) = sort_key fst (map (\<lambda>(k, v). (k, f v)) xs)"
  by (induction xs) (simp_all add: map_snd_insort_key [unfolded split_beta] split_beta sort_key_def)

lemma canonicalize_equiv:
  assumes ins: "ordered_insert ins" and ins': "ordered_insert ins'"
    and "json_equiv v w" and "json_wf v"
  shows "canonicalize ins v = canonicalize ins' w"
  using assms(3,4)
proof (induction rule: json_equiv.induct)
  case (eq_refl v)
  from eq_refl show ?case
  proof (induction rule: json_wf.induct)
    case (wf_object es)
    then show ?case
      using ordered_insert.canonicalize_object [OF ins wf_object(1)]
        ordered_insert.canonicalize_object [OF ins' wf_object(1)] by auto
  qed auto
next
  case (eq_array vs ws)
  then show ?case
    by (auto elim!: json_wf_ArrayE simp: list_all2_conv_all_nth intro!: nth_equalityI)
next
  case (eq_object es fs gs)
  have fst_eq: "map fst es = map fst fs"
    using eq_object.IH by (auto simp: list_all2_conv_all_nth intro!: nth_equalityI)
  have d: "distinct (map fst es)" and wf: "\<And>k v. (k, v) \<in> set es \<Longrightarrow> json_wf v"
    using eq_object.prems by (auto elim: json_wf_ObjectE)
  have d': "distinct (map fst gs)"
    using d fst_eq eq_object.hyps by (metis mset_map mset_eq_imp_distinct_iff)
  have push: "map (\<lambda>(k, v). (k, f v)) (sort_key fst xs) = sort_key fst (map (\<lambda>(k, v). (k, f v)) xs)"
    for f :: "Value \<Rightarrow> Value" and xs :: json_map
    by (rule map_snd_sort_key)
  have "map (\<lambda>(k, v). (k, canonicalize ins v)) es = map (\<lambda>(k, v). (k, canonicalize ins' v)) fs"
    using eq_object.IH wf
    by (auto simp: list_all2_conv_all_nth split_beta intro!: nth_equalityI)
      (metis nth_mem prod.collapse)
  moreover have "sort_key fst fs = sort_key fst gs"
    using eq_object.hyps d fst_eq by (intro sort_key_fst_perm) auto
  ultimately show ?case
    using d d' by (simp add: ordered_insert.canonicalize_object [OF ins]
        ordered_insert.canonicalize_object [OF ins'] push del: canonicalize.simps)
      (metis push)
qed

lemmas ordered_inserts = indexed.ordered_insert_axioms sorted_map.ordered_insert_axioms

text \<open>
  C39. Fingerprints do not depend on key order.  Two well-formed JSON values that agree up to the
  order of object keys have the same canonical form, whichever of the two map types the values
  are rebuilt with, so enabling \<open>preserve_order\<close> cannot change a stored fingerprint.
\<close>

theorem canonical_form_key_order:
  assumes "json_wf v" and "json_equiv v w"
    and "ins \<in> {AList.update, bt_insert}" and "ins' \<in> {AList.update, bt_insert}"
  shows "canonical_json ins print v = canonical_json ins' print w"
proof -
  have "ordered_insert ins" "ordered_insert ins'"
    using assms(3,4) ordered_inserts by auto
  then have "canonicalize ins v = canonicalize ins' w"
    using assms(1,2) by (intro canonicalize_equiv)
  then show ?thesis
    by (simp add: canonical_json_def)
qed

theorem canonical_form_key_order_witness:
  "canonical_json AList.update (\<lambda>v. if v = JObject [(''a'', JNull), (''b'', JBool True)] then ''1'' else ''0'')
     (JObject [(''b'', JBool True), (''a'', JNull)])
   = canonical_json bt_insert (\<lambda>v. if v = JObject [(''a'', JNull), (''b'', JBool True)] then ''1'' else ''0'')
     (JObject [(''a'', JNull), (''b'', JBool True)])"
proof (rule canonical_form_key_order)
  show "json_wf (JObject [(''b'', JBool True), (''a'', JNull)])"
    by (rule wf_object) (auto intro: json_wf.intros)
  show "json_equiv (JObject [(''b'', JBool True), (''a'', JNull)])
          (JObject [(''a'', JNull), (''b'', JBool True)])"
    by (rule eq_object [where fs = "[(''b'', JBool True), (''a'', JNull)]"]) (auto intro: eq_refl)
qed simp_all

lemma separator_split:
  "c \<notin> set s \<Longrightarrow> c \<notin> set s' \<Longrightarrow> s @ [c] @ x = s' @ [c] @ x' \<longleftrightarrow> s = s' \<and> x = x'"
  by (induction s s' rule: list_induct2') auto

text \<open>
  The zero byte separates scope and payload: for scopes without a zero byte, as all command
  scopes are, equal hash inputs come from equal scopes and equal canonical texts, so a payload
  can never be mistaken for part of a scope.
\<close>

theorem scope_separator:
  assumes "CHR 0x00 \<notin> set scope" and "CHR 0x00 \<notin> set scope'"
    and "hash_input h scope v = hash_input h scope' w"
  shows "scope = scope' \<and> canonical_json (json_ins h) (json_print h) v
           = canonical_json (json_ins h) (json_print h) w"
  using assms(3) unfolding hash_input_def separator_split [OF assms(1,2)] .

theorem scope_separator_witness:
  "''ab'' = ''ab'' \<and> canonical_json bt_insert (\<lambda>_. ''c'') (JBool True)
     = canonical_json bt_insert (\<lambda>_. ''c'') JNull"
  using scope_separator [of "''ab''" "''ab''"
      "\<lparr>json_ins = bt_insert, json_print = (\<lambda>_. ''c''), sha256_hex = id\<rparr>" "JBool True" JNull]
  by (simp add: hash_input_def canonical_json_def)

lemma replay_new:
  assumes "IdempotencyRecord_new now to_value scope key h r = Inr rec"
    and "\<And>v. to_value r = Inr v \<Longrightarrow> from_value v = Inr r"
  shows "replay from_value rec h = Inr r"
    and "h' \<noteq> h \<Longrightarrow> replay from_value rec h' = Inl (IdempotencyConflict scope (key_str key))"
  using assms by (auto simp: IdempotencyRecord_new_def replay_def result_simps)

end
