(* ===== verification/Ports.thy ===== *)
theory Ports
  imports Idempotency
begin

text \<open>
  \<open>crates/ledger/src/port.rs\<close>: the data exchanged with the storage ports (commits, pages,
  balance records, outbox messages, consumer progress).
\<close>

datatype CommitOutcome = Committed | DuplicateIdempotencyKey

record Page =
  pg_limit :: u32
  pg_offset :: u64

definition MAX_LIMIT :: u32 where
  "MAX_LIMIT = 500"

definition DEFAULT_LIMIT :: u32 where
  "DEFAULT_LIMIT = 50"

definition Page_new :: "u32 \<Rightarrow> u64 \<Rightarrow> Page" where
  "Page_new limit offset =
     (let limit = (if limit = 0 then DEFAULT_LIMIT else min limit MAX_LIMIT)
      in \<lparr>pg_limit = limit, pg_offset = offset\<rparr>)"

definition limit_i64 :: "Page \<Rightarrow> i64" where
  "limit_i64 p = ucast (pg_limit p)"

definition offset_i64 :: "Page \<Rightarrow> i64" where
  "offset_i64 p =
     (if uint (pg_offset p) < 2 ^ 63 then pg_offset p else word_of_int (2 ^ 63 - 1))"

definition Page_default :: Page where
  "Page_default = Page_new DEFAULT_LIMIT 0"

text \<open>\<open>iter.skip(offset).take(limit)\<close> on a 64-bit target.\<close>

definition page_slice :: "Page \<Rightarrow> 'a list \<Rightarrow> 'a list" where
  "page_slice page xs = take (unat (pg_limit page)) (drop (unat (pg_offset page)) xs)"

record AccountCommit =
  ac_account :: Account
  ac_events :: "LedgerEvent list"
  ac_idempotency :: IdempotencyRecord

record JournalCommit =
  jc_entry :: JournalEntry
  jc_events :: "LedgerEvent list"
  jc_idempotency :: IdempotencyRecord

record BalanceRecord =
  br_account_id :: AccountId
  br_asset :: AssetCode
  br_amount :: AtomicAmount
  br_updated_at :: datetime

record OutboxMessage =
  om_id :: i64
  om_topic :: string
  om_partition_key :: string
  om_event :: LedgerEvent
  om_attempts :: i32
  om_created_at :: datetime
  om_published_at :: "datetime option"
  om_last_error :: "string option"

definition om_event_id :: "OutboxMessage \<Rightarrow> EventId" where
  "om_event_id m = ev_event_id (om_event m)"

record OutboxStats =
  os_pending :: i64
  os_published :: i64
  os_in_flight :: i64
  os_retrying :: i64
  os_oldest_pending_age_seconds :: "i64 option"

definition OutboxStats_default :: OutboxStats where
  "OutboxStats_default =
     \<lparr>os_pending = 0, os_published = 0, os_in_flight = 0, os_retrying = 0,
      os_oldest_pending_age_seconds = None\<rparr>"

record ConsumerOffset =
  co_topic :: string
  co_partition :: i32
  co_offset :: i64
  co_updated_at :: datetime

record ConsumerStatus =
  cs_consumer :: string
  cs_processed_events :: i64
  cs_last_processed_at :: "datetime option"
  cs_offsets :: "ConsumerOffset list"

lemma page_limit_bounds:
  "1 \<le> unat (pg_limit (Page_new l off)) \<and> unat (pg_limit (Page_new l off)) \<le> 500"
  by (auto simp: Page_new_def DEFAULT_LIMIT_def MAX_LIMIT_def min_def word_le_nat_alt
      unat_gt_0 Suc_le_eq)

lemma offset_i64_saturates:
  "sint (offset_i64 p) = min (int (unat (pg_offset p))) (2 ^ 63 - 1)"
proof (cases "uint (pg_offset p) < 2 ^ 63")
  case True
  then have "sint (pg_offset p) = uint (pg_offset p)"
    by (simp only: sint_uint)
      (rule signed_take_bit_int_eq_self, rule order_trans [OF _ uint_ge_0], simp_all)
  with True show ?thesis
    by (simp add: offset_i64_def uint_nat [symmetric])
next
  case False
  then show ?thesis
    by (simp add: offset_i64_def uint_nat [symmetric])
qed

lemma page_slice_length: "length (page_slice (Page_new l off) xs) \<le> 500"
  using page_limit_bounds [of l off] by (auto simp: page_slice_def min_def)

lemma page_slice_set: "set (page_slice p xs) \<subseteq> set xs"
  by (auto simp: page_slice_def dest: in_set_takeD in_set_dropD)

end
