(* ===== verification/Command.thy ===== *)
theory Command
  imports Ports
begin

text \<open>
  \<open>crates/ledger/src/command.rs\<close>: the nine commands, their scopes and their fingerprints.  The
  derived \<open>Serialize\<close> of a command is an argument; what the code relies on is that
  \<open>#[serde(skip_serializing)]\<close> keeps the per-attempt metadata out of it.
\<close>

record CommandMeta =
  cm_idempotency_key :: IdempotencyKey
  cm_correlation_id :: CorrelationId
  cm_causation_id :: CausationId

text \<open>\<open>co\<close> and \<open>ca\<close> are the identifiers drawn when the caller has none.\<close>

definition CommandMeta_new ::
    "uuid \<Rightarrow> uuid \<Rightarrow> IdempotencyKey \<Rightarrow> CorrelationId option \<Rightarrow> CausationId option \<Rightarrow> CommandMeta" where
  "CommandMeta_new co ca key correlation_id causation_id =
     \<lparr>cm_idempotency_key = key,
      cm_correlation_id = (case correlation_id of None \<Rightarrow> CorrelationId co | Some c \<Rightarrow> c),
      cm_causation_id = (case causation_id of None \<Rightarrow> CausationId ca | Some c \<Rightarrow> c)\<rparr>"

definition CommandMeta_from_key :: "uuid \<Rightarrow> uuid \<Rightarrow> string \<Rightarrow> DomainError + CommandMeta" where
  "CommandMeta_from_key co ca key =
     and_then (IdempotencyKey_new key) (\<lambda>k. Inr (CommandMeta_new co ca k None None))"

record AuditRequest =
  ar_actor :: string
  ar_reason :: string
  ar_ticket_id :: "string option"

definition into_metadata :: "datetime \<Rightarrow> AuditRequest \<Rightarrow> DomainError + AuditMetadata" where
  "into_metadata now r = AuditMetadata_new now (ar_actor r) (ar_reason r) (ar_ticket_id r)"

record PostingInput =
  pi_account_id :: AccountId
  pi_asset :: AssetCode
  pi_amount :: AtomicAmount

record CreateAccountCommand =
  ca_meta :: CommandMeta
  ca_name :: string
  ca_kind :: AccountKind
  ca_policy :: AccountPolicy

record SubmitJournalCommand =
  sj_meta :: CommandMeta
  sj_description :: string
  sj_postings :: "PostingInput list"

record RecordDepositCommand =
  rd_meta :: CommandMeta
  rd_customer_available :: AccountId
  rd_deposit_clearing :: AccountId
  rd_hot_wallet :: "AccountId option"
  rd_asset :: AssetCode
  rd_amount :: AtomicAmount
  rd_external_reference :: "string option"

record RequestWithdrawalCommand =
  rw_meta :: CommandMeta
  rw_customer_available :: AccountId
  rw_customer_locked :: AccountId
  rw_asset :: AssetCode
  rw_amount :: AtomicAmount
  rw_destination_reference :: "string option"

record CompleteWithdrawalCommand =
  cw_meta :: CommandMeta
  cw_customer_locked :: AccountId
  cw_withdrawal_clearing :: AccountId
  cw_hot_wallet :: AccountId
  cw_asset :: AssetCode
  cw_amount :: AtomicAmount
  cw_settlement_reference :: "string option"

record RejectWithdrawalCommand =
  jw_meta :: CommandMeta
  jw_customer_locked :: AccountId
  jw_customer_available :: AccountId
  jw_asset :: AssetCode
  jw_amount :: AtomicAmount
  jw_reason :: string

record RecordTradeSettlementCommand =
  rt_meta :: CommandMeta
  rt_buyer_available :: AccountId
  rt_seller_available :: AccountId
  rt_base_asset :: AssetCode
  rt_base_amount :: AtomicAmount
  rt_quote_asset :: AssetCode
  rt_quote_amount :: AtomicAmount
  rt_trade_reference :: "string option"

record RecordTradingFeeCommand =
  rf_meta :: CommandMeta
  rf_customer_available :: AccountId
  rf_fee_revenue :: AccountId
  rf_asset :: AssetCode
  rf_amount :: AtomicAmount

record RecordAdminAdjustmentCommand =
  ra_meta :: CommandMeta
  ra_from :: AccountId
  ra_to :: AccountId
  ra_asset :: AssetCode
  ra_amount :: AtomicAmount
  ra_audit :: AuditRequest

text \<open>The implementors of the trait \<open>Command\<close>.\<close>

datatype Command =
    CreateAccount CreateAccountCommand
  | SubmitJournal SubmitJournalCommand
  | RecordDeposit RecordDepositCommand
  | RequestWithdrawal RequestWithdrawalCommand
  | CompleteWithdrawal CompleteWithdrawalCommand
  | RejectWithdrawal RejectWithdrawalCommand
  | RecordTradeSettlement RecordTradeSettlementCommand
  | RecordTradingFee RecordTradingFeeCommand
  | RecordAdminAdjustment RecordAdminAdjustmentCommand

fun command_scope :: "Command \<Rightarrow> string" where
  "command_scope (CreateAccount c) = ''create_account''"
| "command_scope (SubmitJournal c) = ''submit_journal_entry''"
| "command_scope (RecordDeposit c) = ''record_deposit''"
| "command_scope (RequestWithdrawal c) = ''request_withdrawal''"
| "command_scope (CompleteWithdrawal c) = ''complete_withdrawal''"
| "command_scope (RejectWithdrawal c) = ''reject_withdrawal''"
| "command_scope (RecordTradeSettlement c) = ''record_trade_settlement''"
| "command_scope (RecordTradingFee c) = ''record_trading_fee''"
| "command_scope (RecordAdminAdjustment c) = ''record_admin_adjustment''"

fun command_meta :: "Command \<Rightarrow> CommandMeta" where
  "command_meta (CreateAccount c) = ca_meta c"
| "command_meta (SubmitJournal c) = sj_meta c"
| "command_meta (RecordDeposit c) = rd_meta c"
| "command_meta (RequestWithdrawal c) = rw_meta c"
| "command_meta (CompleteWithdrawal c) = cw_meta c"
| "command_meta (RejectWithdrawal c) = jw_meta c"
| "command_meta (RecordTradeSettlement c) = rt_meta c"
| "command_meta (RecordTradingFee c) = rf_meta c"
| "command_meta (RecordAdminAdjustment c) = ra_meta c"

definition fingerprint ::
    "hash_env \<Rightarrow> (Command \<Rightarrow> string + Value) \<Rightarrow> Command \<Rightarrow> LedgerError + RequestHash" where
  "fingerprint h to_value c = RequestHash_compute h to_value (command_scope c) c"

text \<open>The same business request issued with other metadata, as a retry does.\<close>

fun with_meta :: "CommandMeta \<Rightarrow> Command \<Rightarrow> Command" where
  "with_meta m (CreateAccount c) = CreateAccount (c\<lparr>ca_meta := m\<rparr>)"
| "with_meta m (SubmitJournal c) = SubmitJournal (c\<lparr>sj_meta := m\<rparr>)"
| "with_meta m (RecordDeposit c) = RecordDeposit (c\<lparr>rd_meta := m\<rparr>)"
| "with_meta m (RequestWithdrawal c) = RequestWithdrawal (c\<lparr>rw_meta := m\<rparr>)"
| "with_meta m (CompleteWithdrawal c) = CompleteWithdrawal (c\<lparr>cw_meta := m\<rparr>)"
| "with_meta m (RejectWithdrawal c) = RejectWithdrawal (c\<lparr>jw_meta := m\<rparr>)"
| "with_meta m (RecordTradeSettlement c) = RecordTradeSettlement (c\<lparr>rt_meta := m\<rparr>)"
| "with_meta m (RecordTradingFee c) = RecordTradingFee (c\<lparr>rf_meta := m\<rparr>)"
| "with_meta m (RecordAdminAdjustment c) = RecordAdminAdjustment (c\<lparr>ra_meta := m\<rparr>)"

lemma command_meta_with_meta [simp]: "command_meta (with_meta m c) = m"
  by (cases c) auto

lemma command_scope_with_meta [simp]: "command_scope (with_meta m c) = command_scope c"
  by (cases c) auto

definition skips_meta :: "(Command \<Rightarrow> string + Value) \<Rightarrow> bool" where
  "skips_meta to_value \<longleftrightarrow> (\<forall>m c. to_value (with_meta m c) = to_value c)"

lemma fingerprint_with_meta:
  "skips_meta to_value \<Longrightarrow> fingerprint h to_value (with_meta m c) = fingerprint h to_value c"
  by (simp add: fingerprint_def RequestHash_compute_def skips_meta_def)

lemma command_scope_no_zero: "CHR 0x00 \<notin> set (command_scope c)"
  by (cases c) auto

end
