(* ===== verification/Memory.thy ===== *)
theory Memory
  imports Command
begin

text \<open>
  \<open>crates/ledger/src/memory.rs\<close>: the in-memory implementation of every storage port.  Each port
  call takes the lock of the shared state once, so it is one atomic function on \<open>State\<close>.  A
  \<open>HashMap\<close> is an association list with distinct keys in its iteration order.

  \<open>uuid_show\<close> prints identifiers in errors; \<open>now\<close> is the value of \<open>Utc::now()\<close> in that call.
\<close>

definition DEFAULT_TOPIC :: string where
  "DEFAULT_TOPIC = ''ledger.events''"

record OutboxRow =
  row_message :: OutboxMessage
  row_leased_until :: "datetime option"

type_synonym balance_key = "uuid \<times> AssetCode"

record State =
  accounts :: "(uuid \<times> Account) list"
  entries :: "JournalEntry list"
  balances :: "(balance_key \<times> BalanceRecord) list"
  idempotency :: "((string \<times> string) \<times> IdempotencyRecord) list"
  outbox :: "OutboxRow list"
  next_outbox_id :: i64

definition State_default :: State where
  "State_default =
     \<lparr>accounts = [], entries = [], balances = [], idempotency = [], outbox = [], next_outbox_id = 0\<rparr>"

section \<open>State updates\<close>

definition outbox_row :: "i64 \<Rightarrow> LedgerEvent \<Rightarrow> OutboxRow" where
  "outbox_row i event =
     \<lparr>row_message =
        \<lparr>om_id = i, om_topic = DEFAULT_TOPIC, om_partition_key = ev_aggregate_id event,
         om_event = event, om_attempts = 0, om_created_at = ev_created_at event,
         om_published_at = None, om_last_error = None\<rparr>,
      row_leased_until = None\<rparr>"

fun record_events :: "LedgerEvent list \<Rightarrow> State \<Rightarrow> State" where
  "record_events [] st = st"
| "record_events (event # events) st =
     (if list_ex (\<lambda>row. ev_event_id (om_event (row_message row)) = ev_event_id event) (outbox st)
      then record_events events st
      else let next_id = next_outbox_id st + 1
           in record_events events
                (st\<lparr>next_outbox_id := next_id, outbox := outbox st @ [outbox_row next_id event]\<rparr>))"

definition record_key :: "IdempotencyRecord \<Rightarrow> string \<times> string" where
  "record_key r = (ir_scope r, key_str (ir_key r))"

definition insert_idempotency :: "IdempotencyRecord \<Rightarrow> State \<Rightarrow> CommitOutcome \<times> State" where
  "insert_idempotency r st =
     (if map_of (idempotency st) (record_key r) \<noteq> None then (DuplicateIdempotencyKey, st)
      else (Committed, st\<lparr>idempotency := AList.update (record_key r) r (idempotency st)\<rparr>))"

text \<open>
  One iteration of the loop of \<open>apply_postings\<close>.  \<open>entry(..).or_insert_with(..)\<close> leaves a zero
  record behind even when the addition or the policy check then fails.
\<close>

definition balance_entry :: "datetime \<Rightarrow> Posting \<Rightarrow> State \<Rightarrow> BalanceRecord" where
  "balance_entry now posting st =
     (case map_of (balances st) (account_uuid (p_account_id posting), p_asset posting) of
        Some r \<Rightarrow> r
      | None \<Rightarrow> \<lparr>br_account_id = p_account_id posting, br_asset = p_asset posting,
                 br_amount = ZERO, br_updated_at = now\<rparr>)"

definition apply_posting ::
    "(uuid \<Rightarrow> string) \<Rightarrow> datetime \<Rightarrow> Posting \<Rightarrow> State \<Rightarrow> (LedgerError + unit) \<times> State" where
  "apply_posting uuid_show now posting st =
     (let uid = account_uuid (p_account_id posting);
          bkey = (uid, p_asset posting)
      in case map_of (accounts st) uid of
           None \<Rightarrow> (Inl (NotFound ''account'' (AccountId_display uuid_show (p_account_id posting))), st)
         | Some account \<Rightarrow>
             if \<not> is_active account
             then (Inl (Domain (AccountNotActive (AccountId_display uuid_show (acc_id account))
                      (status_as_str (acc_status account)))), st)
             else
               let r = balance_entry now posting st;
                   st1 = st\<lparr>balances := AList.update bkey r (balances st)\<rparr>
               in case checked_add (br_amount r) (p_amount posting) of
                    Inl e \<Rightarrow> (Inl (Domain e), st1)
                  | Inr updated \<Rightarrow>
                      if is_negative updated \<and> acc_policy account = NonNegative
                      then (Inl (Domain (InsufficientBalance
                               (AccountId_display uuid_show (acc_id account))
                               (code_str (p_asset posting)) (raw (br_amount r))
                               (raw (p_amount posting)))), st1)
                      else (Inr (), st1\<lparr>balances := AList.update bkey
                               (r\<lparr>br_amount := updated, br_updated_at := now\<rparr>) (balances st1)\<rparr>))"

definition apply_postings ::
    "(uuid \<Rightarrow> string) \<Rightarrow> datetime \<Rightarrow> JournalEntry \<Rightarrow> State \<Rightarrow> (LedgerError + unit) \<times> State" where
  "apply_postings uuid_show now entry st =
     mut_fold (apply_posting uuid_show now) (je_postings entry) st"

section \<open>Ports\<close>

definition seed_account :: "Account \<Rightarrow> State \<Rightarrow> State" where
  "seed_account account st =
     st\<lparr>accounts := AList.update (account_uuid (acc_id account)) account (accounts st)\<rparr>"

definition balance_of :: "State \<Rightarrow> AccountId \<Rightarrow> AssetCode \<Rightarrow> AtomicAmount" where
  "balance_of st account_id asset =
     (case map_of (balances st) (account_uuid account_id, asset) of
        None \<Rightarrow> ZERO
      | Some r \<Rightarrow> br_amount r)"

definition entry_count :: "State \<Rightarrow> nat" where
  "entry_count st = length (entries st)"

definition journal_entries :: "State \<Rightarrow> JournalEntry list" where
  "journal_entries st = entries st"

definition events :: "State \<Rightarrow> LedgerEvent list" where
  "events st = map (\<lambda>row. om_event (row_message row)) (outbox st)"

definition create :: "AccountCommit \<Rightarrow> State \<Rightarrow> (LedgerError + CommitOutcome) \<times> State" where
  "create c st =
     (let (outcome, st1) = insert_idempotency (ac_idempotency c) st
      in if outcome = DuplicateIdempotencyKey then (Inr DuplicateIdempotencyKey, st1)
         else if list_ex (\<lambda>(_, account). acc_name account = acc_name (ac_account c)) (accounts st1)
         then (Inl (Conflict (''account name '' @ [CHR 0x27] @ acc_name (ac_account c)
                 @ [CHR 0x27] @ '' is already taken'')), st1)
         else (Inr Committed, record_events (ac_events c) (seed_account (ac_account c) st1)))"

definition find_account :: "AccountId \<Rightarrow> State \<Rightarrow> Account option" where
  "find_account account_id st = map_of (accounts st) (account_uuid account_id)"

definition find_by_name :: "string \<Rightarrow> State \<Rightarrow> Account option" where
  "find_by_name aname st = find (\<lambda>account. acc_name account = aname) (map snd (accounts st))"

definition load_many :: "AccountId list \<Rightarrow> State \<Rightarrow> Account list" where
  "load_many ids st = List.map_filter (\<lambda>i. find_account i st) ids"

definition list_accounts :: "Page \<Rightarrow> State \<Rightarrow> Account list" where
  "list_accounts page st = page_slice page (sort_key acc_name (map snd (accounts st)))"

definition commit ::
    "(uuid \<Rightarrow> string) \<Rightarrow> datetime \<Rightarrow> JournalCommit \<Rightarrow> State \<Rightarrow> (LedgerError + CommitOutcome) \<times> State" where
  "commit uuid_show now c st =
     (let (outcome, st1) = insert_idempotency (jc_idempotency c) st
      in if outcome = DuplicateIdempotencyKey then (Inr DuplicateIdempotencyKey, st1)
         else
           let snapshot = balances st1
           in case apply_postings uuid_show now (jc_entry c) st1 of
                (Inl err, st2) \<Rightarrow>
                  (Inl err, st2\<lparr>balances := snapshot,
                      idempotency := AList.delete (record_key (jc_idempotency c)) (idempotency st2)\<rparr>)
              | (Inr _, st2) \<Rightarrow>
                  (Inr Committed,
                   record_events (jc_events c) (st2\<lparr>entries := entries st2 @ [jc_entry c]\<rparr>)))"

definition find_entry :: "TransactionId \<Rightarrow> State \<Rightarrow> JournalEntry option" where
  "find_entry tid st = find (\<lambda>entry. je_id entry = tid) (entries st)"

definition list_account_entries :: "AccountId \<Rightarrow> Page \<Rightarrow> State \<Rightarrow> JournalEntry list" where
  "list_account_entries account_id page st =
     page_slice page
       (filter (\<lambda>entry. list_ex (\<lambda>posting. p_account_id posting = account_id) (je_postings entry))
         (rev (entries st)))"

definition find_idempotency :: "string \<Rightarrow> IdempotencyKey \<Rightarrow> State \<Rightarrow> IdempotencyRecord option" where
  "find_idempotency scope key st = map_of (idempotency st) (scope, key_str key)"

definition purge_created_before :: "datetime \<Rightarrow> State \<Rightarrow> u64 \<times> State" where
  "purge_created_before cutoff st =
     (let kept = filter (\<lambda>(_, r). ir_created_at r \<ge> cutoff) (idempotency st)
      in (of_nat (length (idempotency st) - length kept), st\<lparr>idempotency := kept\<rparr>))"

text \<open>
  \<open>claim\<close> walks the rows with the number of messages claimed so far.  The conversion
  \<open>chrono::Duration::from_std\<close>, with its error text, is the argument \<open>from_std\<close>.
\<close>

definition claimable :: "datetime \<Rightarrow> OutboxRow \<Rightarrow> bool" where
  "claimable now row \<longleftrightarrow>
     om_published_at (row_message row) = None
     \<and> \<not> (case row_leased_until row of None \<Rightarrow> False | Some until \<Rightarrow> until > now)"

fun claim_rows ::
    "datetime \<Rightarrow> datetime \<Rightarrow> nat \<Rightarrow> OutboxRow list \<Rightarrow> OutboxMessage list \<times> OutboxRow list" where
  "claim_rows now lease_until budget [] = ([], [])"
| "claim_rows now lease_until budget (row # rows) =
     (if budget = 0 then ([], row # rows)
      else if \<not> claimable now row
      then let (claimed, rows') = claim_rows now lease_until budget rows
           in (claimed, row # rows')
      else let (claimed, rows') = claim_rows now lease_until (budget - 1) rows
           in (row_message row # claimed, row\<lparr>row_leased_until := Some lease_until\<rparr> # rows'))"

definition claim ::
    "('d \<Rightarrow> string + int) \<Rightarrow> datetime \<Rightarrow> u32 \<Rightarrow> 'd \<Rightarrow> State
      \<Rightarrow> (LedgerError + OutboxMessage list) \<times> State" where
  "claim from_std now limit lease st =
     (case from_std lease of
        Inl err \<Rightarrow> (Inl (Validation err), st)
      | Inr d \<Rightarrow>
          let (claimed, rows) = claim_rows now (now + d) (unat limit) (outbox st)
          in (Inr claimed, st\<lparr>outbox := rows\<rparr>))"

definition publishes :: "i64 list \<Rightarrow> OutboxRow \<Rightarrow> bool" where
  "publishes ids row \<longleftrightarrow>
     om_id (row_message row) \<in> set ids \<and> om_published_at (row_message row) = None"

definition publish_row :: "datetime \<Rightarrow> OutboxRow \<Rightarrow> OutboxRow" where
  "publish_row now row =
     \<lparr>row_message = (row_message row)\<lparr>om_published_at := Some now\<rparr>, row_leased_until = None\<rparr>"

definition mark_published :: "datetime \<Rightarrow> i64 list \<Rightarrow> State \<Rightarrow> u64 \<times> State" where
  "mark_published now ids st =
     (of_nat (length (filter (publishes ids) (outbox st))),
      st\<lparr>outbox := map (\<lambda>row. if publishes ids row then publish_row now row else row) (outbox st)\<rparr>)"

fun fail_first :: "i64 \<Rightarrow> string \<Rightarrow> OutboxRow list \<Rightarrow> OutboxRow list" where
  "fail_first i err [] = []"
| "fail_first i err (row # rows) =
     (if om_id (row_message row) = i
      then \<lparr>row_message = (row_message row)\<lparr>om_attempts := om_attempts (row_message row) + 1,
              om_last_error := Some err\<rparr>, row_leased_until = None\<rparr> # rows
      else row # fail_first i err rows)"

definition mark_failed :: "i64 \<Rightarrow> string \<Rightarrow> State \<Rightarrow> State" where
  "mark_failed i err st = st\<lparr>outbox := fail_first i err (outbox st)\<rparr>"

definition stats_row ::
    "datetime \<Rightarrow> OutboxRow \<Rightarrow> OutboxStats \<times> datetime option \<Rightarrow> OutboxStats \<times> datetime option" where
  "stats_row now row acc =
     (let (stats, oldest) = acc
      in if om_published_at (row_message row) \<noteq> None
         then (stats\<lparr>os_published := os_published stats + 1\<rparr>, oldest)
         else
           let stats = stats\<lparr>os_pending := os_pending stats + 1\<rparr>;
               stats = (if sint (om_attempts (row_message row)) > 0
                        then stats\<lparr>os_retrying := os_retrying stats + 1\<rparr> else stats);
               stats = (if (case row_leased_until row of None \<Rightarrow> False | Some until \<Rightarrow> until > now)
                        then stats\<lparr>os_in_flight := os_in_flight stats + 1\<rparr> else stats)
           in (stats, Some (case oldest of
                 Some current \<Rightarrow> min current (om_created_at (row_message row))
               | None \<Rightarrow> om_created_at (row_message row))))"

text \<open>\<open>num_seconds\<close> is that of \<open>chrono::TimeDelta\<close>.\<close>

definition outbox_stats :: "(int \<Rightarrow> i64) \<Rightarrow> datetime \<Rightarrow> State \<Rightarrow> OutboxStats" where
  "outbox_stats num_seconds now st =
     (let (stats, oldest) = fold (stats_row now) (outbox st) (OutboxStats_default, None)
      in stats\<lparr>os_oldest_pending_age_seconds :=
           map_option (\<lambda>created. let s = num_seconds (now - created)
                                 in if sint s < 0 then 0 else s) oldest\<rparr>)"

definition pending :: "Page \<Rightarrow> State \<Rightarrow> OutboxMessage list" where
  "pending page st =
     map row_message (page_slice page
       (filter (\<lambda>row. om_published_at (row_message row) = None) (outbox st)))"

definition get_balance :: "AccountId \<Rightarrow> AssetCode \<Rightarrow> State \<Rightarrow> BalanceRecord option" where
  "get_balance account_id asset st = map_of (balances st) (account_uuid account_id, asset)"

definition list_for_account :: "AccountId \<Rightarrow> State \<Rightarrow> BalanceRecord list" where
  "list_for_account account_id st =
     sort_key br_asset (filter (\<lambda>r. br_account_id r = account_id) (map snd (balances st)))"

definition snapshot :: "State \<Rightarrow> BalanceRecord list" where
  "snapshot st =
     sort_key (\<lambda>r. (account_uuid (br_account_id r), br_asset r)) (map snd (balances st))"

definition consumer_status :: "State \<Rightarrow> ConsumerStatus list" where
  "consumer_status st = []"

end
