(* ===== verification/Memory_Laws.thy ===== *)
theory Memory_Laws
  imports Memory
begin

text \<open>
  What the operations of the in-memory store do to the state: the frame of each update, the
  exact acceptance condition of a journal commit, its atomicity, and the behaviour of the
  outbox operations.
\<close>

section \<open>Balances\<close>

abbreviation mem_bal :: "State \<Rightarrow> AccountId \<times> AssetCode \<Rightarrow> int" where
  "mem_bal st k \<equiv> amt (balance_of st (fst k) (snd k))"

text \<open>
  The account of a posting admits a new balance: the account exists and is active, the balance
  is representable and not negative where the policy forbids that.
\<close>

definition admits :: "(uuid \<times> Account) list \<Rightarrow> Posting \<Rightarrow> int \<Rightarrow> bool" where
  "admits accts p b \<longleftrightarrow>
     (case map_of accts (account_uuid (p_account_id p)) of
        None \<Rightarrow> False
      | Some account \<Rightarrow>
          is_active account \<and> in_i128 b \<and> (acc_policy account = NonNegative \<longrightarrow> 0 \<le> b))"

text \<open>\<open>keeps_frame\<close>: only the balances may differ.\<close>

definition keeps_frame :: "State \<Rightarrow> State \<Rightarrow> bool" where
  "keeps_frame st st' \<longleftrightarrow> (\<exists>b. st' = st\<lparr>balances := b\<rparr>)"

lemma keeps_frame_refl [simp]: "keeps_frame st st"
  unfolding keeps_frame_def by (rule exI [of _ "balances st"]) simp

lemma keeps_frame_update [simp]: "keeps_frame st (st'\<lparr>balances := b\<rparr>) \<longleftrightarrow> keeps_frame st st'"
  unfolding keeps_frame_def by (metis State.surjective State.update_convs(3) State.unfold_congs(3))

lemma keeps_frame_fields:
  assumes "keeps_frame st st'"
  shows "accounts st' = accounts st" "entries st' = entries st" "idempotency st' = idempotency st"
    "outbox st' = outbox st" "next_outbox_id st' = next_outbox_id st"
  using assms by (auto simp: keeps_frame_def)

lemma apply_posting_frame: "keeps_frame st0 st \<Longrightarrow> keeps_frame st0 (snd (apply_posting sh now p st))"
  by (simp add: apply_posting_def Let_def split: option.splits sum.splits)

lemma apply_postings_frame: "keeps_frame st (snd (apply_postings sh now e st))"
  unfolding apply_postings_def
  by (rule mut_fold_invariant) (simp_all add: apply_posting_frame)

lemma balance_entry_amount: "amt (br_amount (balance_entry now p st)) = mem_bal st (p_key p)"
  by (simp add: balance_entry_def balance_of_def split: option.splits)

lemma account_uuid_eq_iff [simp]: "account_uuid i = account_uuid j \<longleftrightarrow> i = j"
  by (auto intro: AccountId.expand)

lemma apply_posting_ok:
  assumes "pure_step (apply_posting sh now) p st = Inr st'"
  shows "admits (accounts st) p (mem_bal st (p_key p) + p_delta p)"
    and "\<exists>v. amt v = mem_bal st (p_key p) + p_delta p
           \<and> map_of (balances st') = (map_of (balances st))
               ((account_uuid (p_account_id p), p_asset p) \<mapsto>
                  (balance_entry now p st)\<lparr>br_amount := v, br_updated_at := now\<rparr>)"
  using assms
  by (auto simp: pure_step_def apply_posting_def Let_def admits_def amt_simps hm.insert_lookup
      balance_entry_amount split: option.splits sum.splits if_splits)

lemma apply_posting_succeeds:
  "(\<exists>st'. pure_step (apply_posting sh now) p st = Inr st') \<longleftrightarrow>
     admits (accounts st) p (mem_bal st (p_key p) + p_delta p)"
  (is "?L \<longleftrightarrow> ?R")
proof
  show "?L \<Longrightarrow> ?R"
    using apply_posting_ok(1) by blast
next
  assume ?R
  then obtain account where account: "map_of (accounts st) (account_uuid (p_account_id p)) = Some account"
      "is_active account"
    and bound: "in_i128 (mem_bal st (p_key p) + p_delta p)"
      "acc_policy account = NonNegative \<longrightarrow> 0 \<le> mem_bal st (p_key p) + p_delta p"
    by (auto simp: admits_def split: option.splits)
  obtain v where "checked_add (br_amount (balance_entry now p st)) (p_amount p) = Inr v"
      "amt v = mem_bal st (p_key p) + p_delta p"
    by (cases "br_amount (balance_entry now p st)" "p_amount p" rule: checked_add_cases)
      (use bound balance_entry_amount in auto)
  with account bound show ?L
    by (auto simp: pure_step_def apply_posting_def Let_def is_negative_amt)
qed

lemma apply_posting_bal:
  assumes "pure_step (apply_posting sh now) p st = Inr st'"
  shows "mem_bal st' k = mem_bal st k + (if p_key p = k then p_delta p else 0)"
proof -
  obtain v where v: "amt v = mem_bal st (p_key p) + p_delta p"
    and m: "map_of (balances st') = (map_of (balances st))
        ((account_uuid (p_account_id p), p_asset p) \<mapsto>
          (balance_entry now p st)\<lparr>br_amount := v, br_updated_at := now\<rparr>)"
    using apply_posting_ok(2) [OF assms] by blast
  show ?thesis
    by (cases k) (auto simp: balance_of_def [of st'] m v, auto simp: balance_of_def)
qed

lemma pure_step_frame:
  assumes "pure_step (apply_posting sh now) p st = Inr st'"
  shows "keeps_frame st st'"
  using apply_posting_frame [of st st sh now p] assms
  by (auto simp: pure_step_def split: prod.splits sum.splits)

interpretation mem: gated_posting_fold "pure_step (apply_posting sh now)" mem_bal p_key p_delta
  "\<lambda>st. admits (accounts st)" for sh now
  by unfold_locales
    (simp_all add: apply_posting_bal apply_posting_succeeds keeps_frame_fields(1) [OF pure_step_frame])

text \<open>The whole entry: which entries are accepted, and what an accepted one does.\<close>

definition entry_admitted :: "State \<Rightarrow> JournalEntry \<Rightarrow> bool" where
  "entry_admitted st e \<longleftrightarrow>
     running (admits (accounts st)) p_key p_delta (mem_bal st) (je_postings e)"

lemma apply_postings_cases:
  obtains (ok) st' where "apply_postings sh now e st = (Inr (), st')" "entry_admitted st e"
      "keeps_frame st st'" "\<And>k. mem_bal st' k = mem_bal st k + account_delta k (je_postings e)"
    | (rejected) err st' where "apply_postings sh now e st = (Inl err, st')" "\<not> entry_admitted st e"
      "keeps_frame st st'"
proof (cases "apply_postings sh now e st")
  case (Pair r st')
  have frame: "keeps_frame st st'"
    using apply_postings_frame [of st sh now e] Pair by simp
  note gate = mem.fold_gate [of sh now "je_postings e" st, folded entry_admitted_def]
  show ?thesis
  proof (cases r)
    case (Inl err)
    then have "try_fold (pure_step (apply_posting sh now)) (je_postings e) st = Inl err"
      using Pair mut_fold_error [of "apply_posting sh now" "je_postings e" st err]
      by (simp add: apply_postings_def)
    with gate have "\<not> entry_admitted st e"
      by auto
    with rejected show ?thesis
      using Pair Inl frame by simp
  next
    case (Inr u)
    then have run: "try_fold (pure_step (apply_posting sh now)) (je_postings e) st = Inr st'"
      using Pair by (simp add: apply_postings_def mut_fold_ok)
    with gate have "entry_admitted st e"
      by auto
    with ok show ?thesis
      using Pair Inr frame mem.fold_bal [OF run] by simp
  qed
qed

text \<open>Balance records are stored under their own account and asset.\<close>

definition balances_keyed :: "(balance_key \<times> BalanceRecord) list \<Rightarrow> bool" where
  "balances_keyed m \<longleftrightarrow>
     hm_ok m \<and> (\<forall>k r. map_of m k = Some r \<longrightarrow> k = (account_uuid (br_account_id r), br_asset r))"

lemma balances_keyed_update:
  assumes "balances_keyed m" and "k = (account_uuid (br_account_id r), br_asset r)"
  shows "balances_keyed (AList.update k r m)"
  using assms by (auto simp: balances_keyed_def hm.insert_ok hm.lookup_after_insert split: if_splits)

lemma apply_posting_keyed:
  assumes "balances_keyed (balances st)"
  shows "balances_keyed (balances (snd (apply_posting sh now p st)))"
proof -
  have "(account_uuid (p_account_id p), p_asset p)
      = (account_uuid (br_account_id (balance_entry now p st)), br_asset (balance_entry now p st))"
  proof (cases "map_of (balances st) (account_uuid (p_account_id p), p_asset p)")
    case (Some r)
    then have "(account_uuid (p_account_id p), p_asset p) = (account_uuid (br_account_id r), br_asset r)"
      using assms unfolding balances_keyed_def by blast
    with Some show ?thesis
      by (simp add: balance_entry_def)
  qed (simp add: balance_entry_def)
  with assms show ?thesis
    by (auto simp: apply_posting_def Let_def balances_keyed_update split: option.splits sum.splits)
qed

lemma apply_postings_keyed:
  "balances_keyed (balances st) \<Longrightarrow> balances_keyed (balances (snd (apply_postings sh now e st)))"
  unfolding apply_postings_def
  by (rule mut_fold_invariant [where I = "\<lambda>st. balances_keyed (balances st)"])
    (simp_all add: apply_posting_keyed)

section \<open>Events and idempotency records\<close>

lemma record_events_frame:
  "accounts (record_events es st) = accounts st" "entries (record_events es st) = entries st"
  "balances (record_events es st) = balances st" "idempotency (record_events es st) = idempotency st"
  by (induction es st rule: record_events.induct) (auto simp: Let_def)

lemma balance_of_cong: "balances st = balances st' \<Longrightarrow> balance_of st = balance_of st'"
  by (simp add: balance_of_def fun_eq_iff)

lemma insert_idempotency_cases:
  obtains (duplicate) "map_of (idempotency st) (record_key r) \<noteq> None"
      "insert_idempotency r st = (DuplicateIdempotencyKey, st)"
    | (fresh) "map_of (idempotency st) (record_key r) = None"
      "insert_idempotency r st
         = (Committed, st\<lparr>idempotency := idempotency st @ [(record_key r, r)]\<rparr>)"
proof (cases "map_of (idempotency st) (record_key r) = None")
  case True
  then have "AList.update (record_key r) r (idempotency st) = idempotency st @ [(record_key r, r)]"
    by (simp add: alist_update_fresh map_of_eq_None_iff)
  with True fresh show ?thesis
    by (simp add: insert_idempotency_def)
next
  case False
  with duplicate show ?thesis
    by (simp add: insert_idempotency_def)
qed

lemma delete_fresh_last:
  "map_of m k = None \<Longrightarrow> AList.delete k (m @ [(k, v)]) = m"
  by (simp add: map_of_eq_None_iff AList.delete_eq filter_id_conv) (auto simp: rev_image_eqI)

section \<open>Journal commits\<close>

text \<open>The state after a successful commit, up to the individual balance records.\<close>

lemma commit_cases:
  obtains
      (duplicate) "map_of (idempotency st) (record_key (jc_idempotency c)) \<noteq> None"
        "commit sh now c st = (Inr DuplicateIdempotencyKey, st)"
    | (rejected) err where "map_of (idempotency st) (record_key (jc_idempotency c)) = None"
        "\<not> entry_admitted st (jc_entry c)" "commit sh now c st = (Inl err, st)"
    | (committed) st1 where "map_of (idempotency st) (record_key (jc_idempotency c)) = None"
        "entry_admitted st (jc_entry c)"
        "\<And>k. mem_bal st1 k = mem_bal st k + account_delta k (je_postings (jc_entry c))"
        "balances_keyed (balances st) \<Longrightarrow> balances_keyed (balances st1)"
        "commit sh now c st = (Inr Committed, record_events (jc_events c)
           (st\<lparr>idempotency := idempotency st @ [(record_key (jc_idempotency c), jc_idempotency c)],
               balances := balances st1, entries := entries st @ [jc_entry c]\<rparr>))"
proof (cases rule: insert_idempotency_cases [of st "jc_idempotency c"])
  case d: duplicate
  with duplicate show ?thesis
    by (simp add: commit_def)
next
  case fresh
  let ?st1 = "st\<lparr>idempotency := idempotency st @ [(record_key (jc_idempotency c), jc_idempotency c)]\<rparr>"
  have adm: "entry_admitted ?st1 (jc_entry c) \<longleftrightarrow> entry_admitted st (jc_entry c)"
    by (simp add: entry_admitted_def balance_of_def)
  show ?thesis
  proof (cases rule: apply_postings_cases [of sh now "jc_entry c" ?st1])
    case (ok st2)
    have "mem_bal st2 k = mem_bal st k + account_delta k (je_postings (jc_entry c))" for k
      using ok(4) [of k] by (simp add: balance_of_def)
    moreover have "balances_keyed (balances st) \<Longrightarrow> balances_keyed (balances st2)"
      using apply_postings_keyed [of ?st1 sh now "jc_entry c"] ok(1) by simp
    moreover obtain b where "st2 = ?st1\<lparr>balances := b\<rparr>"
      using ok(3) by (auto simp: keeps_frame_def)
    ultimately show ?thesis
      using fresh ok adm by (intro committed [of st2]) (simp_all add: commit_def)
  next
    case (rejected err st2)
    then obtain b where "st2 = ?st1\<lparr>balances := b\<rparr>"
      by (auto simp: keeps_frame_def)
    with rejected fresh adm show ?thesis
      by (intro that(2) [of err]) (simp_all add: commit_def delete_fresh_last)
  qed
qed

end
