(* ===== verification/Memory_Inv.thy ===== *)
theory Memory_Inv
  imports Memory_Laws
begin

text \<open>
  The in-memory store as a state machine: \<open>mem_step\<close> is one port call, made in any order and by
  any number of concurrent callers, and \<open>mem_inv\<close> is what every reachable state satisfies.

  The steps assume what their callers guarantee: journal entries come from \<open>JournalEntry::new\<close>
  and carry their own event, and freshly drawn UUIDs do not occur in the store yet.
\<close>

section \<open>The invariant\<close>

definition journal :: "State \<Rightarrow> Posting list" where
  "journal st = concat (map je_postings (entries st))"

definition keys_ok :: "State \<Rightarrow> bool" where
  "keys_ok st \<longleftrightarrow>
     hm_ok (accounts st) \<and> balances_keyed (balances st) \<and> hm_ok (idempotency st)
     \<and> (\<forall>(u, account) \<in> set (accounts st). account_uuid (acc_id account) = u)"

text \<open>The materialized balances are the sums of the journal, and every entry balances.\<close>

definition ledger_ok :: "State \<Rightarrow> bool" where
  "ledger_ok st \<longleftrightarrow>
     (\<forall>k. mem_bal st k = account_delta k (journal st))
     \<and> (\<forall>e \<in> set (entries st). validate_balanced (je_postings e) = Inr ())"

text \<open>Only known accounts hold funds, and non-negative accounts never go below zero.\<close>

definition policy_ok :: "State \<Rightarrow> bool" where
  "policy_ok st \<longleftrightarrow>
     (\<forall>i a. case map_of (accounts st) (account_uuid i) of
              None \<Rightarrow> amt (balance_of st i a) = 0
            | Some account \<Rightarrow> acc_policy account = NonNegative \<longrightarrow> 0 \<le> amt (balance_of st i a))"

text \<open>Outbox rows are numbered from one without gaps (modulo \<open>2\<^sup>6\<^sup>4\<close>); event ids are unique.\<close>

definition outbox_ok :: "State \<Rightarrow> bool" where
  "outbox_ok st \<longleftrightarrow>
     next_outbox_id st = of_nat (length (outbox st))
     \<and> map (om_id \<circ> row_message) (outbox st) = map of_nat [1 ..< Suc (length (outbox st))]
     \<and> distinct (map ev_event_id (events st))"

text \<open>The transactional outbox: its journal events are exactly the journal, in order.\<close>

fun journal_of :: "LedgerEventPayload \<Rightarrow> JournalEntry option" where
  "journal_of (JournalPosted e) = Some e"
| "journal_of _ = None"

definition posted :: "LedgerEvent list \<Rightarrow> JournalEntry list" where
  "posted evs = List.map_filter (\<lambda>ev. journal_of (ev_payload ev)) evs"

definition events_ok :: "State \<Rightarrow> bool" where
  "events_ok st \<longleftrightarrow> posted (events st) = entries st"

definition mem_inv :: "State \<Rightarrow> bool" where
  "mem_inv st \<longleftrightarrow> keys_ok st \<and> ledger_ok st \<and> policy_ok st \<and> outbox_ok st \<and> events_ok st"

section \<open>Steps\<close>

definition fresh_events :: "State \<Rightarrow> LedgerEvent list \<Rightarrow> bool" where
  "fresh_events st evs \<longleftrightarrow>
     distinct (map ev_event_id evs) \<and> ev_event_id ` set evs \<inter> ev_event_id ` set (events st) = {}"

definition account_commit_wf :: "State \<Rightarrow> AccountCommit \<Rightarrow> bool" where
  "account_commit_wf st c \<longleftrightarrow>
     account_uuid (acc_id (ac_account c)) \<notin> fst ` set (accounts st)
     \<and> fresh_events st (ac_events c) \<and> posted (ac_events c) = []"

definition journal_commit_wf :: "State \<Rightarrow> JournalCommit \<Rightarrow> bool" where
  "journal_commit_wf st c \<longleftrightarrow>
     validate_balanced (je_postings (jc_entry c)) = Inr ()
     \<and> fresh_events st (jc_events c) \<and> posted (jc_events c) = [jc_entry c]"

inductive mem_step :: "(uuid \<Rightarrow> string) \<Rightarrow> State \<Rightarrow> State \<Rightarrow> bool" for sh where
  step_seed: "account_uuid (acc_id a) \<notin> fst ` set (accounts st)
    \<Longrightarrow> mem_step sh st (seed_account a st)"
| step_create: "account_commit_wf st c \<Longrightarrow> mem_step sh st (snd (create c st))"
| step_commit: "journal_commit_wf st c \<Longrightarrow> mem_step sh st (snd (commit sh now c st))"
| step_purge: "mem_step sh st (snd (purge_created_before cutoff st))"
| step_claim: "mem_step sh st (snd (claim (\<lambda>_ :: unit. lease) now limit () st))"
| step_publish: "mem_step sh st (snd (mark_published now ids st))"
| step_fail: "mem_step sh st (mark_failed i err st)"

inductive mem_reach :: "(uuid \<Rightarrow> string) \<Rightarrow> State \<Rightarrow> bool" for sh where
  reach_init: "mem_reach sh State_default"
| reach_step: "mem_reach sh st \<Longrightarrow> mem_step sh st st' \<Longrightarrow> mem_reach sh st'"

inductive_cases mem_stepE: "mem_step sh st st'"

section \<open>Lookup lemmas\<close>

lemma posted_simps [simp]:
  "posted [] = []" "posted (evs @ evs') = posted evs @ posted evs'"
  by (simp_all add: posted_def List.map_filter_def)

lemma journal_append [simp]: "journal (st\<lparr>entries := entries st @ [e]\<rparr>) = journal st @ je_postings e"
  by (simp add: journal_def)

lemma outbox_row_event [simp]: "om_event (row_message (outbox_row i ev)) = ev"
  by (simp add: outbox_row_def)

lemma event_known:
  "list_ex (\<lambda>row. ev_event_id (om_event (row_message row)) = i) (outbox st)
     \<longleftrightarrow> i \<in> ev_event_id ` set (events st)"
  by (auto simp: list_ex_iff events_def image_iff)

text \<open>Events with fresh ids are appended to the outbox one by one.\<close>

lemma record_events_events:
  assumes "fresh_events st evs"
  shows "events (record_events evs st) = events st @ evs"
  using assms
proof (induction evs st rule: record_events.induct)
  case (2 ev evs st)
  let ?st = "st\<lparr>next_outbox_id := next_outbox_id st + 1,
                outbox := outbox st @ [outbox_row (next_outbox_id st + 1) ev]\<rparr>"
  have new: "\<not> list_ex (\<lambda>row. ev_event_id (om_event (row_message row)) = ev_event_id ev) (outbox st)"
    using 2(3) by (auto simp: fresh_events_def event_known)
  moreover have "events ?st = events st @ [ev]"
    by (simp add: events_def)
  moreover from this have "fresh_events ?st evs"
    using 2(3) by (auto simp: fresh_events_def)
  ultimately show ?case
    using 2(2) [OF new refl] by (simp add: Let_def)
qed simp

lemma record_events_outbox_ok: "outbox_ok st \<Longrightarrow> outbox_ok (record_events evs st)"
proof (induction evs st rule: record_events.induct)
  case (2 ev evs st)
  show ?case
  proof (cases "list_ex (\<lambda>row. ev_event_id (om_event (row_message row)) = ev_event_id ev) (outbox st)")
    case True
    then show ?thesis
      using 2 by simp
  next
    case False
    let ?st = "st\<lparr>next_outbox_id := next_outbox_id st + 1,
                  outbox := outbox st @ [outbox_row (next_outbox_id st + 1) ev]\<rparr>"
    have "outbox_ok ?st"
      using 2(3) False
      by (auto simp: outbox_ok_def events_def outbox_row_def list_ex_iff)
    then show ?thesis
      using 2(2) [OF False refl] False by (simp add: Let_def)
  qed
qed simp

section \<open>Preservation\<close>

text \<open>
  The outbox operations change publication state only: row ids, events and everything outside
  the outbox stay.
\<close>

definition same_core :: "State \<Rightarrow> State \<Rightarrow> bool" where
  "same_core st st' \<longleftrightarrow>
     accounts st' = accounts st \<and> entries st' = entries st \<and> balances st' = balances st
     \<and> (idempotency st' = idempotency st \<or> (\<exists>P. idempotency st' = filter P (idempotency st)))
     \<and> next_outbox_id st' = next_outbox_id st
     \<and> map (\<lambda>row. (om_id (row_message row), om_event (row_message row))) (outbox st')
         = map (\<lambda>row. (om_id (row_message row), om_event (row_message row))) (outbox st)"

lemma policy_ok_cong:
  assumes "accounts st = accounts st'" and "balances st = balances st'"
  shows "policy_ok st \<longleftrightarrow> policy_ok st'"
  unfolding policy_ok_def assms(1) balance_of_cong [OF assms(2)] ..

lemma policy_okD:
  assumes "policy_ok st"
  shows "map_of (accounts st) (account_uuid i) = None \<Longrightarrow> amt (balance_of st i a) = 0"
    and "map_of (accounts st) (account_uuid i) = Some account \<Longrightarrow> acc_policy account = NonNegative
      \<Longrightarrow> 0 \<le> amt (balance_of st i a)"
  using assms by (auto simp: policy_ok_def dest!: spec [of _ i] spec [of _ a])

lemma same_core_inv:
  assumes core: "same_core st st'" and inv: "mem_inv st"
  shows "mem_inv st'"
proof -
  let ?core = "\<lambda>row. (om_id (row_message row), om_event (row_message row))"
  have eqs: "accounts st' = accounts st" "entries st' = entries st" "balances st' = balances st"
      "next_outbox_id st' = next_outbox_id st" "map ?core (outbox st') = map ?core (outbox st)"
    and idem: "idempotency st' = idempotency st \<or> (\<exists>P. idempotency st' = filter P (idempotency st))"
    using core by (auto simp: same_core_def)
  have bal: "balance_of st' = balance_of st"
    by (rule balance_of_cong) (rule eqs)
  have "map snd (map ?core (outbox st')) = map snd (map ?core (outbox st))"
    and "map fst (map ?core (outbox st')) = map fst (map ?core (outbox st))"
    and len: "length (outbox st') = length (outbox st)"
    using map_eq_imp_length_eq [OF eqs(5)] by (simp_all only: eqs(5))
  then have ev: "events st' = events st"
    and ids: "map (om_id \<circ> row_message) (outbox st') = map (om_id \<circ> row_message) (outbox st)"
    by (simp_all add: events_def comp_def)
  have "hm_ok (idempotency st')"
    using idem inv by (auto simp: mem_inv_def keys_ok_def distinct_map_filter)
  moreover have "policy_ok st'"
    using inv policy_ok_cong [OF eqs(1,3)] by (simp add: mem_inv_def)
  ultimately show ?thesis
    using inv eqs bal ev ids len
    by (simp add: mem_inv_def keys_ok_def ledger_ok_def outbox_ok_def events_ok_def journal_def)
qed

lemma seed_account_frame [simp]:
  "entries (seed_account a st) = entries st" "balances (seed_account a st) = balances st"
  "idempotency (seed_account a st) = idempotency st" "outbox (seed_account a st) = outbox st"
  "next_outbox_id (seed_account a st) = next_outbox_id st"
  by (simp_all add: seed_account_def)

lemma claim_rows_core:
  "map (\<lambda>row. (om_id (row_message row), om_event (row_message row)))
       (snd (claim_rows now until n rows))
     = map (\<lambda>row. (om_id (row_message row), om_event (row_message row))) rows"
  by (induction now until n rows rule: claim_rows.induct) (auto split: prod.splits)

lemma fail_first_core:
  "map (\<lambda>row. (om_id (row_message row), om_event (row_message row))) (fail_first i err rows)
     = map (\<lambda>row. (om_id (row_message row), om_event (row_message row))) rows"
  by (induction i err rows rule: fail_first.induct) auto

lemma outbox_steps_core:
  "same_core st (snd (claim (\<lambda>_ :: unit. lease) now limit () st))"
  "same_core st (snd (mark_published now ids st))"
  "same_core st (mark_failed i err st)"
  "same_core st (snd (purge_created_before cutoff st))"
proof -
  show "same_core st (snd (claim (\<lambda>_ :: unit. lease) now limit () st))"
  proof (cases lease)
    case (Inr d)
    obtain claimed rows where rows: "claim_rows now (now + d) (unat limit) (outbox st) = (claimed, rows)"
      by fastforce
    then show ?thesis
      using claim_rows_core [of now "now + d" "unat limit" "outbox st"] Inr
      by (simp add: same_core_def claim_def)
  qed (simp add: same_core_def claim_def)
  show "same_core st (snd (mark_published now ids st))"
    by (auto simp: same_core_def mark_published_def publish_row_def)
  show "same_core st (mark_failed i err st)"
    by (simp add: same_core_def mark_failed_def fail_first_core)
  show "same_core st (snd (purge_created_before cutoff st))"
    by (auto simp: same_core_def purge_created_before_def Let_def)
qed

lemma seed_inv:
  assumes "mem_inv st" and fresh: "account_uuid (acc_id a) \<notin> fst ` set (accounts st)"
  shows "mem_inv (seed_account a st)"
proof -
  have acc: "accounts (seed_account a st) = accounts st @ [(account_uuid (acc_id a), a)]"
    by (simp add: seed_account_def alist_update_fresh [OF fresh])
  have zero: "amt (balance_of st (acc_id a) b) = 0" for b
    using assms(1) fresh map_of_eq_None_iff [of "accounts st" "account_uuid (acc_id a)"]
    by (auto simp: mem_inv_def policy_ok_def dest!: spec [of _ "acc_id a"] split: option.splits)
  have bal: "balance_of (seed_account a st) = balance_of st"
    by (rule balance_of_cong) simp
  have "policy_ok (seed_account a st)"
    unfolding policy_ok_def bal
  proof (intro allI)
    fix i b
    have "case map_of (accounts st) (account_uuid i) of
            None \<Rightarrow> amt (balance_of st i b) = 0
          | Some account \<Rightarrow> acc_policy account = NonNegative \<longrightarrow> 0 \<le> amt (balance_of st i b)"
      using assms(1) by (auto simp: mem_inv_def policy_ok_def)
    then show "case map_of (accounts (seed_account a st)) (account_uuid i) of
            None \<Rightarrow> amt (balance_of st i b) = 0
          | Some account \<Rightarrow> acc_policy account = NonNegative \<longrightarrow> 0 \<le> amt (balance_of st i b)"
      using zero [of b] by (auto simp: acc map_add_def split: option.splits)
  qed
  moreover have "keys_ok (seed_account a st)"
    using assms by (auto simp: keys_ok_def mem_inv_def acc)
  ultimately show ?thesis
    using assms(1) bal
    by (simp add: mem_inv_def ledger_ok_def outbox_ok_def events_ok_def journal_def events_def)
qed

text \<open>Steps that add to the journal or the outbox.\<close>

lemma create_cases:
  obtains
      (duplicate) "map_of (idempotency st) (record_key (ac_idempotency c)) \<noteq> None"
        "create c st = (Inr DuplicateIdempotencyKey, st)"
    | (taken) err where "map_of (idempotency st) (record_key (ac_idempotency c)) = None"
        "acc_name (ac_account c) \<in> acc_name ` snd ` set (accounts st)"
        "create c st = (Inl (Conflict err),
           st\<lparr>idempotency := idempotency st @ [(record_key (ac_idempotency c), ac_idempotency c)]\<rparr>)"
    | (created) "map_of (idempotency st) (record_key (ac_idempotency c)) = None"
        "acc_name (ac_account c) \<notin> acc_name ` snd ` set (accounts st)"
        "create c st = (Inr Committed, record_events (ac_events c) (seed_account (ac_account c)
           (st\<lparr>idempotency := idempotency st @ [(record_key (ac_idempotency c), ac_idempotency c)]\<rparr>)))"
proof (cases rule: insert_idempotency_cases [of st "ac_idempotency c"])
  case d: duplicate
  with duplicate show ?thesis
    by (simp add: create_def)
next
  case fresh
  have "list_ex (\<lambda>(_, account). acc_name account = acc_name (ac_account c)) (accounts st)
      \<longleftrightarrow> acc_name (ac_account c) \<in> acc_name ` snd ` set (accounts st)"
    by (force simp: list_ex_iff image_iff)
  with fresh taken created show ?thesis
    by (cases "acc_name (ac_account c) \<in> acc_name ` snd ` set (accounts st)")
      (simp_all add: create_def)
qed

lemma idempotency_insert_inv:
  assumes "mem_inv st" and "map_of (idempotency st) k = None"
  shows "mem_inv (st\<lparr>idempotency := idempotency st @ [(k, r)]\<rparr>)"
proof -
  have "balance_of (st\<lparr>idempotency := idempotency st @ [(k, r)]\<rparr>) = balance_of st"
    by (rule balance_of_cong) simp
  then show ?thesis
    using assms policy_ok_cong [of "st\<lparr>idempotency := idempotency st @ [(k, r)]\<rparr>" st]
    by (auto simp: mem_inv_def keys_ok_def ledger_ok_def outbox_ok_def events_ok_def journal_def
        events_def map_of_eq_None_iff)
qed

lemma record_events_inv:
  assumes "keys_ok st" "ledger_ok st" "policy_ok st" "outbox_ok st"
    and "fresh_events st evs" "posted (events st) @ posted evs = entries st"
  shows "mem_inv (record_events evs st)"
proof -
  have bal: "balance_of (record_events evs st) = balance_of st"
    by (rule balance_of_cong) (rule record_events_frame)
  have "policy_ok (record_events evs st)"
    using assms(3) policy_ok_cong [of "record_events evs st" st] by (simp add: record_events_frame)
  moreover have "events_ok (record_events evs st)"
    using assms(6) by (simp add: events_ok_def record_events_events [OF assms(5)] record_events_frame)
  moreover have "keys_ok (record_events evs st)" "ledger_ok (record_events evs st)"
    using assms(1,2) by (simp_all add: keys_ok_def ledger_ok_def bal journal_def record_events_frame)
  ultimately show ?thesis
    using record_events_outbox_ok [OF assms(4)] by (simp add: mem_inv_def)
qed

lemma create_inv:
  assumes inv: "mem_inv st" and wf: "account_commit_wf st c"
  shows "mem_inv (snd (create c st))"
proof (cases rule: create_cases [of st c])
  case duplicate
  with inv show ?thesis by simp
next
  case (taken err)
  with inv show ?thesis
    by (simp add: idempotency_insert_inv)
next
  case created
  let ?st1 = "st\<lparr>idempotency := idempotency st @ [(record_key (ac_idempotency c), ac_idempotency c)]\<rparr>"
  let ?st2 = "seed_account (ac_account c) ?st1"
  have "mem_inv ?st1"
    using inv created(1) by (rule idempotency_insert_inv)
  then have inv2: "mem_inv ?st2"
    using wf by (intro seed_inv) (simp_all add: account_commit_wf_def)
  have "events ?st2 = events st"
    by (simp add: events_def)
  then have "mem_inv (record_events (ac_events c) ?st2)"
    using inv2 wf inv
    by (intro record_events_inv)
      (simp_all add: mem_inv_def account_commit_wf_def fresh_events_def events_ok_def)
  with created show ?thesis
    by simp
qed

lemma ledger_ok_extend:
  assumes "ledger_ok st" and "validate_balanced (je_postings e) = Inr ()"
    and "\<And>k. mem_bal st' k = mem_bal st k + account_delta k (je_postings e)"
    and "entries st' = entries st @ [e]"
  shows "ledger_ok st'"
  using assms by (auto simp: ledger_ok_def journal_def)

lemma policy_ok_extend:
  assumes pol: "policy_ok st" and adm: "entry_admitted st e" and acc: "accounts st' = accounts st"
    and bal: "\<And>k. mem_bal st' k = mem_bal st k + account_delta k (je_postings e)"
  shows "policy_ok st'"
  unfolding policy_ok_def acc
proof (intro allI)
  fix i a
  have bal': "amt (balance_of st' i a) = mem_bal st (i, a) + account_delta (i, a) (je_postings e)"
    using bal [of "(i, a)"] by simp
  show "case map_of (accounts st) (account_uuid i) of
          None \<Rightarrow> amt (balance_of st' i a) = 0
        | Some account \<Rightarrow> acc_policy account = NonNegative \<longrightarrow> 0 \<le> amt (balance_of st' i a)"
  proof (cases "(i, a) \<in> p_key ` set (je_postings e)")
    case True
    then obtain p where "p_key p = (i, a)" "admits (accounts st) p (amt (balance_of st' i a))"
      using running_final [OF adm [unfolded entry_admitted_def] True] bal' by auto
    then show ?thesis
      by (auto simp: admits_def split: option.splits)
  next
    case False
    then have "amt (balance_of st' i a) = amt (balance_of st i a)"
      using bal' by (simp add: key_sum_absent)
    with policy_okD [OF pol] show ?thesis
      by (simp split: option.splits)
  qed
qed

lemma commit_inv:
  assumes inv: "mem_inv st" and wf: "journal_commit_wf st c"
  shows "mem_inv (snd (commit sh now c st))"
proof (cases rule: commit_cases [of st c sh now])
  case (committed st1)
  let ?st2 = "st\<lparr>idempotency := idempotency st @ [(record_key (jc_idempotency c), jc_idempotency c)],
               balances := balances st1, entries := entries st @ [jc_entry c]\<rparr>"
  have bal: "mem_bal ?st2 k = mem_bal st k + account_delta k (je_postings (jc_entry c))" for k
    using committed(3) [of k] balance_of_cong [of ?st2 st1] by simp
  have "ledger_ok ?st2"
    by (rule ledger_ok_extend [OF _ _ bal])
      (use inv wf in \<open>simp_all add: mem_inv_def journal_commit_wf_def\<close>)
  moreover have "policy_ok ?st2"
    by (rule policy_ok_extend [OF _ _ _ bal]) (use inv committed(2) in \<open>simp_all add: mem_inv_def\<close>)
  moreover have "keys_ok ?st2"
    using inv committed(1,4) by (auto simp: mem_inv_def keys_ok_def map_of_eq_None_iff)
  moreover have "outbox_ok ?st2" "events ?st2 = events st"
    using inv by (simp_all add: mem_inv_def outbox_ok_def events_def)
  ultimately have "mem_inv (record_events (jc_events c) ?st2)"
    using wf inv
    by (intro record_events_inv)
      (simp_all add: mem_inv_def journal_commit_wf_def fresh_events_def events_ok_def)
  with committed show ?thesis
    by simp
qed (use inv in simp_all)

lemma mem_step_inv: "mem_step sh st st' \<Longrightarrow> mem_inv st \<Longrightarrow> mem_inv st'"
  by (induction rule: mem_step.induct)
    (auto intro: seed_inv create_inv commit_inv same_core_inv outbox_steps_core)

lemma mem_inv_init: "mem_inv State_default"
  by (simp add: mem_inv_def keys_ok_def balances_keyed_def ledger_ok_def policy_ok_def outbox_ok_def
      events_ok_def State_default_def events_def journal_def balance_of_def)

lemma mem_reach_inv: "mem_reach sh st \<Longrightarrow> mem_inv st"
  by (induction rule: mem_reach.induct) (auto intro: mem_inv_init mem_step_inv)

end
