(* ===== verification/Example.thy ===== *)
theory Example
  imports Memory_Inv
begin

text \<open>
  A small concrete run used as the instance of the theorems about reachable states: a
  non-negative customer account and a credit-normal clearing account, a deposit of 100 units
  between them, the same account name requested twice, and an entry the policy rejects.
\<close>

definition ex_show :: "uuid \<Rightarrow> string" where
  "ex_show u = show_nat (unat u)"

definition ex_alice :: Account where
  "ex_alice = Account_new 1 (AccountId 1) ''alice'' CustomerAvailable NonNegative"

definition ex_clearing :: Account where
  "ex_clearing = Account_new 1 (AccountId 2) ''clearing'' DepositClearing AllowNegative"

definition ex_accounts :: State where
  "ex_accounts = seed_account ex_clearing (seed_account ex_alice State_default)"

definition ex_postings :: "i128 \<Rightarrow> Posting list" where
  "ex_postings n =
     [credit_of (AccountId 2) btc (AtomicAmount n), debit_of (AccountId 1) btc (AtomicAmount n)]"

definition ex_entry :: "uuid \<Rightarrow> Posting list \<Rightarrow> JournalEntry" where
  "ex_entry u ps =
     \<lparr>je_id = TransactionId u, je_idempotency_key = IdempotencyKey ''dep-1'',
      je_description = ''confirmed_deposit'', je_postings = ps, je_status = Posted,
      je_correlation_id = CorrelationId 5, je_causation_id = CausationId 6, je_created_at = 10\<rparr>"

definition ex_event :: "uuid \<Rightarrow> LedgerEventPayload \<Rightarrow> LedgerEvent" where
  "ex_event u payload =
     wrap_event u 11 (ex_show u) None (CorrelationId 5) (CausationId 6) [] payload"

definition ex_record :: "string \<Rightarrow> IdempotencyRecord" where
  "ex_record k =
     \<lparr>ir_scope = ''record_deposit'', ir_key = IdempotencyKey k, ir_request_hash = RequestHash ''h'',
      ir_response = JNull, ir_created_at = 12\<rparr>"

definition ex_commit :: JournalCommit where
  "ex_commit =
     \<lparr>jc_entry = ex_entry 3 (ex_postings 100),
      jc_events = [ex_event 4 (JournalPosted (ex_entry 3 (ex_postings 100)))],
      jc_idempotency = ex_record ''dep-1''\<rparr>"

definition ex_state :: State where
  "ex_state = snd (commit ex_show 20 ex_commit ex_accounts)"

lemmas ex_defs =
  ex_alice_def ex_clearing_def ex_accounts_def ex_postings_def ex_entry_def ex_event_def
  ex_record_def ex_commit_def ex_state_def Account_new_def wrap_event_def State_default_def
  seed_account_def credit_of_def debit_of_def

lemma ex_outcome: "fst (commit ex_show 20 ex_commit ex_accounts) = Inr Committed"
  by code_simp

lemma ex_balances: "amt (balance_of ex_state (AccountId 1) btc) = 100"
    "amt (balance_of ex_state (AccountId 2) btc) = -100"
  by code_simp+

end
