(* ===== verification/Memory_Props.thy ===== *)
theory Memory_Props
  imports Example
begin

text \<open>
  The guarantees of the in-memory store: conservation of every asset, agreement of balances and
  journal, balance policies, the transactional outbox, atomic commits, refinement of an
  abstract journal-only ledger, and the leasing discipline of the outbox.
\<close>

section \<open>Instances\<close>

lemma ex_accounts_reach: "mem_reach ex_show ex_accounts"
  unfolding ex_accounts_def
  by (rule reach_step [OF reach_step [OF reach_init step_seed] step_seed]) (simp_all add: ex_defs)

lemma ex_valid: "validate_balanced (ex_postings 100) = Inr ()"
  unfolding ex_postings_def by (rule pair_valid) simp

lemma ex_commit_wf: "journal_commit_wf ex_accounts ex_commit"
proof -
  have "je_postings (jc_entry ex_commit) = ex_postings 100"
    by (simp add: ex_commit_def ex_entry_def)
  moreover have "events ex_accounts = []"
    by (simp add: ex_accounts_def seed_account_def State_default_def events_def)
  ultimately show ?thesis
    by (simp add: journal_commit_wf_def ex_valid fresh_events_def)
      (simp add: ex_commit_def ex_event_def wrap_event_def posted_def List.map_filter_def)
qed

lemma ex_reach: "mem_reach ex_show ex_state"
  unfolding ex_state_def
  by (rule reach_step [OF ex_accounts_reach step_commit [OF ex_commit_wf]])

section \<open>Conservation\<close>

definition asset_total :: "State \<Rightarrow> AssetCode \<Rightarrow> int" where
  "asset_total st a = (\<Sum>r \<leftarrow> map snd (balances st). if br_asset r = a then amt (br_amount r) else 0)"

lemma sum_key_sums:
  assumes "finite K" and "p_key ` set ps \<subseteq> K"
  shows "(\<Sum>k \<in> K. if snd k = a then account_delta k ps else 0) = asset_sum a ps"
  using assms(2)
proof (induction ps)
  case (Cons p ps)
  have "(\<Sum>k \<in> K. if snd k = a then account_delta k (p # ps) else 0)
      = (\<Sum>k \<in> K. if k = p_key p then (if snd k = a then p_delta p else 0) else 0)
        + (\<Sum>k \<in> K. if snd k = a then account_delta k ps else 0)"
    unfolding sum.distrib [symmetric] by (rule sum.cong) auto
  also have "\<dots> = asset_sum a (p # ps)"
    using Cons assms(1) by (simp add: sum.delta)
  finally show ?case .
qed (simp cong: if_cong)

lemma asset_sum_concat:
  "(\<And>e. e \<in> set es \<Longrightarrow> asset_sum a (je_postings e) = 0)
     \<Longrightarrow> asset_sum a (concat (map je_postings es)) = 0"
  by (induction es) auto

lemma asset_total_keys:
  assumes "balances_keyed (balances st)"
  shows "asset_total st a =
    (\<Sum>k \<in> (\<lambda>(u, c). (AccountId u, c)) ` fst ` set (balances st). if snd k = a then mem_bal st k else 0)"
proof -
  let ?g = "\<lambda>(u, c). (AccountId u, c :: AssetCode)"
  have hm: "hm_ok (balances st)"
    using assms by (simp add: balances_keyed_def)
  have kr: "snd (fst kr) = br_asset (snd kr) \<and> mem_bal st (?g (fst kr)) = amt (br_amount (snd kr))"
    if "kr \<in> set (balances st)" for kr
  proof -
    have "map_of (balances st) (fst kr) = Some (snd kr)"
      using that hm by simp
    then show ?thesis
      using assms unfolding balances_keyed_def balance_of_def
      by (cases kr) (metis (no_types, lifting) AccountId.sel fst_conv option.simps(5) snd_conv split_beta)
  qed
  have "asset_total st a = (\<Sum>kr \<leftarrow> balances st. if snd (?g (fst kr)) = a then mem_bal st (?g (fst kr)) else 0)"
    unfolding asset_total_def map_map
    by (intro arg_cong [where f = sum_list] map_cong refl) (use kr in \<open>auto simp: split_beta\<close>)
  also have "\<dots> = (\<Sum>kr \<in> set (balances st). if snd (?g (fst kr)) = a then mem_bal st (?g (fst kr)) else 0)"
    using hm by (intro sum_list_distinct_conv_sum_set) (simp add: distinct_map)
  also have "\<dots> = (\<Sum>k \<in> ?g ` fst ` set (balances st). if snd k = a then mem_bal st k else 0)"
  proof -
    have "inj_on (?g \<circ> fst) (set (balances st))"
      using hm by (intro comp_inj_on) (auto simp: distinct_map inj_on_def)
    from sum.reindex [OF this, of "\<lambda>k. if snd k = a then mem_bal st k else 0"] show ?thesis
      by (simp only: image_comp comp_def)
  qed
  finally show ?thesis .
qed

lemma zero_sum:
  assumes "mem_inv st"
  shows "asset_total st a = 0"
proof -
  let ?B = "(\<lambda>(u, c). (AccountId u, c)) ` fst ` set (balances st)"
  let ?K = "?B \<union> p_key ` set (journal st)"
  have keyed: "balances_keyed (balances st)" and ledger: "\<And>k. mem_bal st k = account_delta k (journal st)"
    and valid: "\<And>e. e \<in> set (entries st) \<Longrightarrow> validate_balanced (je_postings e) = Inr ()"
    using assms by (auto simp: mem_inv_def keys_ok_def ledger_ok_def)
  have absent: "mem_bal st k = 0" if "k \<notin> ?B" for k
  proof -
    have "map_of (balances st) (account_uuid (fst k), snd k) = None"
    proof (rule ccontr)
      assume "map_of (balances st) (account_uuid (fst k), snd k) \<noteq> None"
      then have "(account_uuid (fst k), snd k) \<in> fst ` set (balances st)"
        by (simp add: map_of_eq_None_iff)
      then have "(\<lambda>(u, c). (AccountId u, c)) (account_uuid (fst k), snd k) \<in> ?B"
        by (rule imageI)
      with that show False
        by simp
    qed
    then show ?thesis
      by (simp add: balance_of_def)
  qed
  have "asset_total st a = (\<Sum>k \<in> ?K. if snd k = a then mem_bal st k else 0)"
    unfolding asset_total_keys [OF keyed]
    by (rule sum.mono_neutral_left) (use absent in \<open>auto simp: split_beta\<close>)
  also have "\<dots> = asset_sum a (journal st)"
    unfolding ledger by (rule sum_key_sums) auto
  also have "\<dots> = 0"
    unfolding journal_def using valid validated_zero_sum by (intro asset_sum_concat) blast
  finally show ?thesis .
qed

text \<open>
  C1. Conservation of every asset.  In every state the store can reach, by any interleaving of
  port calls, the balances of all accounts in one asset sum to exactly zero.
\<close>

theorem reachable_zero_sum:
  assumes "mem_reach sh st"
  shows "asset_total st a = 0"
  by (rule zero_sum [OF mem_reach_inv [OF assms]])

theorem reachable_zero_sum_witness:
  "asset_total ex_state btc = 0 \<and> amt (balance_of ex_state (AccountId 1) btc) = 100"
  using reachable_zero_sum [OF ex_reach, of btc] ex_balances by simp

text \<open>
  C2. Balances are the journal.  In every reachable state the balance of an account in an asset
  is the sum of all postings ever journaled for it, and every journaled entry passes
  \<open>validate_balanced\<close>: nothing but a journaled entry moves funds.
\<close>

theorem reachable_balances_journal:
  assumes "mem_reach sh st"
  shows "amt (balance_of st i a) = account_delta (i, a) (journal st)
    \<and> (\<forall>e \<in> set (entries st). validate_balanced (je_postings e) = Inr ())"
  using mem_reach_inv [OF assms] by (simp add: mem_inv_def ledger_ok_def)

theorem reachable_balances_journal_witness:
  "amt (balance_of ex_state (AccountId 1) btc) = account_delta (AccountId 1, btc) (journal ex_state)
   \<and> entries ex_state \<noteq> [] \<and> validate_balanced (je_postings (hd (entries ex_state))) = Inr ()"
proof -
  have "entries ex_state \<noteq> []"
    by code_simp
  then show ?thesis
    using reachable_balances_journal [OF ex_reach, of "AccountId 1" btc] by simp
qed

text \<open>
  C6. Balance policies hold.  In every reachable state no account with the policy
  \<open>NonNegative\<close> has a negative balance in any asset, and an account the store does not know
  has no funds.
\<close>

theorem reachable_policies:
  assumes "mem_reach sh st"
  shows "case find_account i st of
           None \<Rightarrow> amt (balance_of st i a) = 0
         | Some account \<Rightarrow> acc_policy account = NonNegative \<longrightarrow> 0 \<le> amt (balance_of st i a)"
  using mem_reach_inv [OF assms] by (simp add: mem_inv_def policy_ok_def find_account_def)

theorem reachable_policies_witness:
  "find_account (AccountId 1) ex_state = Some ex_alice
   \<and> 0 \<le> amt (balance_of ex_state (AccountId 1) btc)"
proof -
  have alice: "find_account (AccountId 1) ex_state = Some ex_alice"
    by code_simp
  then show ?thesis
    using reachable_policies [OF ex_reach, of "AccountId 1" btc]
    by (simp add: ex_alice_def Account_new_def)
qed

lemma reachable_ids:
  assumes "mem_reach sh st" and "length (outbox st) < 2 ^ 63"
  shows "map (\<lambda>row. sint (om_id (row_message row))) (outbox st)
    = map int [1 ..< Suc (length (outbox st))]"
proof -
  have inv: "outbox_ok st"
    using mem_reach_inv [OF assms(1)] by (simp add: mem_inv_def)
  have "map (\<lambda>row. sint (om_id (row_message row))) (outbox st)
      = map sint (map (om_id \<circ> row_message) (outbox st))"
    by simp
  also have "\<dots> = map (\<lambda>n. sint (of_nat n :: i64)) [1 ..< Suc (length (outbox st))]"
    using inv by (simp only: outbox_ok_def) simp
  also have "\<dots> = map int [1 ..< Suc (length (outbox st))]"
    using assms(2) by (intro map_cong refl) (auto simp: sint_of_nat_i64)
  finally show ?thesis .
qed

text \<open>
  C11. The transactional outbox is complete and exact.  In every reachable state the
  \<open>JournalPosted\<close> events of the outbox are exactly the journal entries, each once and in
  journal order; event ids are unique and row ids count up from one.
\<close>

theorem reachable_outbox:
  assumes "mem_reach sh st" and "length (outbox st) < 2 ^ 63"
  shows "posted (events st) = entries st
    \<and> distinct (map ev_event_id (events st))
    \<and> map (\<lambda>row. sint (om_id (row_message row))) (outbox st)
        = map int [1 ..< Suc (length (outbox st))]"
  using mem_reach_inv [OF assms(1)] reachable_ids [OF assms]
  by (simp add: mem_inv_def outbox_ok_def events_ok_def)

theorem reachable_outbox_witness:
  "posted (events ex_state) = entries ex_state
    \<and> distinct (map ev_event_id (events ex_state))
    \<and> map (\<lambda>row. sint (om_id (row_message row))) (outbox ex_state)
        = map int [1 ..< Suc (length (outbox ex_state))]"
proof -
  have "length (outbox ex_state) = 1"
    by code_simp
  then show ?thesis
    by (intro reachable_outbox [OF ex_reach]) simp
qed

section \<open>Atomic commits\<close>

text \<open>
  C5. A failed journal commit changes nothing.  Whatever the state, when \<open>commit\<close> returns an
  error or reports a duplicate key, the state afterwards is the state before, although
  \<open>apply_postings\<close> may have written some balances and the idempotency record had been inserted.
\<close>

theorem commit_all_or_nothing:
  assumes "fst (commit sh now c st) \<noteq> Inr Committed"
  shows "snd (commit sh now c st) = st"
  by (cases rule: commit_cases [of st c sh now]) (use assms in simp_all)

definition ex_overdraft :: JournalCommit where
  "ex_overdraft =
     \<lparr>jc_entry = ex_entry 7 [debit_of (AccountId 2) btc (AtomicAmount 500),
                           credit_of (AccountId 1) btc (AtomicAmount 500)],
      jc_events = [], jc_idempotency = ex_record ''wd-1''\<rparr>"

lemma ex_overdraft_rejected:
  "fst (commit ex_show 30 ex_overdraft ex_state)
     = Inl (Domain (InsufficientBalance ''1'' ''BTC'' 100 (-500)))"
  by code_simp

theorem commit_all_or_nothing_witness:
  "snd (commit ex_show 30 ex_overdraft ex_state) = ex_state"
  by (rule commit_all_or_nothing) (simp add: ex_overdraft_rejected)

text \<open>
  The abstract ledger: accounts, an append-only journal and the answered requests.  It keeps no
  balances; they are sums over the journal.
\<close>

record abs_ledger =
  al_accounts :: "(uuid \<times> Account) list"
  al_journal :: "JournalEntry list"
  al_answers :: "string \<times> string \<Rightarrow> IdempotencyRecord option"

definition abs_of :: "State \<Rightarrow> abs_ledger" where
  "abs_of st = \<lparr>al_accounts = accounts st, al_journal = entries st, al_answers = map_of (idempotency st)\<rparr>"

definition abs_commit :: "JournalCommit \<Rightarrow> abs_ledger \<Rightarrow> (unit + CommitOutcome) \<times> abs_ledger" where
  "abs_commit c l =
     (let k = record_key (jc_idempotency c);
          old = concat (map je_postings (al_journal l))
      in if al_answers l k \<noteq> None then (Inr DuplicateIdempotencyKey, l)
         else if \<not> running (admits (al_accounts l)) p_key p_delta (\<lambda>k. account_delta k old)
                     (je_postings (jc_entry c))
         then (Inl (), l)
         else (Inr Committed, l\<lparr>al_journal := al_journal l @ [jc_entry c],
                 al_answers := (al_answers l)(k \<mapsto> jc_idempotency c)\<rparr>))"

text \<open>
  C4. Refinement of the abstract ledger.  On reachable states \<open>commit\<close> accepts, rejects or
  reports a duplicate exactly as the journal-only specification does, and moves to the
  corresponding state: the materialized balances and the rollback are invisible.
\<close>

theorem commit_refines:
  assumes "mem_reach sh st"
  shows "(map_err (\<lambda>_. ()) (fst (commit sh now c st)), abs_of (snd (commit sh now c st)))
           = abs_commit c (abs_of st)"
proof -
  have "(\<lambda>k. account_delta k (concat (map je_postings (entries st)))) = mem_bal st"
    using mem_reach_inv [OF assms] by (auto simp: mem_inv_def ledger_ok_def journal_def)
  then have adm: "running (admits (accounts st)) p_key p_delta
        (\<lambda>k. account_delta k (concat (map je_postings (entries st)))) (je_postings (jc_entry c))
      \<longleftrightarrow> entry_admitted st (jc_entry c)"
    by (simp add: entry_admitted_def)
  show ?thesis
    by (cases rule: commit_cases [of st c sh now])
      (simp_all add: abs_of_def abs_commit_def adm record_events_frame map_add_fresh)
qed

theorem commit_refines_witness:
  "(map_err (\<lambda>_. ()) (fst (commit ex_show 20 ex_commit ex_accounts)),
      abs_of (snd (commit ex_show 20 ex_commit ex_accounts)))
     = abs_commit ex_commit (abs_of ex_accounts)"
  by (rule commit_refines [OF ex_accounts_reach])

section \<open>Account creation\<close>

text \<open>
  C40. A name conflict is not rolled back.  When \<open>create\<close> finds the account name taken it returns
  a conflict but keeps the idempotency record it has just inserted; no account is added, and a
  retry with the same key is then answered as a duplicate.
\<close>

theorem create_conflict_keeps_record:
  assumes "fst (create c st) = Inl err"
  shows "find_idempotency (ir_scope (ac_idempotency c)) (ir_key (ac_idempotency c)) st = None
    \<and> find_idempotency (ir_scope (ac_idempotency c)) (ir_key (ac_idempotency c)) (snd (create c st))
        = Some (ac_idempotency c)
    \<and> accounts (snd (create c st)) = accounts st
    \<and> fst (create c (snd (create c st))) = Inr DuplicateIdempotencyKey"
proof (cases rule: create_cases [of st c])
  case (taken e)
  have found: "map_of (idempotency (snd (create c st))) (record_key (ac_idempotency c))
      = Some (ac_idempotency c)"
    using taken by (simp add: map_add_fresh)
  have "fst (create c (snd (create c st))) = Inr DuplicateIdempotencyKey"
    by (cases rule: create_cases [of "snd (create c st)" c]) (simp_all add: found)
  with taken found show ?thesis
    by (simp add: find_idempotency_def record_key_def)
qed (use assms in simp_all)

definition ex_create :: AccountCommit where
  "ex_create = \<lparr>ac_account = Account_new 1 (AccountId 9) ''alice'' CustomerAvailable NonNegative,
     ac_events = [], ac_idempotency = ex_record ''acct-1''\<rparr>"

theorem create_conflict_keeps_record_witness:
  "find_account (AccountId 9) (snd (create ex_create ex_state)) = None
   \<and> fst (create ex_create (snd (create ex_create ex_state))) = Inr DuplicateIdempotencyKey"
proof -
  have err: "fst (create ex_create ex_state) = Inl (Conflict
      (''account name '' @ [CHR 0x27] @ ''alice'' @ [CHR 0x27] @ '' is already taken''))"
    by code_simp
  have "find_account (AccountId 9) (snd (create ex_create ex_state)) = None"
    by code_simp
  then show ?thesis
    using create_conflict_keeps_record [OF err] by blast
qed

end
