(* ===== verification/Outbox_Props.thy ===== *)
theory Outbox_Props
  imports Memory_Props
begin

text \<open>
  The leased outbox of \<open>memory.rs\<close>: which messages a claim returns, that a lease excludes other
  relays until it expires, that published messages are never handed out again, and that the
  statistics count what they say.
\<close>

abbreviation row_id :: "OutboxRow \<Rightarrow> i64" where
  "row_id row \<equiv> om_id (row_message row)"

lemma claim_rows_claimed:
  "fst (claim_rows now until n rows) = take n (map row_message (filter (claimable now) rows))"
  by (induction now until n rows rule: claim_rows.induct)
    (auto split: prod.splits simp: take_Cons' Let_def)

lemma claim_rows_ids: "map row_id (snd (claim_rows now until n rows)) = map row_id rows"
  by (induction now until n rows rule: claim_rows.induct) (auto split: prod.splits)

text \<open>While the lease runs, no claimed row is claimable.\<close>

lemma claim_rows_leased:
  assumes "distinct (map row_id rows)" and "now' < until"
    and "row \<in> set (snd (claim_rows now until n rows))" and "claimable now' row"
  shows "row_id row \<notin> om_id ` set (fst (claim_rows now until n rows))"
  using assms
proof (induction now until n rows rule: claim_rows.induct)
  case (2 now until n r rows)
  show ?case
  proof (cases "n = 0")
    case True
    then show ?thesis by simp
  next
    case n: False
    define m where "m = (if claimable now r then n - 1 else n)"
    obtain cl rest where rec: "claim_rows now until m rows = (cl, rest)"
      by fastforce
    have ids: "map row_id rest = map row_id rows"
      using claim_rows_ids [of now until m rows] rec by simp
    then have rest_ids: "row_id ` set rest = row_id ` set rows"
      by (metis list.set_map)
    have cl_ids: "om_id ` set cl \<subseteq> row_id ` set rows"
      using claim_rows_claimed [of now until m rows] rec by (auto dest!: in_set_takeD)
    have IH: "row \<in> set rest \<Longrightarrow> row_id row \<notin> om_id ` set cl"
      using 2 n rec by (cases "claimable now r") (auto simp: m_def)
    show ?thesis
    proof (cases "claimable now r")
      case True
      then have eq: "claim_rows now until n (r # rows)
          = (row_message r # cl, r\<lparr>row_leased_until := Some until\<rparr> # rest)"
        using n rec by (simp add: m_def)
      have "\<not> claimable now' (r\<lparr>row_leased_until := Some until\<rparr>)"
        using \<open>now' < until\<close> by (simp add: claimable_def)
      with 2(5) [unfolded eq] 2(6) have "row \<in> set rest"
        by auto
      moreover have "row_id row \<noteq> row_id r"
        using imageI [OF calculation, of row_id] rest_ids 2(3) by auto
      ultimately show ?thesis
        unfolding eq using IH by simp
    next
      case False
      then have eq: "claim_rows now until n (r # rows) = (cl, r # rest)"
        using n rec by (simp add: m_def)
      show ?thesis
        using 2(3) 2(5) [unfolded eq] IH cl_ids unfolding eq by auto
    qed
  qed
qed simp

lemma claim_shape:
  assumes "claim from_std now limit lease st = (Inr msgs, st')"
  shows "msgs = take (unat limit) (map row_message (filter (claimable now) (outbox st)))"
  using assms claim_rows_claimed by (auto simp: claim_def split: sum.splits prod.splits) (metis fst_conv)

text \<open>
  What a claim returns: the first \<open>limit\<close> messages, in outbox order, that are unpublished and
  carry no lease in force; only leases change.
\<close>

theorem claim_exact:
  assumes "claim from_std now limit lease st = (Inr msgs, st')"
  shows "msgs = take (unat limit) (map row_message (filter (claimable now) (outbox st)))
    \<and> length msgs \<le> unat limit
    \<and> map row_message (outbox st') = map row_message (outbox st)
    \<and> st' = st\<lparr>outbox := outbox st'\<rparr>"
proof -
  obtain d where d: "from_std lease = Inr d"
    using assms by (auto simp: claim_def split: sum.splits)
  have "map row_message (snd (claim_rows now until n rows)) = map row_message rows" for until n rows
    by (induction now until n rows rule: claim_rows.induct) (auto split: prod.splits)
  then show ?thesis
    using assms claim_shape [OF assms] by (auto simp: claim_def d split: prod.splits) (metis snd_conv)
qed

text \<open>
  Leases exclude each other.  If one relay claims messages from a reachable state and another
  claims before the first lease expires, the two sets of messages are disjoint.
\<close>

theorem claim_disjoint:
  assumes "mem_reach sh st" and "length (outbox st) < 2 ^ 63"
    and "claim from_std now limit lease st = (Inr msgs, st')" and "from_std lease = Inr d"
    and "claim from_std now' limit' lease' st' = (Inr msgs', st'')" and "now' < now + d"
  shows "om_id ` set msgs \<inter> om_id ` set msgs' = {}"
proof -
  have "map (\<lambda>row. sint (om_id (row_message row))) (outbox st) = map int [1 ..< Suc (length (outbox st))]"
    by (rule reachable_ids [OF assms(1,2)])
  then have "distinct (map sint (map row_id (outbox st)))"
    by (simp add: comp_def distinct_map)
  then have dist: "distinct (map row_id (outbox st))"
    by (simp only: distinct_map)
  have st': "claim_rows now (now + d) (unat limit) (outbox st) = (msgs, outbox st')"
    using assms(3,4) by (auto simp: claim_def split: prod.splits)
  obtain d' where "from_std lease' = Inr d'"
    using assms(5) by (auto simp: claim_def split: sum.splits)
  then have "msgs' = fst (claim_rows now' (now' + d') (unat limit') (outbox st'))"
    using assms(5) by (auto simp: claim_def split: prod.splits)
  then have rows: "\<exists>row \<in> set (outbox st'). claimable now' row \<and> m = row_message row" if "m \<in> set msgs'" for m
    using that by (auto simp: claim_rows_claimed dest!: in_set_takeD)
  have leased: "row_id row \<notin> om_id ` set msgs"
    if "row \<in> set (outbox st')" "claimable now' row" for row
    using claim_rows_leased [OF dist assms(6), of row now "unat limit"] that by (simp add: st')
  have new: "om_id m \<notin> om_id ` set msgs" if "m \<in> set msgs'" for m
    using rows [OF that] leased by blast
  show ?thesis
  proof (rule equals0I)
    fix x
    assume "x \<in> om_id ` set msgs \<inter> om_id ` set msgs'"
    then have "x \<in> om_id ` set msgs" and "x \<in> om_id ` set msgs'"
      by (rule IntD1, rule IntD2)
    then obtain m where "m \<in> set msgs'" "x = om_id m"
      by (elim imageE)
    with new \<open>x \<in> om_id ` set msgs\<close> show False
      by simp
  qed
qed

definition ex_msgs :: "OutboxMessage list" where
  "ex_msgs = map row_message (outbox ex_state)"

definition ex_claimed :: State where
  "ex_claimed = snd (claim Inr 100 10 50 ex_state)"

lemma ex_claim: "claim Inr 100 10 50 ex_state = (Inr ex_msgs, ex_claimed)"
proof -
  have "fst (claim Inr 100 10 50 ex_state) = Inr ex_msgs"
    by code_simp
  then show ?thesis
    by (simp add: ex_claimed_def prod_eq_iff)
qed

lemma ex_claim_again: "claim Inr 120 10 50 ex_claimed = (Inr [], snd (claim Inr 120 10 50 ex_claimed))"
proof -
  have "fst (claim Inr 120 10 50 ex_claimed) = Inr []"
    by code_simp
  then show ?thesis
    by (simp add: prod_eq_iff)
qed

theorem claim_exact_witness:
  "ex_msgs = take (unat (10 :: u32)) (map row_message (filter (claimable 100) (outbox ex_state)))
    \<and> length ex_msgs \<le> unat (10 :: u32)
    \<and> map row_message (outbox ex_claimed) = map row_message (outbox ex_state)
    \<and> ex_claimed = ex_state\<lparr>outbox := outbox ex_claimed\<rparr>"
  by (rule claim_exact [OF ex_claim])

theorem claim_disjoint_witness:
  "length ex_msgs = 1 \<and> om_id ` set ex_msgs \<inter> om_id ` set ([] :: OutboxMessage list) = {}"
proof -
  have len: "length (outbox ex_state) = 1"
    by code_simp
  then have "length (outbox ex_state) < 2 ^ 63"
    by simp
  then show ?thesis
    using claim_disjoint [OF ex_reach _ ex_claim _ ex_claim_again] len by (simp add: ex_msgs_def)
qed

section \<open>Publication\<close>

text \<open>
  C32. Publication is final.  After \<open>mark_published ids\<close> every row with one of these ids is
  published, other rows and all leases on them are untouched, and no claim, at whatever time,
  hands out one of these ids again.
\<close>

theorem mark_published_final:
  assumes "claim from_std now' limit lease (snd (mark_published now ids st)) = (Inr msgs, st')"
  shows "om_id ` set msgs \<inter> set ids = {}
    \<and> filter (\<lambda>row. row_id row \<notin> set ids) (outbox (snd (mark_published now ids st)))
        = filter (\<lambda>row. row_id row \<notin> set ids) (outbox st)"
proof
  have "\<not> claimable now' row"
    if "row \<in> set (outbox (snd (mark_published now ids st)))" "row_id row \<in> set ids" for row
    using that
    by (auto simp: claimable_def mark_published_def publishes_def publish_row_def split: if_splits)
  moreover have "set msgs \<subseteq> row_message `
      {row \<in> set (outbox (snd (mark_published now ids st))). claimable now' row}"
    using claim_shape [OF assms] by (auto dest!: in_set_takeD)
  ultimately show "om_id ` set msgs \<inter> set ids = {}"
    by blast
next
  show "filter (\<lambda>row. row_id row \<notin> set ids) (outbox (snd (mark_published now ids st)))
      = filter (\<lambda>row. row_id row \<notin> set ids) (outbox st)"
  proof -
    have "filter (\<lambda>row. row_id row \<notin> set ids)
        (map (\<lambda>row. if publishes ids row then publish_row now row else row) rows)
      = filter (\<lambda>row. row_id row \<notin> set ids) rows" for rows
      by (induction rows) (auto simp: publishes_def publish_row_def)
    then show ?thesis
      by (simp add: mark_published_def)
  qed
qed

lemma ex_claim_published:
  "claim Inr 200 10 50 (snd (mark_published 60 [1] ex_state))
     = (Inr [], snd (claim Inr 200 10 50 (snd (mark_published 60 [1] ex_state))))"
proof -
  have "fst (claim Inr 200 10 50 (snd (mark_published 60 [1] ex_state))) = Inr []"
    by code_simp
  then show ?thesis
    by (simp add: prod_eq_iff)
qed

theorem mark_published_final_witness:
  "om_id ` set ([] :: OutboxMessage list) \<inter> set [1] = {}
    \<and> filter (\<lambda>row. row_id row \<notin> set [1]) (outbox (snd (mark_published 60 [1] ex_state)))
        = filter (\<lambda>row. row_id row \<notin> set [1]) (outbox ex_state)"
  by (rule mark_published_final [OF ex_claim_published])

end
