(* ===== verification/Service.thy ===== *)
theory Service
  imports Command
begin

text \<open>
  \<open>crates/ledger/src/service.rs\<close>: the command handlers.  A handler awaits port calls and other
  handlers run in between, so it is a tree of calls, \<open>prog\<close>: each node is one port call with
  the continuation for every reply, a leaf is the handler's result.  \<open>exec\<close> runs a handler
  alone against an implementation of the ports; \<open>prog_step\<close> executes its next call only.
\<close>

section \<open>Handlers as trees of port calls\<close>

datatype 'a prog =
    Done 'a
  | IdemFind string IdempotencyKey "LedgerError + IdempotencyRecord option \<Rightarrow> 'a prog"
  | AccFind AccountId "LedgerError + Account option \<Rightarrow> 'a prog"
  | AccFindByName string "LedgerError + Account option \<Rightarrow> 'a prog"
  | AccLoadMany "AccountId list" "LedgerError + Account list \<Rightarrow> 'a prog"
  | AccList Page "LedgerError + Account list \<Rightarrow> 'a prog"
  | AccCreate AccountCommit "LedgerError + CommitOutcome \<Rightarrow> 'a prog"
  | LedCommit JournalCommit "LedgerError + CommitOutcome \<Rightarrow> 'a prog"
  | LedFindEntry TransactionId "LedgerError + JournalEntry option \<Rightarrow> 'a prog"
  | LedListEntries AccountId Page "LedgerError + JournalEntry list \<Rightarrow> 'a prog"
  | BalGet AccountId AssetCode "LedgerError + BalanceRecord option \<Rightarrow> 'a prog"
  | BalListFor AccountId "LedgerError + BalanceRecord list \<Rightarrow> 'a prog"
  | OutStats "LedgerError + OutboxStats \<Rightarrow> 'a prog"
  | OutPending Page "LedgerError + OutboxMessage list \<Rightarrow> 'a prog"

text \<open>The \<open>?\<close> after an awaited call: an error ends the handler.\<close>

fun on_ok :: "('a \<Rightarrow> ('e + 'r) prog) \<Rightarrow> 'e + 'a \<Rightarrow> ('e + 'r) prog" where
  "on_ok k (Inl e) = Done (Inl e)"
| "on_ok k (Inr a) = k a"

text \<open>An implementation of the ports over a state \<open>'s\<close>.\<close>

record 's ports =
  pt_idem_find :: "string \<Rightarrow> IdempotencyKey \<Rightarrow> 's \<Rightarrow> (LedgerError + IdempotencyRecord option) \<times> 's"
  pt_acc_find :: "AccountId \<Rightarrow> 's \<Rightarrow> (LedgerError + Account option) \<times> 's"
  pt_acc_find_by_name :: "string \<Rightarrow> 's \<Rightarrow> (LedgerError + Account option) \<times> 's"
  pt_acc_load_many :: "AccountId list \<Rightarrow> 's \<Rightarrow> (LedgerError + Account list) \<times> 's"
  pt_acc_list :: "Page \<Rightarrow> 's \<Rightarrow> (LedgerError + Account list) \<times> 's"
  pt_acc_create :: "AccountCommit \<Rightarrow> 's \<Rightarrow> (LedgerError + CommitOutcome) \<times> 's"
  pt_commit :: "JournalCommit \<Rightarrow> 's \<Rightarrow> (LedgerError + CommitOutcome) \<times> 's"
  pt_find_entry :: "TransactionId \<Rightarrow> 's \<Rightarrow> (LedgerError + JournalEntry option) \<times> 's"
  pt_list_entries :: "AccountId \<Rightarrow> Page \<Rightarrow> 's \<Rightarrow> (LedgerError + JournalEntry list) \<times> 's"
  pt_bal_get :: "AccountId \<Rightarrow> AssetCode \<Rightarrow> 's \<Rightarrow> (LedgerError + BalanceRecord option) \<times> 's"
  pt_bal_list_for :: "AccountId \<Rightarrow> 's \<Rightarrow> (LedgerError + BalanceRecord list) \<times> 's"
  pt_stats :: "'s \<Rightarrow> (LedgerError + OutboxStats) \<times> 's"
  pt_pending :: "Page \<Rightarrow> 's \<Rightarrow> (LedgerError + OutboxMessage list) \<times> 's"

fun prog_step :: "'s ports \<Rightarrow> 'a prog \<Rightarrow> 's \<Rightarrow> 'a prog \<times> 's" where
  "prog_step P (Done a) s = (Done a, s)"
| "prog_step P (IdemFind scope key k) s = map_prod k id (pt_idem_find P scope key s)"
| "prog_step P (AccFind i k) s = map_prod k id (pt_acc_find P i s)"
| "prog_step P (AccFindByName n k) s = map_prod k id (pt_acc_find_by_name P n s)"
| "prog_step P (AccLoadMany is k) s = map_prod k id (pt_acc_load_many P is s)"
| "prog_step P (AccList page k) s = map_prod k id (pt_acc_list P page s)"
| "prog_step P (AccCreate c k) s = map_prod k id (pt_acc_create P c s)"
| "prog_step P (LedCommit c k) s = map_prod k id (pt_commit P c s)"
| "prog_step P (LedFindEntry i k) s = map_prod k id (pt_find_entry P i s)"
| "prog_step P (LedListEntries i page k) s = map_prod k id (pt_list_entries P i page s)"
| "prog_step P (BalGet i a k) s = map_prod k id (pt_bal_get P i a s)"
| "prog_step P (BalListFor i k) s = map_prod k id (pt_bal_list_for P i s)"
| "prog_step P (OutStats k) s = map_prod k id (pt_stats P s)"
| "prog_step P (OutPending page k) s = map_prod k id (pt_pending P page s)"

primrec exec :: "'s ports \<Rightarrow> 'a prog \<Rightarrow> 's \<Rightarrow> 'a \<times> 's" where
  "exec P (Done a) s = (a, s)"
| "exec P (IdemFind scope key k) s =
     (case pt_idem_find P scope key s of (r, s') \<Rightarrow> exec P (k r) s')"
| "exec P (AccFind i k) s = (case pt_acc_find P i s of (r, s') \<Rightarrow> exec P (k r) s')"
| "exec P (AccFindByName n k) s = (case pt_acc_find_by_name P n s of (r, s') \<Rightarrow> exec P (k r) s')"
| "exec P (AccLoadMany is k) s = (case pt_acc_load_many P is s of (r, s') \<Rightarrow> exec P (k r) s')"
| "exec P (AccList page k) s = (case pt_acc_list P page s of (r, s') \<Rightarrow> exec P (k r) s')"
| "exec P (AccCreate c k) s = (case pt_acc_create P c s of (r, s') \<Rightarrow> exec P (k r) s')"
| "exec P (LedCommit c k) s = (case pt_commit P c s of (r, s') \<Rightarrow> exec P (k r) s')"
| "exec P (LedFindEntry i k) s = (case pt_find_entry P i s of (r, s') \<Rightarrow> exec P (k r) s')"
| "exec P (LedListEntries i page k) s =
     (case pt_list_entries P i page s of (r, s') \<Rightarrow> exec P (k r) s')"
| "exec P (BalGet i a k) s = (case pt_bal_get P i a s of (r, s') \<Rightarrow> exec P (k r) s')"
| "exec P (BalListFor i k) s = (case pt_bal_list_for P i s of (r, s') \<Rightarrow> exec P (k r) s')"
| "exec P (OutStats k) s = (case pt_stats P s of (r, s') \<Rightarrow> exec P (k r) s')"
| "exec P (OutPending page k) s = (case pt_pending P page s of (r, s') \<Rightarrow> exec P (k r) s')"

text \<open>
  \<open>exec_at\<close> runs a handler whose calls do not meet the same conditions: \<open>P m\<close> is what its call number
  \<open>m\<close> finds, with its own clock and its own failures.
\<close>

primrec exec_at :: "(nat \<Rightarrow> 's ports) \<Rightarrow> nat \<Rightarrow> 'a prog \<Rightarrow> 's \<Rightarrow> 'a \<times> 's" where
  "exec_at P m (Done a) s = (a, s)"
| "exec_at P m (IdemFind scope key k) s =
     (case pt_idem_find (P m) scope key s of (r, s') \<Rightarrow> exec_at P (Suc m) (k r) s')"
| "exec_at P m (AccFind i k) s =
     (case pt_acc_find (P m) i s of (r, s') \<Rightarrow> exec_at P (Suc m) (k r) s')"
| "exec_at P m (AccFindByName n k) s =
     (case pt_acc_find_by_name (P m) n s of (r, s') \<Rightarrow> exec_at P (Suc m) (k r) s')"
| "exec_at P m (AccLoadMany is k) s =
     (case pt_acc_load_many (P m) is s of (r, s') \<Rightarrow> exec_at P (Suc m) (k r) s')"
| "exec_at P m (AccList page k) s =
     (case pt_acc_list (P m) page s of (r, s') \<Rightarrow> exec_at P (Suc m) (k r) s')"
| "exec_at P m (AccCreate c k) s =
     (case pt_acc_create (P m) c s of (r, s') \<Rightarrow> exec_at P (Suc m) (k r) s')"
| "exec_at P m (LedCommit c k) s =
     (case pt_commit (P m) c s of (r, s') \<Rightarrow> exec_at P (Suc m) (k r) s')"
| "exec_at P m (LedFindEntry i k) s =
     (case pt_find_entry (P m) i s of (r, s') \<Rightarrow> exec_at P (Suc m) (k r) s')"
| "exec_at P m (LedListEntries i page k) s =
     (case pt_list_entries (P m) i page s of (r, s') \<Rightarrow> exec_at P (Suc m) (k r) s')"
| "exec_at P m (BalGet i a k) s =
     (case pt_bal_get (P m) i a s of (r, s') \<Rightarrow> exec_at P (Suc m) (k r) s')"
| "exec_at P m (BalListFor i k) s =
     (case pt_bal_list_for (P m) i s of (r, s') \<Rightarrow> exec_at P (Suc m) (k r) s')"
| "exec_at P m (OutStats k) s =
     (case pt_stats (P m) s of (r, s') \<Rightarrow> exec_at P (Suc m) (k r) s')"
| "exec_at P m (OutPending page k) s =
     (case pt_pending (P m) page s of (r, s') \<Rightarrow> exec_at P (Suc m) (k r) s')"

lemma exec_at_const: "exec_at (\<lambda>_. P) m p s = exec P p s"
  by (induction p arbitrary: m s) (auto split: prod.splits)

lemma exec_at_map: "exec_at P m (map_prog f p) s = map_prod f id (exec_at P m p s)"
  by (induction p arbitrary: m s) (auto split: prod.splits)

section \<open>Responses and what handlers take from outside\<close>

record 'v Outcome =
  oc_value :: 'v
  oc_replayed :: bool

definition outcome_fresh :: "'v \<Rightarrow> 'v Outcome" where
  "outcome_fresh v = \<lparr>oc_value = v, oc_replayed = False\<rparr>"

definition outcome_replayed :: "'v \<Rightarrow> 'v Outcome" where
  "outcome_replayed v = \<lparr>oc_value = v, oc_replayed = True\<rparr>"

record AccountCreated =
  cr_account :: Account

record EntryPosted =
  ep_transaction_id :: TransactionId
  ep_description :: string
  ep_posted_at :: datetime

text \<open>Third-party code: UUID printing, hashing, and the derived JSON codecs.\<close>

record codec =
  cx_uuid_show :: "uuid \<Rightarrow> string"
  cx_hash :: hash_env
  cx_ser_command :: "Command \<Rightarrow> string + Value"
  cx_ser_created :: "AccountCreated \<Rightarrow> string + Value"
  cx_de_created :: "Value \<Rightarrow> string + AccountCreated"
  cx_ser_posted :: "EntryPosted \<Rightarrow> string + Value"
  cx_de_posted :: "Value \<Rightarrow> string + EntryPosted"

text \<open>The UUIDs and times drawn while one request is handled.\<close>

record draws =
  dr_id :: uuid
  dr_id_now :: datetime
  dr_event :: "nat \<Rightarrow> uuid"
  dr_event_now :: "nat \<Rightarrow> datetime"
  dr_record_now :: datetime
  dr_audit_now :: datetime

definition MAX_REFERENCE_LEN :: nat where "MAX_REFERENCE_LEN = 256"
definition MAX_ACCOUNT_NAME_LEN :: nat where "MAX_ACCOUNT_NAME_LEN = 128"
definition MAX_DESCRIPTION_LEN :: nat where "MAX_DESCRIPTION_LEN = 512"

section \<open>Internals\<close>

definition annotate :: "JournalEntry \<Rightarrow> string option \<Rightarrow> LedgerError + JournalEntry" where
  "annotate entry reference =
     (case (case map_option trim reference of None \<Rightarrow> None | Some r \<Rightarrow> if r \<noteq> [] then Some r else None) of
        None \<Rightarrow> Inr entry
      | Some r \<Rightarrow>
          if length r > MAX_REFERENCE_LEN
          then Inl (Validation (''reference must not exceed '' @ show_nat MAX_REFERENCE_LEN @ '' characters''))
          else Inr (entry\<lparr>je_description := je_description entry @ '': '' @ r\<rparr>))"

definition validated_description :: "string \<Rightarrow> LedgerError + string" where
  "validated_description description =
     (let d = trim description
      in if d = [] \<or> length d > MAX_DESCRIPTION_LEN
         then Inl (Validation (''description must be 1..='' @ show_nat MAX_DESCRIPTION_LEN @ '' characters''))
         else Inr d)"

definition require_record ::
    "string \<Rightarrow> IdempotencyKey \<Rightarrow> (IdempotencyRecord \<Rightarrow> (LedgerError + 'r) prog) \<Rightarrow> (LedgerError + 'r) prog" where
  "require_record scope key k =
     IdemFind scope key (on_ok (\<lambda>r. case r of
        None \<Rightarrow> Done (Inl (Storage ''idempotency row vanished between commit and read''))
      | Some record \<Rightarrow> k record))"

text \<open>\<open>Ok(Outcome::replayed(record.replay(&hash)?))\<close>.\<close>

definition replay_done ::
    "(Value \<Rightarrow> string + 'v) \<Rightarrow> RequestHash \<Rightarrow> IdempotencyRecord \<Rightarrow> (LedgerError + 'v Outcome) prog" where
  "replay_done from_value hash record =
     Done (and_then (replay from_value record hash) (\<lambda>v. Inr (outcome_replayed v)))"

type_synonym delta_map = "((uuid \<times> AssetCode) \<times> AtomicAmount) list"

definition delta_step :: "Posting \<Rightarrow> delta_map \<Rightarrow> DomainError + delta_map" where
  "delta_step posting deltas =
     (let k = (account_uuid (p_account_id posting), p_asset posting)
      in and_then (checked_add (or_zero (map_of deltas k)) (p_amount posting))
           (\<lambda>v. Inr (bt_insert k v deltas)))"

text \<open>\<open>Vec::dedup\<close>: consecutive duplicates only.\<close>

definition guard_ids :: "delta_map \<Rightarrow> AccountId list" where
  "guard_ids deltas = map AccountId (remdups_adj (map (\<lambda>(k, _). fst k) deltas))"

fun guard_accounts ::
    "(uuid \<Rightarrow> string) \<Rightarrow> (uuid \<times> Account) list \<Rightarrow> AccountId list \<Rightarrow> LedgerError + unit" where
  "guard_accounts uuid_show accts [] = Inr ()"
| "guard_accounts uuid_show accts (i # is) =
     (case map_of accts (account_uuid i) of
        None \<Rightarrow> Inl (NotFound ''account'' (AccountId_display uuid_show i))
      | Some account \<Rightarrow>
          if \<not> is_active account
          then Inl (Domain (AccountNotActive (AccountId_display uuid_show i)
                 (status_as_str (acc_status account))))
          else guard_accounts uuid_show accts is)"

text \<open>
  The indexing \<open>accounts[&uuid]\<close> panics on a missing key; the ids have been checked before, so the
  branch is unreachable and its value here is immaterial.
\<close>

fun guard_deltas ::
    "(uuid \<Rightarrow> string) \<Rightarrow> (uuid \<times> Account) list \<Rightarrow> delta_map
      \<Rightarrow> (LedgerError + 'r) prog \<Rightarrow> (LedgerError + 'r) prog" where
  "guard_deltas uuid_show accts [] k = k"
| "guard_deltas uuid_show accts (((uid, asset), delta) # deltas) k =
     (if \<not> is_negative delta then guard_deltas uuid_show accts deltas k
      else case map_of accts uid of
        None \<Rightarrow> Done (Inl (Storage ''index out of bounds''))
      | Some account \<Rightarrow>
          if acc_policy account = AllowNegative then guard_deltas uuid_show accts deltas k
          else BalGet (AccountId uid) asset (on_ok (\<lambda>r.
            let balance = (case r of None \<Rightarrow> ZERO | Some record \<Rightarrow> br_amount record)
            in case checked_add balance delta of
                 Inl e \<Rightarrow> Done (Inl (Domain e))
               | Inr b \<Rightarrow>
                   if is_negative b
                   then Done (Inl (Domain (InsufficientBalance
                          (AccountId_display uuid_show (AccountId uid)) (code_str asset)
                          (raw balance) (raw delta))))
                   else guard_deltas uuid_show accts deltas k)))"

definition guard_postings ::
    "(uuid \<Rightarrow> string) \<Rightarrow> JournalEntry \<Rightarrow> (LedgerError + 'r) prog \<Rightarrow> (LedgerError + 'r) prog" where
  "guard_postings uuid_show entry k =
     (case try_fold delta_step (je_postings entry) [] of
        Inl e \<Rightarrow> Done (Inl (Domain e))
      | Inr deltas \<Rightarrow>
          let ids = guard_ids deltas
          in AccLoadMany ids (on_ok (\<lambda>loaded.
            let accts = fold (\<lambda>account m. AList.update (account_uuid (acc_id account)) account m) loaded []
            in case guard_accounts uuid_show accts ids of
                 Inl e \<Rightarrow> Done (Inl e)
               | Inr _ \<Rightarrow> guard_deltas uuid_show accts deltas k)))"

text \<open>The events of an entry: \<open>JournalPosted\<close> first, then the extra payloads.\<close>

definition entry_events :: "codec \<Rightarrow> draws \<Rightarrow> JournalEntry \<Rightarrow> LedgerEventPayload list \<Rightarrow> LedgerEvent list" where
  "entry_events cx dr entry extra =
     (let aggregate_id = TransactionId_display (cx_uuid_show cx) (je_id entry)
      in map (\<lambda>(i, payload). wrap_event (dr_event dr i) (dr_event_now dr i) aggregate_id None
                (je_correlation_id entry) (je_causation_id entry) [] payload)
           (enumerate 0 (JournalPosted entry # extra)))"

definition entry_response :: "JournalEntry \<Rightarrow> EntryPosted" where
  "entry_response entry =
     \<lparr>ep_transaction_id = je_id entry, ep_description = je_description entry,
      ep_posted_at = je_created_at entry\<rparr>"

definition commit_entry ::
    "codec \<Rightarrow> draws \<Rightarrow> string \<Rightarrow> IdempotencyKey \<Rightarrow> RequestHash \<Rightarrow> JournalEntry
      \<Rightarrow> LedgerEventPayload list \<Rightarrow> (LedgerError + EntryPosted Outcome) prog" where
  "commit_entry cx dr scope key hash entry extra =
     (let response = entry_response entry
      in case IdempotencyRecord_new (dr_record_now dr) (cx_ser_posted cx) scope key hash response of
           Inl e \<Rightarrow> Done (Inl e)
         | Inr record \<Rightarrow>
             LedCommit \<lparr>jc_entry = entry, jc_events = entry_events cx dr entry extra,
                        jc_idempotency = record\<rparr>
               (on_ok (\<lambda>outcome. case outcome of
                  Committed \<Rightarrow> Done (Inr (outcome_fresh response))
                | DuplicateIdempotencyKey \<Rightarrow>
                    require_record scope key (replay_done (cx_de_posted cx) hash))))"

definition post_entry ::
    "codec \<Rightarrow> draws \<Rightarrow> Command \<Rightarrow> (LedgerError + JournalEntry \<times> LedgerEventPayload list)
      \<Rightarrow> (LedgerError + EntryPosted Outcome) prog" where
  "post_entry cx dr command build =
     (let scope = command_scope command;
          key = cm_idempotency_key (command_meta command)
      in case fingerprint (cx_hash cx) (cx_ser_command cx) command of
           Inl e \<Rightarrow> Done (Inl e)
         | Inr hash \<Rightarrow>
             IdemFind scope key (on_ok (\<lambda>found. case found of
               Some record \<Rightarrow> replay_done (cx_de_posted cx) hash record
             | None \<Rightarrow>
                 (case build of
                    Inl e \<Rightarrow> Done (Inl e)
                  | Inr (entry, extra) \<Rightarrow>
                      guard_postings (cx_uuid_show cx) entry
                        (commit_entry cx dr scope key hash entry extra)))))"

section \<open>Commands\<close>

definition create_account ::
    "codec \<Rightarrow> draws \<Rightarrow> CreateAccountCommand \<Rightarrow> (LedgerError + AccountCreated Outcome) prog" where
  "create_account cx dr command =
     (let scope = command_scope (CreateAccount command);
          key = cm_idempotency_key (ca_meta command)
      in case fingerprint (cx_hash cx) (cx_ser_command cx) (CreateAccount command) of
           Inl e \<Rightarrow> Done (Inl e)
         | Inr hash \<Rightarrow>
             IdemFind scope key (on_ok (\<lambda>found. case found of
               Some record \<Rightarrow> replay_done (cx_de_created cx) hash record
             | None \<Rightarrow>
                 (let aname = trim (ca_name command)
                  in if aname = [] \<or> length aname > MAX_ACCOUNT_NAME_LEN
                     then Done (Inl (Validation (''account name must be 1..=''
                            @ show_nat MAX_ACCOUNT_NAME_LEN @ '' characters'')))
                     else AccFindByName aname (on_ok (\<lambda>existing.
                       if existing \<noteq> None
                       then Done (Inl (Conflict (''account name '' @ [CHR 0x27] @ aname
                              @ [CHR 0x27] @ '' is already taken'')))
                       else
                         let account = Account_new (dr_id_now dr) (AccountId (dr_id dr)) aname
                               (ca_kind command) (ca_policy command);
                             response = \<lparr>cr_account = account\<rparr>;
                             event = wrap_event (dr_event dr 0) (dr_event_now dr 0)
                               (AccountId_display (cx_uuid_show cx) (acc_id account)) None
                               (cm_correlation_id (ca_meta command))
                               (cm_causation_id (ca_meta command)) []
                               (AccountCreatedP (acc_id account) (acc_name account))
                         in case IdempotencyRecord_new (dr_record_now dr) (cx_ser_created cx)
                                   scope key hash response of
                              Inl e \<Rightarrow> Done (Inl e)
                            | Inr record \<Rightarrow>
                                AccCreate \<lparr>ac_account = account, ac_events = [event],
                                           ac_idempotency = record\<rparr>
                                  (on_ok (\<lambda>outcome. case outcome of
                                     Committed \<Rightarrow> Done (Inr (outcome_fresh response))
                                   | DuplicateIdempotencyKey \<Rightarrow>
                                       require_record scope key
                                         (replay_done (cx_de_created cx) hash)))))))))"

text \<open>The closures passed to \<open>post_entry\<close>; \<open>from_domain\<close> is \<open>LedgerError::from\<close>.\<close>

definition from_domain :: "DomainError + 'a \<Rightarrow> LedgerError + 'a" where
  "from_domain r = map_err Domain r"

definition build_submit ::
    "draws \<Rightarrow> SubmitJournalCommand \<Rightarrow> LedgerError + JournalEntry \<times> LedgerEventPayload list" where
  "build_submit dr cmd =
     and_then (validated_description (sj_description cmd)) (\<lambda>description.
     and_then (collect_results (map (\<lambda>input. from_domain
         (Posting_new (pi_account_id input) (pi_asset input) (pi_amount input))) (sj_postings cmd)))
       (\<lambda>postings.
     and_then (from_domain (JournalEntry_new (dr_id_now dr) (TransactionId (dr_id dr))
         (cm_idempotency_key (sj_meta cmd)) description postings
         (cm_correlation_id (sj_meta cmd)) (cm_causation_id (sj_meta cmd)))) (\<lambda>entry.
       Inr (entry, []))))"

definition build_deposit ::
    "draws \<Rightarrow> RecordDepositCommand \<Rightarrow> LedgerError + JournalEntry \<times> LedgerEventPayload list" where
  "build_deposit dr cmd =
     and_then (from_domain (ConfirmedDeposit_into_entry (dr_id dr) (dr_id_now dr)
       \<lparr>cd_idempotency_key = cm_idempotency_key (rd_meta cmd),
        cd_customer_available = rd_customer_available cmd,
        cd_deposit_clearing = rd_deposit_clearing cmd, cd_hot_wallet = rd_hot_wallet cmd,
        cd_asset = rd_asset cmd, cd_amount = rd_amount cmd,
        cd_correlation_id = cm_correlation_id (rd_meta cmd),
        cd_causation_id = cm_causation_id (rd_meta cmd)\<rparr>)) (\<lambda>entry.
     and_then (annotate entry (rd_external_reference cmd)) (\<lambda>entry. Inr (entry, [])))"

definition build_request ::
    "draws \<Rightarrow> RequestWithdrawalCommand \<Rightarrow> LedgerError + JournalEntry \<times> LedgerEventPayload list" where
  "build_request dr cmd =
     and_then (from_domain (WithdrawalRequest_into_entry (dr_id dr) (dr_id_now dr)
       \<lparr>wr_idempotency_key = cm_idempotency_key (rw_meta cmd),
        wr_customer_available = rw_customer_available cmd,
        wr_customer_locked = rw_customer_locked cmd,
        wr_asset = rw_asset cmd, wr_amount = rw_amount cmd,
        wr_correlation_id = cm_correlation_id (rw_meta cmd),
        wr_causation_id = cm_causation_id (rw_meta cmd)\<rparr>)) (\<lambda>entry.
     and_then (annotate entry (rw_destination_reference cmd)) (\<lambda>entry. Inr (entry, [])))"

definition build_completion ::
    "draws \<Rightarrow> CompleteWithdrawalCommand \<Rightarrow> LedgerError + JournalEntry \<times> LedgerEventPayload list" where
  "build_completion dr cmd =
     and_then (from_domain (WithdrawalCompletion_into_entry (dr_id dr) (dr_id_now dr)
       \<lparr>wc_idempotency_key = cm_idempotency_key (cw_meta cmd),
        wc_customer_locked = cw_customer_locked cmd,
        wc_withdrawal_clearing = cw_withdrawal_clearing cmd, wc_hot_wallet = cw_hot_wallet cmd,
        wc_asset = cw_asset cmd, wc_amount = cw_amount cmd,
        wc_correlation_id = cm_correlation_id (cw_meta cmd),
        wc_causation_id = cm_causation_id (cw_meta cmd)\<rparr>)) (\<lambda>entry.
     and_then (annotate entry (cw_settlement_reference cmd)) (\<lambda>entry. Inr (entry, [])))"

definition build_rejection ::
    "draws \<Rightarrow> RejectWithdrawalCommand \<Rightarrow> LedgerError + JournalEntry \<times> LedgerEventPayload list" where
  "build_rejection dr cmd =
     (let reason = trim (jw_reason cmd)
      in if reason = [] then Inl (Validation ''withdrawal rejection requires a reason'')
         else
           and_then (from_domain (WithdrawalRejection_into_entry (dr_id dr) (dr_id_now dr)
             \<lparr>wj_idempotency_key = cm_idempotency_key (jw_meta cmd),
              wj_customer_locked = jw_customer_locked cmd,
              wj_customer_available = jw_customer_available cmd,
              wj_asset = jw_asset cmd, wj_amount = jw_amount cmd,
              wj_correlation_id = cm_correlation_id (jw_meta cmd),
              wj_causation_id = cm_causation_id (jw_meta cmd)\<rparr>)) (\<lambda>entry.
           and_then (annotate entry (Some reason)) (\<lambda>entry. Inr (entry, []))))"

definition build_trade ::
    "draws \<Rightarrow> RecordTradeSettlementCommand \<Rightarrow> LedgerError + JournalEntry \<times> LedgerEventPayload list" where
  "build_trade dr cmd =
     (if rt_base_asset cmd = rt_quote_asset cmd
      then Inl (Validation ''trade settlement requires two distinct assets'')
      else if rt_buyer_available cmd = rt_seller_available cmd
      then Inl (Validation ''trade settlement requires two distinct accounts'')
      else
        and_then (from_domain (TradeSettlement_into_entry (dr_id dr) (dr_id_now dr)
          \<lparr>ts_idempotency_key = cm_idempotency_key (rt_meta cmd),
           ts_buyer_available = rt_buyer_available cmd, ts_seller_available = rt_seller_available cmd,
           ts_base_asset = rt_base_asset cmd, ts_base_amount = rt_base_amount cmd,
           ts_quote_asset = rt_quote_asset cmd, ts_quote_amount = rt_quote_amount cmd,
           ts_correlation_id = cm_correlation_id (rt_meta cmd),
           ts_causation_id = cm_causation_id (rt_meta cmd)\<rparr>)) (\<lambda>entry.
        and_then (annotate entry (rt_trade_reference cmd)) (\<lambda>entry. Inr (entry, []))))"

definition build_fee ::
    "draws \<Rightarrow> RecordTradingFeeCommand \<Rightarrow> LedgerError + JournalEntry \<times> LedgerEventPayload list" where
  "build_fee dr cmd =
     and_then (from_domain (TradingFee_into_entry (dr_id dr) (dr_id_now dr)
       \<lparr>tf_idempotency_key = cm_idempotency_key (rf_meta cmd),
        tf_customer_available = rf_customer_available cmd, tf_fee_revenue = rf_fee_revenue cmd,
        tf_asset = rf_asset cmd, tf_amount = rf_amount cmd,
        tf_correlation_id = cm_correlation_id (rf_meta cmd),
        tf_causation_id = cm_causation_id (rf_meta cmd)\<rparr>)) (\<lambda>entry. Inr (entry, []))"

definition build_adjustment ::
    "draws \<Rightarrow> RecordAdminAdjustmentCommand \<Rightarrow> LedgerError + JournalEntry \<times> LedgerEventPayload list" where
  "build_adjustment dr cmd =
     (if ra_from cmd = ra_to cmd then Inl (Validation ''adjustment requires two distinct accounts'')
      else
        and_then (from_domain (into_metadata (dr_audit_now dr) (ra_audit cmd))) (\<lambda>audit.
        and_then (from_domain (AdminAdjustment_into_entry (dr_id dr) (dr_id_now dr)
          \<lparr>aa_idempotency_key = cm_idempotency_key (ra_meta cmd),
           aa_from = ra_from cmd, aa_to = ra_to cmd, aa_asset = ra_asset cmd,
           aa_amount = ra_amount cmd, aa_audit = audit,
           aa_correlation_id = cm_correlation_id (ra_meta cmd),
           aa_causation_id = cm_causation_id (ra_meta cmd)\<rparr>)) (\<lambda>entry.
          Inr (entry, [AdminAdjusted (je_id entry) audit]))))"

definition submit_journal_entry :: "codec \<Rightarrow> draws \<Rightarrow> SubmitJournalCommand \<Rightarrow> (LedgerError + EntryPosted Outcome) prog" where
  "submit_journal_entry cx dr command = post_entry cx dr (SubmitJournal command) (build_submit dr command)"

definition record_deposit :: "codec \<Rightarrow> draws \<Rightarrow> RecordDepositCommand \<Rightarrow> (LedgerError + EntryPosted Outcome) prog" where
  "record_deposit cx dr command = post_entry cx dr (RecordDeposit command) (build_deposit dr command)"

definition request_withdrawal :: "codec \<Rightarrow> draws \<Rightarrow> RequestWithdrawalCommand \<Rightarrow> (LedgerError + EntryPosted Outcome) prog" where
  "request_withdrawal cx dr command = post_entry cx dr (RequestWithdrawal command) (build_request dr command)"

definition complete_withdrawal :: "codec \<Rightarrow> draws \<Rightarrow> CompleteWithdrawalCommand \<Rightarrow> (LedgerError + EntryPosted Outcome) prog" where
  "complete_withdrawal cx dr command =
     post_entry cx dr (CompleteWithdrawal command) (build_completion dr command)"

definition reject_withdrawal :: "codec \<Rightarrow> draws \<Rightarrow> RejectWithdrawalCommand \<Rightarrow> (LedgerError + EntryPosted Outcome) prog" where
  "reject_withdrawal cx dr command = post_entry cx dr (RejectWithdrawal command) (build_rejection dr command)"

definition record_trade_settlement ::
    "codec \<Rightarrow> draws \<Rightarrow> RecordTradeSettlementCommand \<Rightarrow> (LedgerError + EntryPosted Outcome) prog" where
  "record_trade_settlement cx dr command =
     post_entry cx dr (RecordTradeSettlement command) (build_trade dr command)"

definition record_trading_fee :: "codec \<Rightarrow> draws \<Rightarrow> RecordTradingFeeCommand \<Rightarrow> (LedgerError + EntryPosted Outcome) prog" where
  "record_trading_fee cx dr command = post_entry cx dr (RecordTradingFee command) (build_fee dr command)"

definition record_admin_adjustment ::
    "codec \<Rightarrow> draws \<Rightarrow> RecordAdminAdjustmentCommand \<Rightarrow> (LedgerError + EntryPosted Outcome) prog" where
  "record_admin_adjustment cx dr command =
     post_entry cx dr (RecordAdminAdjustment command) (build_adjustment dr command)"

section \<open>Queries\<close>

definition get_transaction :: "codec \<Rightarrow> TransactionId \<Rightarrow> (LedgerError + JournalEntry) prog" where
  "get_transaction cx i =
     LedFindEntry i (on_ok (\<lambda>r. Done (ok_or r
       (NotFound ''transaction'' (TransactionId_display (cx_uuid_show cx) i)))))"

definition get_balances ::
    "codec \<Rightarrow> AccountId \<Rightarrow> AssetCode option \<Rightarrow> (LedgerError + BalanceRecord list) prog" where
  "get_balances cx account_id asset =
     AccFind account_id (on_ok (\<lambda>found.
       if found = None
       then Done (Inl (NotFound ''account'' (AccountId_display (cx_uuid_show cx) account_id)))
       else case asset of
              Some a \<Rightarrow> BalGet account_id a (on_ok (\<lambda>r.
                Done (Inr (case r of None \<Rightarrow> [] | Some b \<Rightarrow> [b]))))
            | None \<Rightarrow> BalListFor account_id Done))"

definition list_account_entries_query ::
    "AccountId \<Rightarrow> Page \<Rightarrow> (LedgerError + JournalEntry list) prog" where
  "list_account_entries_query account_id page = LedListEntries account_id page Done"

definition find_account_query :: "AccountId \<Rightarrow> (LedgerError + Account option) prog" where
  "find_account_query i = AccFind i Done"

definition find_account_by_name_query :: "string \<Rightarrow> (LedgerError + Account option) prog" where
  "find_account_by_name_query n = AccFindByName n Done"

definition list_accounts_query :: "Page \<Rightarrow> (LedgerError + Account list) prog" where
  "list_accounts_query page = AccList page Done"

definition outbox_stats_query :: "(LedgerError + OutboxStats) prog" where
  "outbox_stats_query = OutStats Done"

definition pending_outbox_query :: "Page \<Rightarrow> (LedgerError + OutboxMessage list) prog" where
  "pending_outbox_query page = OutPending page Done"

end
