(* ===== verification/Service_Laws.thy ===== *)
theory Service_Laws
  imports Service Memory_Props
begin

text \<open>
  What the handlers of \<open>service.rs\<close> guarantee.  The interface \<open>ledger_ports\<close> states the laws the
  handlers rely on in a storage adapter; idempotent replay, conflict detection and the absence
  of effects on failure are proved against it, and the in-memory store satisfies it.
\<close>

section \<open>The in-memory store as an implementation of the ports\<close>

definition mem_ports :: "(uuid \<Rightarrow> string) \<Rightarrow> (int \<Rightarrow> i64) \<Rightarrow> datetime \<Rightarrow> State ports" where
  "mem_ports uuid_show num_seconds now =
     \<lparr>pt_idem_find = (\<lambda>scope key st. (Inr (find_idempotency scope key st), st)),
      pt_acc_find = (\<lambda>i st. (Inr (find_account i st), st)),
      pt_acc_find_by_name = (\<lambda>n st. (Inr (find_by_name n st), st)),
      pt_acc_load_many = (\<lambda>ids st. (Inr (load_many ids st), st)),
      pt_acc_list = (\<lambda>page st. (Inr (list_accounts page st), st)),
      pt_acc_create = create,
      pt_commit = commit uuid_show now,
      pt_find_entry = (\<lambda>i st. (Inr (find_entry i st), st)),
      pt_list_entries = (\<lambda>i page st. (Inr (list_account_entries i page st), st)),
      pt_bal_get = (\<lambda>i a st. (Inr (get_balance i a st), st)),
      pt_bal_list_for = (\<lambda>i st. (Inr (list_for_account i st), st)),
      pt_stats = (\<lambda>st. (Inr (outbox_stats num_seconds now st), st)),
      pt_pending = (\<lambda>page st. (Inr (pending page st), st))\<rparr>"

section \<open>The contract of the ports\<close>

text \<open>
  The reads of the posting handlers change nothing, whatever they answer.  \<open>P m\<close> serves call number
  \<open>m\<close>; calls may answer differently.
\<close>

locale quiet_reads =
  fixes P :: "nat \<Rightarrow> 's ports"
  assumes idem_read: "\<exists>r. pt_idem_find (P m) scope key s = (r, s)"
    and acc_load_many: "\<exists>r. pt_acc_load_many (P m) ids s = (r, s)"
    and bal_get: "\<exists>r. pt_bal_get (P m) i a s = (r, s)"
begin

lemma guard_deltas_run:
  obtains (pass) m' where "exec_at P m (guard_deltas sh accts deltas k) s = exec_at P m' k s"
    | (stop) e where "exec_at P m (guard_deltas sh accts deltas k) s = (Inl e, s)"
proof -
  have "(\<exists>m'. exec_at P m (guard_deltas sh accts deltas k) s = exec_at P m' k s)
      \<or> (\<exists>e. exec_at P m (guard_deltas sh accts deltas k) s = (Inl e, s))"
  proof (induction deltas arbitrary: m)
    case (Cons d deltas)
    obtain uid asset delta where d: "d = ((uid, asset), delta)"
      by (metis surj_pair)
    obtain r where "pt_bal_get (P m) (AccountId uid) asset s = (r, s)"
      using bal_get by blast
    with Cons [of m] Cons [of "Suc m"] show ?case
      by (cases r) (auto simp: d Let_def split: option.splits sum.splits)
  qed auto
  with that show thesis
    by blast
qed

lemma guard_postings_run:
  obtains (pass) m' where "exec_at P m (guard_postings sh entry k) s = exec_at P m' k s"
    | (stop) e where "exec_at P m (guard_postings sh entry k) s = (Inl e, s)"
proof (cases "try_fold delta_step (je_postings entry) []")
  case (Inl e)
  then show ?thesis
    by (intro stop) (simp add: guard_postings_def)
next
  case (Inr deltas)
  obtain r where r: "pt_acc_load_many (P m) (guard_ids deltas) s = (r, s)"
    using acc_load_many by blast
  show ?thesis
  proof (cases r)
    case (Inl e)
    then show ?thesis
      using Inr r by (intro stop) (simp add: guard_postings_def Let_def)
  next
    case loaded: (Inr loaded)
    let ?accts = "fold (\<lambda>account m. AList.update (account_uuid (acc_id account)) account m) loaded []"
    show ?thesis
    proof (cases "guard_accounts sh ?accts (guard_ids deltas)")
      case (Inl e)
      then show ?thesis
        using Inr r loaded by (intro stop) (simp add: guard_postings_def Let_def)
    next
      case (Inr u)
      have "exec_at P m (guard_postings sh entry k) s = exec_at P (Suc m) (guard_deltas sh ?accts deltas k) s"
        using \<open>try_fold delta_step (je_postings entry) [] = Inr deltas\<close> r loaded Inr
        by (simp add: guard_postings_def Let_def)
      then show ?thesis
        using pass stop by (cases rule: guard_deltas_run [of "Suc m" sh ?accts deltas k s]) auto
    qed
  qed
qed

lemma replay_done_run:
  "exec_at P m (replay_done de hash r) s = (and_then (replay de r hash) (\<lambda>v. Inr (outcome_replayed v)), s)"
  by (simp add: replay_done_def)

lemma require_replay_quiet:
  assumes "exec_at P m (require_record scope key (replay_done de hash)) s = (res, s')"
  shows "s' = s"
proof -
  obtain r where "pt_idem_find (P m) scope key s = (r, s)"
    using idem_read by blast
  then show ?thesis
    using assms by (cases r) (auto simp: require_record_def replay_done_run split: option.splits)
qed

text \<open>A posting handler changes nothing but by its one commit.\<close>

lemma post_entry_commits:
  assumes "exec_at P m (post_entry cx dr cmd build) s = (res, s')"
  shows "s' = s \<or> (\<exists>hash entry extra r m out.
      fingerprint (cx_hash cx) (cx_ser_command cx) cmd = Inr hash \<and> build = Inr (entry, extra)
      \<and> IdempotencyRecord_new (dr_record_now dr) (cx_ser_posted cx) (command_scope cmd)
          (cm_idempotency_key (command_meta cmd)) hash (entry_response entry) = Inr r
      \<and> pt_commit (P m) \<lparr>jc_entry = entry, jc_events = entry_events cx dr entry extra, jc_idempotency = r\<rparr> s
          = (out, s'))"
proof -
  let ?scope = "command_scope cmd" and ?key = "cm_idempotency_key (command_meta cmd)"
  obtain found where found: "pt_idem_find (P m) ?scope ?key s = (found, s)"
    using idem_read by blast
  show ?thesis
  proof (cases "\<exists>hash entry extra. fingerprint (cx_hash cx) (cx_ser_command cx) cmd = Inr hash
      \<and> found = Inr None \<and> build = Inr (entry, extra)")
    case False
    then show ?thesis
      using assms found
      by (cases found) (auto simp: post_entry_def Let_def replay_done_run split: sum.splits option.splits)
  next
    case True
    then obtain hash entry extra where c: "fingerprint (cx_hash cx) (cx_ser_command cx) cmd = Inr hash"
        "found = Inr None" "build = Inr (entry, extra)"
      by blast
    let ?k = "commit_entry cx dr ?scope ?key hash entry extra"
    have run: "exec_at P (Suc m) (guard_postings (cx_uuid_show cx) entry ?k) s = (res, s')"
      using assms found c by (simp add: post_entry_def Let_def)
    show ?thesis
    proof (cases rule: guard_postings_run [of "Suc m" "cx_uuid_show cx" entry ?k s])
      case (pass m')
      show ?thesis
      proof (cases "IdempotencyRecord_new (dr_record_now dr) (cx_ser_posted cx) ?scope ?key hash (entry_response entry)")
        case (Inr r)
        obtain out s1 where out: "pt_commit (P m') \<lparr>jc_entry = entry, jc_events = entry_events cx dr entry extra,
            jc_idempotency = r\<rparr> s = (out, s1)"
          by fastforce
        have "s' = s1"
          using run pass Inr out
          by (cases out) (auto simp: commit_entry_def Let_def split: CommitOutcome.splits dest: require_replay_quiet [OF sym])
        with c Inr out show ?thesis
          by blast
      qed (use run pass in \<open>auto simp: commit_entry_def Let_def\<close>)
    qed (use run in simp)
  qed
qed

end

text \<open>
  \<open>answers s\<close> are the idempotency records an adapter holds in state \<open>s\<close>.  A journal commit stores its record exactly when it commits, reports a duplicate exactly when
  the key is answered, and leaves the state alone otherwise; the adapter may keep the time of the
  record at a precision of its own.  \<open>valid\<close> are the keys an adapter can
  look up.
\<close>

locale ledger_ports = quiet_reads P
  for P :: "nat \<Rightarrow> 's ports" +
  fixes answers :: "'s \<Rightarrow> string \<times> string \<Rightarrow> IdempotencyRecord option"
    and valid :: "IdempotencyKey \<Rightarrow> bool"
  assumes idem_find: "valid key \<Longrightarrow> pt_idem_find (P m) scope key s = (Inr (answers s (scope, key_str key)), s)"
    and commit_error: "pt_commit (P m) c s = (Inl e, s') \<Longrightarrow> s' = s"
    and commit_duplicate:
      "pt_commit (P m) c s = (Inr DuplicateIdempotencyKey, s') \<Longrightarrow>
         s' = s \<and> answers s (record_key (jc_idempotency c)) \<noteq> None"
    and commit_committed:
      "pt_commit (P m) c s = (Inr Committed, s') \<Longrightarrow>
         answers s (record_key (jc_idempotency c)) = None
         \<and> (\<exists>at. answers s' = (answers s)(record_key (jc_idempotency c) \<mapsto> (jc_idempotency c)\<lparr>ir_created_at := at\<rparr>))"
begin

lemma require_record_run:
  "valid key \<Longrightarrow> exec_at P m (require_record scope key k) s =
     (case answers s (scope, key_str key) of
        None \<Rightarrow> (Inl (Storage ''idempotency row vanished between commit and read''), s)
      | Some r \<Rightarrow> exec_at P (Suc m) (k r) s)"
  by (simp add: require_record_def idem_find split: option.splits)

lemma record_new_key:
  "IdempotencyRecord_new now ser scope key hash v = Inr r \<Longrightarrow> record_key r = (scope, key_str key)"
  by (auto simp: IdempotencyRecord_new_def record_key_def result_simps)

lemma record_new_at:
  "IdempotencyRecord_new now ser scope key hash v = Inr r
     \<Longrightarrow> IdempotencyRecord_new at ser scope key hash v = Inr (r\<lparr>ir_created_at := at\<rparr>)"
  by (auto simp: IdempotencyRecord_new_def result_simps)

text \<open>
  A posting handler run alone ends in one of four ways: the request cannot be fingerprinted, it
  is answered from the record of an earlier one, it is refused without effect, or its entry is
  committed together with its record.
\<close>

lemma post_entry_run:
  assumes "valid (cm_idempotency_key (command_meta cmd))"
  obtains
      (unhashable) e where "fingerprint (cx_hash cx) (cx_ser_command cx) cmd = Inl e"
        "exec_at P m (post_entry cx dr cmd build) s = (Inl e, s)"
    | (answered) hash r where "fingerprint (cx_hash cx) (cx_ser_command cx) cmd = Inr hash"
        "answers s (command_scope cmd, key_str (cm_idempotency_key (command_meta cmd))) = Some r"
        "exec_at P m (post_entry cx dr cmd build) s
           = (and_then (replay (cx_de_posted cx) r hash) (\<lambda>v. Inr (outcome_replayed v)), s)"
    | (refused) e where
        "answers s (command_scope cmd, key_str (cm_idempotency_key (command_meta cmd))) = None"
        "exec_at P m (post_entry cx dr cmd build) s = (Inl e, s)"
    | (posted) hash entry extra r m' s' where
        "fingerprint (cx_hash cx) (cx_ser_command cx) cmd = Inr hash"
        "answers s (command_scope cmd, key_str (cm_idempotency_key (command_meta cmd))) = None"
        "build = Inr (entry, extra)"
        "IdempotencyRecord_new (dr_record_now dr) (cx_ser_posted cx) (command_scope cmd)
           (cm_idempotency_key (command_meta cmd)) hash (entry_response entry) = Inr r"
        "pt_commit (P m') \<lparr>jc_entry = entry, jc_events = entry_events cx dr entry extra, jc_idempotency = r\<rparr> s
           = (Inr Committed, s')"
        "exec_at P m (post_entry cx dr cmd build) s = (Inr (outcome_fresh (entry_response entry)), s')"
proof (cases "fingerprint (cx_hash cx) (cx_ser_command cx) cmd")
  case (Inl e)
  then show ?thesis
    by (intro unhashable) (simp_all add: post_entry_def Let_def)
next
  case hash: (Inr hash)
  let ?scope = "command_scope cmd" and ?key = "cm_idempotency_key (command_meta cmd)"
  note find = idem_find [OF assms]
  show ?thesis
  proof (cases "answers s (?scope, key_str ?key)")
    case (Some r)
    then show ?thesis
      using hash by (intro answered) (simp_all add: post_entry_def Let_def find replay_done_run)
  next
    case None
    show ?thesis
    proof (cases build)
      case (Inl e)
      then show ?thesis
        using hash None by (intro refused) (simp_all add: post_entry_def Let_def find)
    next
      case built: (Inr ee)
      obtain entry extra where ee: "build = Inr (entry, extra)"
        using built by (cases ee) simp
      let ?commit = "commit_entry cx dr ?scope ?key hash entry extra"
      have run: "exec_at P m (post_entry cx dr cmd build) s
          = exec_at P (Suc m) (guard_postings (cx_uuid_show cx) entry ?commit) s"
        using hash None ee by (simp add: post_entry_def Let_def find)
      show ?thesis
      proof (cases rule: guard_postings_run [of "Suc m" "cx_uuid_show cx" entry ?commit s])
        case (stop e)
        then show ?thesis
          using run None by (intro refused) simp_all
      next
        case (pass m')
        show ?thesis
        proof (cases "IdempotencyRecord_new (dr_record_now dr) (cx_ser_posted cx) ?scope ?key hash
            (entry_response entry)")
          case (Inl e)
          then show ?thesis
            using run pass None by (intro refused) (simp_all add: commit_entry_def Let_def)
        next
          case (Inr r)
          let ?c = "\<lparr>jc_entry = entry, jc_events = entry_events cx dr entry extra, jc_idempotency = r\<rparr>"
          have step: "exec_at P m (post_entry cx dr cmd build) s =
              (case pt_commit (P m') ?c s of (res, s') \<Rightarrow> exec_at P (Suc m') (on_ok (\<lambda>outcome. case outcome of
                  Committed \<Rightarrow> Done (Inr (outcome_fresh (entry_response entry)))
                | DuplicateIdempotencyKey \<Rightarrow>
                    require_record ?scope ?key (replay_done (cx_de_posted cx) hash)) res) s')"
            using run pass Inr by (simp add: commit_entry_def Let_def)
          obtain res s' where c: "pt_commit (P m') ?c s = (res, s')"
            by fastforce
          show ?thesis
          proof (cases res)
            case (Inl e)
            then have "s' = s"
              using commit_error c by blast
            then show ?thesis
              using step c Inl None by (intro refused) simp_all
          next
            case (Inr outcome)
            show ?thesis
            proof (cases outcome)
              case Committed
              then show ?thesis
                using step c Inr hash None ee \<open>IdempotencyRecord_new _ _ _ _ _ _ = Inr r\<close>
                by (intro posted) simp_all
            next
              case DuplicateIdempotencyKey
              then have "answers s (record_key r) \<noteq> None"
                using commit_duplicate [of m' ?c s s'] c Inr by simp
              then show ?thesis
                using None record_new_key [OF \<open>IdempotencyRecord_new _ _ _ _ _ _ = Inr r\<close>] by simp
            qed
          qed
        qed
      qed
    qed
  qed
qed

lemma post_error_no_effect:
  "valid (cm_idempotency_key (command_meta cmd)) \<Longrightarrow> exec_at P m (post_entry cx dr cmd build) s = (Inl e, s')
     \<Longrightarrow> s' = s"
  by (cases rule: post_entry_run [of cmd cx m dr build s]) auto

lemma post_fresh_stores:
  assumes "valid (cm_idempotency_key (command_meta cmd))"
    and "exec_at P m (post_entry cx dr cmd build) s = (Inr out, s')" and "\<not> oc_replayed out"
  shows "\<exists>hash r at. fingerprint (cx_hash cx) (cx_ser_command cx) cmd = Inr hash
      \<and> answers s' (command_scope cmd, key_str (cm_idempotency_key (command_meta cmd))) = Some r
      \<and> IdempotencyRecord_new at (cx_ser_posted cx) (command_scope cmd)
          (cm_idempotency_key (command_meta cmd)) hash (oc_value out) = Inr r"
  using assms(1)
proof (cases rule: post_entry_run [of cmd cx m dr build s])
  case (posted hash entry extra r m' s1)
  have out: "out = outcome_fresh (entry_response entry)" "s1 = s'"
    using assms(2,3) posted by simp_all
  obtain at where at: "answers s1 = (answers s)(record_key r \<mapsto> r\<lparr>ir_created_at := at\<rparr>)"
    using commit_committed [OF posted(5)] by auto
  show ?thesis
    using posted(1) out at record_new_key [OF posted(4)] record_new_at [OF posted(4), of at]
    by (auto simp: outcome_fresh_def)
next
  case (answered hash r)
  then show ?thesis
    using assms by (cases "replay (cx_de_posted cx) r hash") (auto simp: outcome_replayed_def)
qed (use assms in auto)

text \<open>A later request with the same key sees the stored record, whoever makes it.\<close>

lemma post_again:
  assumes "valid (cm_idempotency_key (command_meta cmd))"
    and "fingerprint (cx_hash cx) (cx_ser_command cx) cmd = Inr hash"
    and "answers s (command_scope cmd, key_str (cm_idempotency_key (command_meta cmd))) = Some r"
  shows "exec_at P m (post_entry cx dr cmd build) s
    = (and_then (replay (cx_de_posted cx) r hash) (\<lambda>v. Inr (outcome_replayed v)), s)"
  using assms(1) by (cases rule: post_entry_run [of cmd cx m dr build s]) (use assms in auto)

end

interpretation mem_store: ledger_ports "\<lambda>_. mem_ports sh ns now" "\<lambda>st. map_of (idempotency st)" "\<lambda>_. True"
  for sh ns now
proof
  show "\<exists>r. pt_idem_find (mem_ports sh ns now) scope key s = (r, s)" for scope key s
    by (simp add: mem_ports_def)
  show "\<exists>r. pt_acc_load_many (mem_ports sh ns now) ids s = (r, s)" for ids s
    by (simp add: mem_ports_def)
  show "\<exists>r. pt_bal_get (mem_ports sh ns now) i a s = (r, s)" for i a s
    by (simp add: mem_ports_def)
  show "pt_idem_find (mem_ports sh ns now) scope key s
      = (Inr (map_of (idempotency s) (scope, key_str key)), s)" for scope key s
    by (simp add: mem_ports_def find_idempotency_def)
  have commit: "pt_commit (mem_ports sh ns now) = commit sh now"
    by (simp add: mem_ports_def)
  show "s' = s" if "pt_commit (mem_ports sh ns now) c s = (Inl e, s')" for c s e s'
    using that unfolding commit by (cases rule: commit_cases [of s c sh now]) auto
  show "s' = s \<and> map_of (idempotency s) (record_key (jc_idempotency c)) \<noteq> None"
    if "pt_commit (mem_ports sh ns now) c s = (Inr DuplicateIdempotencyKey, s')" for c s s'
    using that unfolding commit by (cases rule: commit_cases [of s c sh now]) auto
  show "map_of (idempotency s) (record_key (jc_idempotency c)) = None
      \<and> (\<exists>at. map_of (idempotency s')
            = (map_of (idempotency s))(record_key (jc_idempotency c) \<mapsto> (jc_idempotency c)\<lparr>ir_created_at := at\<rparr>))"
    if "pt_commit (mem_ports sh ns now) c s = (Inr Committed, s')" for c s s'
    using that unfolding commit
    by (cases rule: commit_cases [of s c sh now])
      (auto simp: record_events_frame map_add_fresh intro!: exI [of _ "ir_created_at (jc_idempotency c)"])
qed

text \<open>When every call meets the same store, \<open>exec_at\<close> is \<open>exec\<close>.\<close>

lemmas mem_post_run = mem_store.post_entry_run
  [unfolded exec_at_const, consumes 1, case_names unhashable answered refused posted]

lemmas mem_post_laws = mem_store.post_error_no_effect [unfolded exec_at_const]
  mem_store.post_fresh_stores [unfolded exec_at_const] mem_store.post_again [unfolded exec_at_const]

lemmas mem_replay_laws = mem_store.require_record_run [unfolded exec_at_const]
  mem_store.replay_done_run [unfolded exec_at_const]

section \<open>Failure, replay and conflict\<close>

text \<open>
  C7. Failed commands have no effect.  When a posting handler, run alone against the in-memory store,
  returns an error, whatever the error and at whichever of its port calls it arose, the store
  is unchanged.
\<close>

theorem failed_post_no_effect:
  assumes "exec (mem_ports sh ns now) (post_entry cx dr cmd build) st = (Inl e, st')"
  shows "st' = st"
  by (rule mem_post_laws(1) [OF TrueI assms])

text \<open>The documented behaviour of the JSON codec: what it writes it reads back.\<close>

definition codec_roundtrip :: "codec \<Rightarrow> bool" where
  "codec_roundtrip cx \<longleftrightarrow> (\<forall>v j. cx_ser_posted cx v = Inr j \<longrightarrow> cx_de_posted cx j = Inr v)"

text \<open>
  C8. A retry is answered with the original response.  After a posting command has succeeded, a later
  request with the same business payload and the same key, but fresh tracing ids, fresh draws
  and at any later time, returns the original response marked as replayed and changes nothing,
  as long as the record has not been purged.
\<close>

theorem retry_replays:
  assumes "exec (mem_ports sh ns now) (post_entry cx dr cmd build) st = (Inr out, st')"
    and "\<not> oc_replayed out" and "codec_roundtrip cx" and "skips_meta (cx_ser_command cx)"
    and "cm_idempotency_key m = cm_idempotency_key (command_meta cmd)"
    and "find_idempotency (command_scope cmd) (cm_idempotency_key m) st''
           = find_idempotency (command_scope cmd) (cm_idempotency_key m) st'"
  shows "exec (mem_ports sh ns now') (post_entry cx dr' (with_meta m cmd) build') st''
           = (Inr (outcome_replayed (oc_value out)), st'')"
proof -
  obtain hash r at where r: "fingerprint (cx_hash cx) (cx_ser_command cx) cmd = Inr hash"
      "map_of (idempotency st') (command_scope cmd, key_str (cm_idempotency_key (command_meta cmd))) = Some r"
      "IdempotencyRecord_new at (cx_ser_posted cx) (command_scope cmd)
         (cm_idempotency_key (command_meta cmd)) hash (oc_value out) = Inr r"
    using mem_post_laws(2) [OF TrueI assms(1,2)] by blast
  have hash: "fingerprint (cx_hash cx) (cx_ser_command cx) (with_meta m cmd) = Inr hash"
    using r(1) fingerprint_with_meta [OF assms(4)] by simp
  have found: "map_of (idempotency st'') (command_scope (with_meta m cmd),
      key_str (cm_idempotency_key (command_meta (with_meta m cmd)))) = Some r"
    using r(2) assms(5,6) by (simp add: find_idempotency_def)
  have "replay (cx_de_posted cx) r hash = Inr (oc_value out)"
    using r(3) assms(3) by (intro replay_new(1)) (auto simp: codec_roundtrip_def)
  then show ?thesis
    using mem_post_laws(3) [OF TrueI hash found] by simp
qed

text \<open>
  C13. Key reuse is detected.  After a posting command has succeeded, a request with the same scope
  and key but a different fingerprint is refused as an idempotency conflict and changes nothing.
\<close>

theorem key_reuse_conflicts:
  assumes "exec (mem_ports sh ns now) (post_entry cx dr cmd build) st = (Inr out, st')"
    and "\<not> oc_replayed out"
    and "command_scope cmd' = command_scope cmd"
    and "cm_idempotency_key (command_meta cmd') = cm_idempotency_key (command_meta cmd)"
    and "fingerprint (cx_hash cx) (cx_ser_command cx) cmd' = Inr hash'"
    and "fingerprint (cx_hash cx) (cx_ser_command cx) cmd \<noteq> Inr hash'"
  shows "exec (mem_ports sh ns now') (post_entry cx dr' cmd' build') st'
    = (Inl (IdempotencyConflict (command_scope cmd) (key_str (cm_idempotency_key (command_meta cmd)))), st')"
proof -
  obtain hash r at where r: "fingerprint (cx_hash cx) (cx_ser_command cx) cmd = Inr hash"
      "map_of (idempotency st') (command_scope cmd, key_str (cm_idempotency_key (command_meta cmd))) = Some r"
      "IdempotencyRecord_new at (cx_ser_posted cx) (command_scope cmd)
         (cm_idempotency_key (command_meta cmd)) hash (oc_value out) = Inr r"
    using mem_post_laws(2) [OF TrueI assms(1,2)] by blast
  have "replay (cx_de_posted cx) r hash'
      = Inl (IdempotencyConflict (command_scope cmd) (key_str (cm_idempotency_key (command_meta cmd))))"
    using r(1,3) assms(6) by (auto simp: IdempotencyRecord_new_def replay_def result_simps)
  moreover have "map_of (idempotency st')
      (command_scope cmd', key_str (cm_idempotency_key (command_meta cmd'))) = Some r"
    using r(2) assms(3,4) by simp
  ultimately show ?thesis
    using mem_post_laws(3) [OF TrueI assms(5)] by simp
qed

lemma commit_keeps_answer:
  "find_idempotency sc k st = Some r \<Longrightarrow> find_idempotency sc k (snd (commit sh now c st)) = Some r"
  by (cases rule: commit_cases [of st c sh now])
    (auto simp: find_idempotency_def record_events_frame map_add_def)

lemma create_keeps_answer:
  "find_idempotency sc k st = Some r \<Longrightarrow> find_idempotency sc k (snd (create c st)) = Some r"
  by (cases rule: create_cases [of st c])
    (auto simp: find_idempotency_def record_events_frame map_add_def)

section \<open>The effect of a posting command\<close>

lemma post_fresh_effect:
  assumes "exec (mem_ports sh ns now) (post_entry cx dr cmd build) st = (Inr out, st')"
    and "\<not> oc_replayed out"
  obtains entry extra where "build = Inr (entry, extra)" "oc_value out = entry_response entry"
    "entries st' = entries st @ [entry]" "accounts st' = accounts st"
    "\<forall>k. mem_bal st' k = mem_bal st k + account_delta k (je_postings entry)"
    "fresh_events st (entry_events cx dr entry extra)
       \<longrightarrow> events st' = events st @ entry_events cx dr entry extra"
  using TrueI
proof (cases rule: mem_post_run [
      where cx = cx and cmd = cmd and dr = dr and build = build and s = st
        and sh = sh and ns = ns and now = now])
  case (posted hash entry extra r m' s1)
  let ?c = "\<lparr>jc_entry = entry, jc_events = entry_events cx dr entry extra, jc_idempotency = r\<rparr>"
  have out: "oc_value out = entry_response entry" "s1 = st'"
    using assms posted(6) by (auto simp: outcome_fresh_def)
  have c: "commit sh now ?c st = (Inr Committed, st')"
    using posted(5) out by (simp add: mem_ports_def)
  show ?thesis
  proof (cases rule: commit_cases [of st ?c sh now])
    case (committed st1)
    let ?st2 = "st\<lparr>idempotency := idempotency st @ [(record_key r, r)],
                 balances := balances st1, entries := entries st @ [entry]\<rparr>"
    have st': "st' = record_events (entry_events cx dr entry extra) ?st2"
      using committed(5) c by simp
    have "balance_of st' = balance_of st1"
      by (rule balance_of_cong) (simp add: st' record_events_frame)
    moreover have "events st' = events st @ entry_events cx dr entry extra"
      if "fresh_events st (entry_events cx dr entry extra)"
    proof -
      have "events ?st2 = events st"
        by (simp add: events_def)
      then show ?thesis
        using record_events_events [of ?st2] that by (simp add: st' fresh_events_def)
    qed
    ultimately show ?thesis
      using posted(3) out committed(3)
      by (intro that [of entry extra]) (simp_all add: st' record_events_frame)
  qed (use c in simp_all)
next
  case (answered hash r)
  then show ?thesis
    using assms by (cases "replay (cx_de_posted cx) r hash") (auto simp: outcome_replayed_def)
qed (use assms in auto)

end
