(* ===== verification/Service_Example.thy ===== *)
theory Service_Example
  imports Service_Laws
begin

text \<open>
  A concrete codec (it writes JSON and reads back what it wrote) and concrete requests: a deposit
  against the accounts of \<open>ex_accounts\<close>, its retry, and the same key with another amount.
\<close>

definition read_int :: "string \<Rightarrow> int" where
  "read_int s = (case s of
     [] \<Rightarrow> 0
   | c # cs \<Rightarrow> if c = CHR ''-'' then - int (digits_val cs) else int (digits_val s))"

lemma read_show_int: "read_int (show_int x) = x"
proof (cases "x < 0")
  case False
  obtain c cs where c: "show_nat (nat x) = c # cs"
    by (cases "show_nat (nat x)") auto
  then have "c \<noteq> CHR ''-''"
    using show_nat_digits [of "nat x"] digit_not_sign [of c] by simp
  then show ?thesis
    using False c digits_val_show_nat [of "nat x"] by (simp add: read_int_def show_int_def)
qed (simp add: read_int_def show_int_def)

fun print_value :: "Value \<Rightarrow> string" where
  "print_value JNull = ''null''"
| "print_value (JBool b) = (if b then ''true'' else ''false'')"
| "print_value (JNumber n) = n"
| "print_value (JString s) = [CHR 0x22] @ s @ [CHR 0x22]"
| "print_value (JArray vs) = ''['' @ concat (map (\<lambda>v. print_value v @ '','') vs) @ '']''"
| "print_value (JObject es) =
     ''{'' @ concat (map (\<lambda>e. [CHR 0x22] @ fst e @ [CHR 0x22] @ '':'' @ print_value (snd e) @ '','') es) @ ''}''"

fun ex_ser_command :: "Command \<Rightarrow> string + Value" where
  "ex_ser_command (RecordDeposit c) = Inr (JObject
     [(''customer_available'', JString (ex_show (account_uuid (rd_customer_available c)))),
      (''asset'', JString (code_str (rd_asset c))),
      (''amount'', JString (amount_serialize (rd_amount c)))])"
| "ex_ser_command c = Inr (JString (command_scope c))"

definition ex_ser_posted :: "EntryPosted \<Rightarrow> string + Value" where
  "ex_ser_posted v = Inr (JObject
     [(''transaction_id'', JString (show_i128 (transaction_uuid (ep_transaction_id v)))),
      (''description'', JString (ep_description v)),
      (''posted_at'', JNumber (show_int (ep_posted_at v)))])"

fun ex_de_posted :: "Value \<Rightarrow> string + EntryPosted" where
  "ex_de_posted (JObject [(_, JString t), (_, JString d), (_, JNumber p)]) =
     (case parse_i128 t of
        None \<Rightarrow> Inl ''invalid uuid''
      | Some u \<Rightarrow> Inr \<lparr>ep_transaction_id = TransactionId u, ep_description = d, ep_posted_at = read_int p\<rparr>)"
| "ex_de_posted _ = Inl ''unexpected value''"

definition ex_codec :: codec where
  "ex_codec =
     \<lparr>cx_uuid_show = ex_show,
      cx_hash = \<lparr>json_ins = AList.update, json_print = print_value, sha256_hex = id\<rparr>,
      cx_ser_command = ex_ser_command,
      cx_ser_created = (\<lambda>_. Inl ''not needed''), cx_de_created = (\<lambda>_. Inl ''not needed''),
      cx_ser_posted = ex_ser_posted, cx_de_posted = ex_de_posted\<rparr>"

lemma ex_codec_roundtrip: "codec_roundtrip ex_codec"
  by (auto simp: codec_roundtrip_def ex_codec_def ex_ser_posted_def read_show_int)

lemma ex_codec_skips_meta: "skips_meta (cx_ser_command ex_codec)"
  unfolding skips_meta_def
proof (intro allI)
  fix m c
  show "cx_ser_command ex_codec (with_meta m c) = cx_ser_command ex_codec c"
    by (cases c) (simp_all add: ex_codec_def)
qed

definition ex_meta :: "uuid \<Rightarrow> CommandMeta" where
  "ex_meta u = \<lparr>cm_idempotency_key = IdempotencyKey ''dep-1'', cm_correlation_id = CorrelationId u,
     cm_causation_id = CausationId u\<rparr>"

definition ex_deposit :: "uuid \<Rightarrow> i128 \<Rightarrow> RecordDepositCommand" where
  "ex_deposit u n = \<lparr>rd_meta = ex_meta u, rd_customer_available = AccountId 1,
     rd_deposit_clearing = AccountId 2, rd_hot_wallet = None, rd_asset = btc,
     rd_amount = AtomicAmount n, rd_external_reference = Some '' 0xdeadbeef ''\<rparr>"

definition ex_draws :: "uuid \<Rightarrow> draws" where
  "ex_draws u = \<lparr>dr_id = u, dr_id_now = 50, dr_event = (\<lambda>i. u + 1 + of_nat i),
     dr_event_now = (\<lambda>_. 51), dr_record_now = 52, dr_audit_now = 49\<rparr>"

abbreviation ex_ports :: "datetime \<Rightarrow> State ports" where
  "ex_ports \<equiv> mem_ports ex_show of_int"

definition ex_response :: EntryPosted where
  "ex_response = \<lparr>ep_transaction_id = TransactionId 40,
     ep_description = ''confirmed_deposit: 0xdeadbeef'', ep_posted_at = 50\<rparr>"

definition ex_after :: State where
  "ex_after = snd (exec (ex_ports 60) (record_deposit ex_codec (ex_draws 40) (ex_deposit 7 100)) ex_accounts)"

lemma ex_deposit_runs:
  "exec (ex_ports 60) (record_deposit ex_codec (ex_draws 40) (ex_deposit 7 100)) ex_accounts
     = (Inr (outcome_fresh ex_response), ex_after)"
proof -
  have "fst (exec (ex_ports 60) (record_deposit ex_codec (ex_draws 40) (ex_deposit 7 100)) ex_accounts)
      = Inr (outcome_fresh ex_response)"
    by code_simp
  then show ?thesis
    by (simp add: ex_after_def prod_eq_iff)
qed

end
