(* ===== verification/Service_Props.thy ===== *)
theory Service_Props
  imports Service_Example
begin

text \<open>
  Properties of the handlers against the in-memory store: instances of the replay theorems, the
  effect of the posting commands, racing duplicates, and the pre-commit guard.
\<close>

section \<open>Instances\<close>

theorem failed_post_no_effect_witness:
  "fst (exec (ex_ports 60) (record_deposit ex_codec (ex_draws 40) (ex_deposit 7 0)) ex_accounts)
     = Inl (Domain (NonPositiveAmount 0))
   \<and> snd (exec (ex_ports 60) (record_deposit ex_codec (ex_draws 40) (ex_deposit 7 0)) ex_accounts)
     = ex_accounts"
proof -
  have "fst (exec (ex_ports 60) (record_deposit ex_codec (ex_draws 40) (ex_deposit 7 0)) ex_accounts)
      = Inl (Domain (NonPositiveAmount 0))"
    by code_simp
  then show ?thesis
    using failed_post_no_effect [of ex_show of_int 60 ex_codec "ex_draws 40" _ _ ex_accounts
        "Domain (NonPositiveAmount 0)"]
    by (metis prod.collapse record_deposit_def)
qed

theorem retry_replays_witness:
  "exec (ex_ports 99) (record_deposit ex_codec (ex_draws 80) (ex_deposit 8 100)) ex_after
     = (Inr (outcome_replayed ex_response), ex_after)"
proof -
  have retry: "with_meta (ex_meta 8) (RecordDeposit (ex_deposit 7 100)) = RecordDeposit (ex_deposit 8 100)"
    by (simp add: ex_deposit_def)
  show ?thesis
    using retry_replays [OF ex_deposit_runs [unfolded record_deposit_def] _ ex_codec_roundtrip
        ex_codec_skips_meta, of "ex_meta 8" ex_after 99 "ex_draws 80"]
    by (simp add: outcome_fresh_def ex_meta_def ex_deposit_def record_deposit_def)
qed

theorem key_reuse_conflicts_witness:
  "exec (ex_ports 99) (record_deposit ex_codec (ex_draws 80) (ex_deposit 8 101)) ex_after
     = (Inl (IdempotencyConflict ''record_deposit'' ''dep-1''), ex_after)"
proof -
  let ?f = "fingerprint (cx_hash ex_codec) (cx_ser_command ex_codec)"
  have "?f (RecordDeposit (ex_deposit 8 101)) \<noteq> ?f (RecordDeposit (ex_deposit 7 100))"
    by code_simp
  moreover have "\<exists>h. ?f (RecordDeposit (ex_deposit 8 101)) = Inr h"
    by (simp add: fingerprint_def RequestHash_compute_def ex_codec_def)
  ultimately show ?thesis
    using key_reuse_conflicts [OF ex_deposit_runs [unfolded record_deposit_def],
        of "RecordDeposit (ex_deposit 8 101)" _ 99 "ex_draws 80"]
    by (auto simp: outcome_fresh_def ex_meta_def ex_deposit_def record_deposit_def)
qed

section \<open>Racing duplicates\<close>

text \<open>
  Racing requests are answered once.  When a handler reaches its commit and another request has
  stored a record under the same scope and key in the meantime, the commit has no effect and
  the handler answers from that record: the other response if the fingerprints agree, an
  idempotency conflict if they differ.
\<close>

theorem race_answers_once:
  assumes "find_idempotency scope key st = Some r"
    and "IdempotencyRecord_new (dr_record_now dr) (cx_ser_posted cx) scope key hash (entry_response entry)
           = Inr mine"
  shows "exec (mem_ports sh ns now) (commit_entry cx dr scope key hash entry extra) st
    = (and_then (replay (cx_de_posted cx) r hash) (\<lambda>v. Inr (outcome_replayed v)), st)"
proof -
  let ?c = "\<lparr>jc_entry = entry, jc_events = entry_events cx dr entry extra, jc_idempotency = mine\<rparr>"
  have "record_key mine = (scope, key_str key)"
    using mem_store.record_new_key [OF assms(2)] .
  then have "commit sh now ?c st = (Inr DuplicateIdempotencyKey, st)"
    using assms(1) by (cases rule: commit_cases [of st ?c sh now]) (auto simp: find_idempotency_def)
  then have "exec (mem_ports sh ns now) (commit_entry cx dr scope key hash entry extra) st
      = exec (mem_ports sh ns now) (require_record scope key (replay_done (cx_de_posted cx) hash)) st"
    by (simp add: commit_entry_def Let_def assms(2)) (simp add: mem_ports_def)
  then show ?thesis
    using assms(1) by (simp add: mem_replay_laws find_idempotency_def)
qed

definition ex_stored :: IdempotencyRecord where
  "ex_stored = the (find_idempotency ''record_deposit'' (IdempotencyKey ''dep-1'') ex_after)"

theorem race_answers_once_witness:
  "exec (ex_ports 99) (commit_entry ex_codec (ex_draws 80) ''record_deposit'' (IdempotencyKey ''dep-1'')
       (RequestHash ''other'') (ex_entry 81 []) []) ex_after
     = (Inl (IdempotencyConflict ''record_deposit'' ''dep-1''), ex_after)"
proof -
  have found: "find_idempotency ''record_deposit'' (IdempotencyKey ''dep-1'') ex_after = Some ex_stored"
    by code_simp
  have differs: "replay (cx_de_posted ex_codec) ex_stored (RequestHash ''other'')
      = Inl (IdempotencyConflict ''record_deposit'' ''dep-1'')"
    by code_simp
  obtain mine where "IdempotencyRecord_new (dr_record_now (ex_draws 80)) (cx_ser_posted ex_codec)
      ''record_deposit'' (IdempotencyKey ''dep-1'') (RequestHash ''other'')
      (entry_response (ex_entry 81 [])) = Inr mine"
    by (simp add: IdempotencyRecord_new_def ex_codec_def ex_ser_posted_def)
  from race_answers_once [OF found this, of ex_show of_int 99 "[]"] show ?thesis
    by (simp add: differs)
qed

section \<open>What the posting commands build\<close>

text \<open>
  Whatever a command builds validates and carries at most one further event, which is not a
  journal event.
\<close>

definition build_ok :: "(LedgerError + JournalEntry \<times> LedgerEventPayload list) \<Rightarrow> bool" where
  "build_ok b \<longleftrightarrow>
     (\<forall>entry extra. b = Inr (entry, extra) \<longrightarrow>
        validate_balanced (je_postings entry) = Inr () \<and> length extra \<le> 1
        \<and> List.map_filter journal_of extra = [])"

lemma annotate_postings: "annotate e r = Inr e' \<Longrightarrow> je_postings e' = je_postings e \<and> je_id e' = je_id e"
  by (auto simp: annotate_def split: option.splits if_splits)

lemma from_domain_Inr [result_simps]: "from_domain r = Inr x \<longleftrightarrow> r = Inr x"
  by (simp add: from_domain_def result_simps)

lemmas build_defs =
  build_submit_def build_deposit_def build_request_def build_completion_def build_rejection_def
  build_trade_def build_fee_def build_adjustment_def

lemma builds_ok:
  "build_ok (build_submit dr c1)" "build_ok (build_deposit dr c2)" "build_ok (build_request dr c3)"
  "build_ok (build_completion dr c4)" "build_ok (build_rejection dr c5)" "build_ok (build_trade dr c6)"
  "build_ok (build_fee dr c7)" "build_ok (build_adjustment dr c8)"
  unfolding build_ok_def build_defs
  by (auto simp: result_simps Let_def List.map_filter_def split: if_splits
      dest!: annotate_postings JournalEntry_new_Inr
      dest: deposit.build_valid request.build_valid completion.build_valid rejection.build_valid
        trade.build_valid fee.build_valid adjustment.build_valid)

definition deposit_flow :: "RecordDepositCommand \<Rightarrow> ConfirmedDeposit" where
  "deposit_flow cmd =
     \<lparr>cd_idempotency_key = cm_idempotency_key (rd_meta cmd),
      cd_customer_available = rd_customer_available cmd,
      cd_deposit_clearing = rd_deposit_clearing cmd, cd_hot_wallet = rd_hot_wallet cmd,
      cd_asset = rd_asset cmd, cd_amount = rd_amount cmd,
      cd_correlation_id = cm_correlation_id (rd_meta cmd),
      cd_causation_id = cm_causation_id (rd_meta cmd)\<rparr>"

lemma build_deposit_delta:
  assumes "build_deposit dr cmd = Inr (entry, extra)"
  shows "account_delta k (je_postings entry) = legs_delta (deposit_legs (deposit_flow cmd)) k"
    and "extra = []" and "je_id entry = TransactionId (dr_id dr)"
proof -
  obtain e where e: "ConfirmedDeposit_into_entry (dr_id dr) (dr_id_now dr) (deposit_flow cmd) = Inr e"
      "annotate e (rd_external_reference cmd) = Inr entry" "extra = []"
    using assms unfolding build_deposit_def deposit_flow_def [symmetric]
    by (auto simp: result_simps)
  then show "extra = []" "je_id entry = TransactionId (dr_id dr)"
      "account_delta k (je_postings entry) = legs_delta (deposit_legs (deposit_flow cmd)) k"
    using deposit.build_delta [OF e(1)] deposit.build_id [OF e(1)] annotate_postings [OF e(2)] by simp_all
qed

text \<open>
  C12. End to end effect of a deposit.  A deposit command that succeeds afresh journals exactly one
  entry under its transaction id, appends exactly one event, carrying that entry, and changes
  every balance by precisely the transfers of the deposit flow.
\<close>

theorem record_deposit_effect:
  assumes "exec (mem_ports sh ns now) (record_deposit cx dr cmd) st = (Inr out, st')"
    and "\<not> oc_replayed out"
    and "EventId (dr_event dr 0) \<notin> ev_event_id ` set (events st)"
  shows "\<exists>e ev. entries st' = entries st @ [e] \<and> events st' = events st @ [ev]
      \<and> ev_payload ev = JournalPosted e \<and> je_id e = ep_transaction_id (oc_value out)
      \<and> (\<forall>i a. amt (balance_of st' i a)
            = amt (balance_of st i a) + legs_delta (deposit_legs (deposit_flow cmd)) (i, a))"
proof -
  obtain entry extra where built: "build_deposit dr cmd = Inr (entry, extra)"
    and out: "oc_value out = entry_response entry" and ent: "entries st' = entries st @ [entry]"
    and "accounts st' = accounts st"
    and bal: "\<forall>k. mem_bal st' k = mem_bal st k + account_delta k (je_postings entry)"
    and evs: "fresh_events st (entry_events cx dr entry extra)
      \<longrightarrow> events st' = events st @ entry_events cx dr entry extra"
    by (rule post_fresh_effect [OF assms(1) [unfolded record_deposit_def] assms(2)])
  note b = build_deposit_delta [OF built]
  obtain ev where ev: "entry_events cx dr entry extra = [ev]" "ev_payload ev = JournalPosted entry"
      "ev_event_id ev = EventId (dr_event dr 0)"
    using b(2) by (simp add: entry_events_def wrap_event_def)
  then have "fresh_events st (entry_events cx dr entry extra)"
    using assms(3) by (simp add: fresh_events_def)
  moreover have "amt (balance_of st' i a)
      = amt (balance_of st i a) + legs_delta (deposit_legs (deposit_flow cmd)) (i, a)" for i a
    using bal [rule_format, of "(i, a)"] b(1) by simp
  ultimately show ?thesis
    using evs ent ev out by (auto simp: entry_response_def)
qed

theorem record_deposit_effect_witness:
  "length (entries ex_after) = 1 \<and> amt (balance_of ex_after (AccountId 1) btc) = 100
    \<and> amt (balance_of ex_after (AccountId 2) btc) = -100"
proof -
  have zero: "balance_of ex_accounts i a = ZERO" for i a
    by (simp add: ex_accounts_def seed_account_def State_default_def balance_of_def)
  have none: "events ex_accounts = []" "entries ex_accounts = []"
    by (simp_all add: ex_accounts_def seed_account_def State_default_def events_def)
  have "legs_delta (deposit_legs (deposit_flow (ex_deposit 7 100))) (AccountId 1, btc) = 100"
      "legs_delta (deposit_legs (deposit_flow (ex_deposit 7 100))) (AccountId 2, btc) = -100"
    by (simp_all add: legs_delta_def deposit_legs_def deposit_flow_def ex_deposit_def)
  then show ?thesis
    using record_deposit_effect [OF ex_deposit_runs] none zero by (auto simp: outcome_fresh_def)
qed

end
