(* ===== verification/Concurrency.thy ===== *)
theory Concurrency
  imports Service_Props
begin

text \<open>
  Any number of handlers at once.  Each handler of \<open>service.rs\<close> is a tree of port calls; the
  system executes one call of one handler at a time, in any order, against the shared in-memory
  store, with time passing freely.  The guarantees of the store hold in every state such a run
  can reach, whatever the handlers saw when they ran their checks.
\<close>

section \<open>Requests and interleaved runs\<close>

datatype reply =
    CreatedReply "LedgerError + AccountCreated Outcome"
  | PostedReply "LedgerError + EntryPosted Outcome"

fun handle :: "codec \<Rightarrow> draws \<Rightarrow> Command \<Rightarrow> reply prog" where
  "handle cx dr (CreateAccount c) = map_prog CreatedReply (create_account cx dr c)"
| "handle cx dr (SubmitJournal c) = map_prog PostedReply (submit_journal_entry cx dr c)"
| "handle cx dr (RecordDeposit c) = map_prog PostedReply (record_deposit cx dr c)"
| "handle cx dr (RequestWithdrawal c) = map_prog PostedReply (request_withdrawal cx dr c)"
| "handle cx dr (CompleteWithdrawal c) = map_prog PostedReply (complete_withdrawal cx dr c)"
| "handle cx dr (RejectWithdrawal c) = map_prog PostedReply (reject_withdrawal cx dr c)"
| "handle cx dr (RecordTradeSettlement c) = map_prog PostedReply (record_trade_settlement cx dr c)"
| "handle cx dr (RecordTradingFee c) = map_prog PostedReply (record_trading_fee cx dr c)"
| "handle cx dr (RecordAdminAdjustment c) = map_prog PostedReply (record_admin_adjustment cx dr c)"

inductive sys_step ::
    "(uuid \<Rightarrow> string) \<Rightarrow> (int \<Rightarrow> i64) \<Rightarrow> State \<times> 'a prog list \<Rightarrow> State \<times> 'a prog list \<Rightarrow> bool"
  for sh ns where
  sys_call: "i < length hs \<Longrightarrow> prog_step (mem_ports sh ns now) (hs ! i) st = (h', st')
    \<Longrightarrow> sys_step sh ns (st, hs) (st', hs[i := h'])"

inductive_cases sys_stepE: "sys_step sh ns (st, hs) (st', hs')"

section \<open>What a handler may still write\<close>

text \<open>
  \<open>safe h E U\<close>: every commit the handler may still make is well-formed, uses event ids from \<open>E\<close> and,
  for a new account, an id from \<open>U\<close>; after a commit it makes no other.
\<close>

definition post_safe :: "EventId set \<Rightarrow> JournalCommit \<Rightarrow> bool" where
  "post_safe E c \<longleftrightarrow>
     validate_balanced (je_postings (jc_entry c)) = Inr () \<and> posted (jc_events c) = [jc_entry c]
     \<and> distinct (map ev_event_id (jc_events c)) \<and> ev_event_id ` set (jc_events c) \<subseteq> E"

definition open_safe :: "EventId set \<Rightarrow> uuid set \<Rightarrow> AccountCommit \<Rightarrow> bool" where
  "open_safe E U c \<longleftrightarrow>
     account_uuid (acc_id (ac_account c)) \<in> U \<and> posted (ac_events c) = []
     \<and> distinct (map ev_event_id (ac_events c)) \<and> ev_event_id ` set (ac_events c) \<subseteq> E"

primrec safe :: "'a prog \<Rightarrow> EventId set \<Rightarrow> uuid set \<Rightarrow> bool" where
  "safe (Done a) E U \<longleftrightarrow> True"
| "safe (IdemFind sc key k) E U \<longleftrightarrow> (\<forall>r. safe (k r) E U)"
| "safe (AccFind i k) E U \<longleftrightarrow> (\<forall>r. safe (k r) E U)"
| "safe (AccFindByName n k) E U \<longleftrightarrow> (\<forall>r. safe (k r) E U)"
| "safe (AccLoadMany is k) E U \<longleftrightarrow> (\<forall>r. safe (k r) E U)"
| "safe (AccList page k) E U \<longleftrightarrow> (\<forall>r. safe (k r) E U)"
| "safe (AccCreate c k) E U \<longleftrightarrow> open_safe E U c \<and> (\<forall>r. safe (k r) {} {})"
| "safe (LedCommit c k) E U \<longleftrightarrow> post_safe E c \<and> (\<forall>r. safe (k r) {} {})"
| "safe (LedFindEntry i k) E U \<longleftrightarrow> (\<forall>r. safe (k r) E U)"
| "safe (LedListEntries i page k) E U \<longleftrightarrow> (\<forall>r. safe (k r) E U)"
| "safe (BalGet i a k) E U \<longleftrightarrow> (\<forall>r. safe (k r) E U)"
| "safe (BalListFor i k) E U \<longleftrightarrow> (\<forall>r. safe (k r) E U)"
| "safe (OutStats k) E U \<longleftrightarrow> (\<forall>r. safe (k r) E U)"
| "safe (OutPending page k) E U \<longleftrightarrow> (\<forall>r. safe (k r) E U)"

lemma safe_map [simp]: "safe (map_prog f h) E U \<longleftrightarrow> safe h E U"
  by (induction h arbitrary: E U) auto

lemma safe_on_ok: "(\<And>a. safe (k a) E U) \<Longrightarrow> safe (on_ok k r) E U"
  by (cases r) auto

lemma safe_replay: "safe (require_record sc key (replay_done de hash)) E U"
  by (auto simp: require_record_def replay_done_def intro!: safe_on_ok split: option.splits)

lemma safe_guard_deltas: "safe k E U \<Longrightarrow> safe (guard_deltas sh accts deltas k) E U"
proof (induction deltas)
  case (Cons d deltas)
  obtain uid asset delta where "d = ((uid, asset), delta)"
    by (metis surj_pair)
  with Cons show ?case
    by (auto simp: Let_def intro!: safe_on_ok split: option.splits sum.splits)
qed simp

lemma safe_guard: "safe k E U \<Longrightarrow> safe (guard_postings sh entry k) E U"
  by (auto simp: guard_postings_def Let_def intro!: safe_on_ok safe_guard_deltas split: sum.splits)

text \<open>The ids one request may use.\<close>

definition request_events :: "draws \<Rightarrow> EventId set" where
  "request_events dr = {EventId (dr_event dr 0), EventId (dr_event dr 1)}"

lemma entry_events_safe:
  assumes "build_ok (Inr (entry, extra))" and "dr_event dr 0 \<noteq> dr_event dr 1"
  shows "posted (entry_events cx dr entry extra) = [entry]"
    and "distinct (map ev_event_id (entry_events cx dr entry extra))"
    and "ev_event_id ` set (entry_events cx dr entry extra) \<subseteq> request_events dr"
proof -
  have "extra = [] \<or> (\<exists>p. extra = [p] \<and> journal_of p = None)"
    using assms(1) by (cases extra) (auto simp: build_ok_def List.map_filter_def split: option.splits if_splits)
  then show "posted (entry_events cx dr entry extra) = [entry]"
      "distinct (map ev_event_id (entry_events cx dr entry extra))"
      "ev_event_id ` set (entry_events cx dr entry extra) \<subseteq> request_events dr"
    using assms(2)
    by (auto simp: entry_events_def Let_def wrap_event_def posted_def List.map_filter_def request_events_def)
qed

lemma safe_post_entry:
  assumes "build_ok b" and "dr_event dr 0 \<noteq> dr_event dr 1"
  shows "safe (post_entry cx dr cmd b) (request_events dr) U"
proof -
  have "safe (commit_entry cx dr sc key hash entry extra) (request_events dr) U"
    if "b = Inr (entry, extra)" for sc key hash entry extra
    using assms that entry_events_safe [of entry extra dr cx]
    by (auto simp: commit_entry_def Let_def post_safe_def build_ok_def
        intro!: safe_on_ok safe_replay split: sum.splits CommitOutcome.splits)
  then show ?thesis
    by (auto simp: post_entry_def Let_def replay_done_def
        intro!: safe_on_ok safe_guard split: sum.splits option.splits)
qed

lemma safe_create_account: "safe (create_account cx dr c) (request_events dr) {dr_id dr}"
  by (auto simp: create_account_def Let_def open_safe_def replay_done_def Account_new_def wrap_event_def
      posted_def List.map_filter_def request_events_def
      intro!: safe_on_ok safe_replay split: sum.splits option.splits CommitOutcome.splits)

lemma safe_handle:
  assumes "dr_event dr 0 \<noteq> dr_event dr 1"
  shows "safe (handle cx dr cmd) (request_events dr) {dr_id dr}"
  by (cases cmd)
    (simp_all add: safe_create_account submit_journal_entry_def record_deposit_def
      request_withdrawal_def complete_withdrawal_def reject_withdrawal_def record_trade_settlement_def
      record_trading_fee_def record_admin_adjustment_def safe_post_entry [OF builds_ok(1) assms]
      safe_post_entry [OF builds_ok(2) assms] safe_post_entry [OF builds_ok(3) assms]
      safe_post_entry [OF builds_ok(4) assms] safe_post_entry [OF builds_ok(5) assms]
      safe_post_entry [OF builds_ok(6) assms] safe_post_entry [OF builds_ok(7) assms]
      safe_post_entry [OF builds_ok(8) assms])

section \<open>Interleaved runs keep the invariant\<close>

abbreviation event_ids :: "State \<Rightarrow> EventId set" where
  "event_ids st \<equiv> ev_event_id ` set (events st)"

abbreviation account_keys :: "State \<Rightarrow> uuid set" where
  "account_keys st \<equiv> fst ` set (accounts st)"

lemma events_seed [simp]: "events (seed_account a st) = events st"
  by (simp add: events_def)

lemma commit_writes:
  assumes "journal_commit_wf st c"
  shows "event_ids (snd (commit sh now c st)) \<subseteq> event_ids st \<union> ev_event_id ` set (jc_events c)"
    and "account_keys (snd (commit sh now c st)) = account_keys st"
proof (atomize (full), cases rule: commit_cases [of st c sh now])
  case (committed st1)
  let ?st = "st\<lparr>idempotency := idempotency st @ [(record_key (jc_idempotency c), jc_idempotency c)],
               balances := balances st1, entries := entries st @ [jc_entry c]\<rparr>"
  have "events ?st = events st"
    by (simp add: events_def)
  moreover from this have "fresh_events ?st (jc_events c)"
    using assms by (simp add: journal_commit_wf_def fresh_events_def)
  ultimately have "events (record_events (jc_events c) ?st) = events st @ jc_events c"
    by (simp add: record_events_events)
  then show "event_ids (snd (commit sh now c st)) \<subseteq> event_ids st \<union> ev_event_id ` set (jc_events c)
      \<and> account_keys (snd (commit sh now c st)) = account_keys st"
    using committed(5) by (simp add: record_events_frame image_Un)
qed auto

lemma create_writes:
  assumes "account_commit_wf st c"
  shows "event_ids (snd (create c st)) \<subseteq> event_ids st \<union> ev_event_id ` set (ac_events c)"
    and "account_keys (snd (create c st)) \<subseteq> account_keys st \<union> {account_uuid (acc_id (ac_account c))}"
proof (atomize (full), cases rule: create_cases [of st c])
  case created
  let ?st = "seed_account (ac_account c)
    (st\<lparr>idempotency := idempotency st @ [(record_key (ac_idempotency c), ac_idempotency c)]\<rparr>)"
  have ev: "events ?st = events st"
    by (simp add: events_def)
  moreover from this have "fresh_events ?st (ac_events c)"
    using assms by (simp add: account_commit_wf_def fresh_events_def)
  ultimately have "events (record_events (ac_events c) ?st) = events st @ ac_events c"
    by (simp add: record_events_events)
  moreover have "accounts ?st = accounts st @ [(account_uuid (acc_id (ac_account c)), ac_account c)]"
    using assms by (simp add: seed_account_def account_commit_wf_def alist_update_fresh)
  ultimately show "event_ids (snd (create c st)) \<subseteq> event_ids st \<union> ev_event_id ` set (ac_events c)
      \<and> account_keys (snd (create c st)) \<subseteq> account_keys st \<union> {account_uuid (acc_id (ac_account c))}"
    using created(3) by (simp add: record_events_frame image_Un)
qed (auto simp: events_def)

lemma disjoint_sub: "A \<subseteq> B \<Longrightarrow> B \<inter> C = {} \<Longrightarrow> A \<inter> C = {}"
  by blast

text \<open>One call of a handler uses up the ids it writes.\<close>

lemma call_safe:
  assumes "safe h E U" and "E \<inter> event_ids st = {}" and "U \<inter> account_keys st = {}"
    and "mem_reach sh st" and "prog_step (mem_ports sh ns now) h st = (h', st')"
  obtains E' U' where "mem_reach sh st'" "safe h' E' U'" "E' \<subseteq> E" "U' \<subseteq> U"
    "event_ids st' \<subseteq> event_ids st \<union> (E - E')" "account_keys st' \<subseteq> account_keys st \<union> (U - U')"
proof (cases h)
  case (AccCreate c k)
  then have wf: "account_commit_wf st c"
    using assms(1-3) disjoint_sub [of "ev_event_id ` set (ac_events c)" E]
    by (auto simp only: account_commit_wf_def open_safe_def fresh_events_def safe.simps)
  have st': "st' = snd (create c st)" and h': "safe h' {} {}"
    using AccCreate assms(1,5) by (auto simp: mem_ports_def map_prod_def split: prod.splits)
  have new: "ev_event_id ` set (ac_events c) \<subseteq> E" "account_uuid (acc_id (ac_account c)) \<in> U"
    using AccCreate assms(1) by (auto simp: open_safe_def)
  have "mem_reach sh st'"
    unfolding st' by (rule reach_step [OF assms(4) step_create [OF wf]])
  moreover have "event_ids st' \<subseteq> event_ids st \<union> (E - {})"
    unfolding st' by (rule order_trans [OF create_writes(1) [OF wf]]) (simp add: le_supI2 new(1))
  moreover have "account_keys st' \<subseteq> account_keys st \<union> (U - {})"
    unfolding st' by (rule order_trans [OF create_writes(2) [OF wf]]) (simp add: new(2))
  ultimately show ?thesis
    using h' by (intro that [of "{}" "{}"]) simp_all
next
  case (LedCommit c k)
  then have wf: "journal_commit_wf st c"
    using assms(1,2) disjoint_sub [of "ev_event_id ` set (jc_events c)" E]
    by (simp add: journal_commit_wf_def post_safe_def fresh_events_def)
  have st': "st' = snd (commit sh now c st)" and h': "safe h' {} {}"
    using LedCommit assms(1,5) by (auto simp: mem_ports_def map_prod_def split: prod.splits)
  have new: "ev_event_id ` set (jc_events c) \<subseteq> E"
    using LedCommit assms(1) by (auto simp: post_safe_def)
  have "mem_reach sh st'"
    unfolding st' by (rule reach_step [OF assms(4) step_commit [OF wf]])
  moreover have "event_ids st' \<subseteq> event_ids st \<union> (E - {})"
    unfolding st' by (rule order_trans [OF commit_writes(1) [OF wf]]) (simp add: le_supI2 new)
  moreover have "account_keys st' \<subseteq> account_keys st \<union> (U - {})"
    unfolding st' commit_writes(2) [OF wf] by simp
  ultimately show ?thesis
    using h' by (intro that [of "{}" "{}"]) simp_all
qed (rule that [of E U]; use assms in \<open>auto simp: mem_ports_def\<close>)+

text \<open>
  The system invariant: the store is reachable, and the handlers hold pairwise disjoint ids that
  do not occur in the store.
\<close>

definition disjoint_ids :: "nat \<Rightarrow> (nat \<Rightarrow> 'a set) \<Rightarrow> 'a set \<Rightarrow> bool" where
  "disjoint_ids n F used \<longleftrightarrow>
     (\<forall>i < n. F i \<inter> used = {} \<and> (\<forall>j < n. i \<noteq> j \<longrightarrow> F i \<inter> F j = {}))"

definition sys_ok :: "(uuid \<Rightarrow> string) \<Rightarrow> State \<times> 'a prog list \<Rightarrow> bool" where
  "sys_ok sh sys \<longleftrightarrow> (case sys of (st, hs) \<Rightarrow>
     mem_reach sh st
     \<and> (\<exists>E U. (\<forall>i < length hs. safe (hs ! i) (E i) (U i))
          \<and> disjoint_ids (length hs) E (event_ids st) \<and> disjoint_ids (length hs) U (account_keys st)))"

lemma disjoint_ids_shrink:
  assumes "disjoint_ids n F used" and "i < n" and "F' \<subseteq> F i" and "used' \<subseteq> used \<union> (F i - F')"
  shows "disjoint_ids n (F(i := F')) used'"
  unfolding disjoint_ids_def
proof (intro allI impI conjI)
  fix j assume j: "j < n"
  have "F j \<inter> used = {}" "F i \<inter> used = {}" "i \<noteq> j \<Longrightarrow> F i \<inter> F j = {}"
    using assms(1,2) j by (auto simp: disjoint_ids_def)
  with assms(3,4) show "(F(i := F')) j \<inter> used' = {}"
    by (cases "i = j") auto
  fix l assume "l < n" "j \<noteq> l"
  then have "F j \<inter> F l = {}"
    using assms(1) j by (auto simp: disjoint_ids_def)
  with assms(3) \<open>j \<noteq> l\<close> show "(F(i := F')) j \<inter> (F(i := F')) l = {}"
    by auto
qed

lemma sys_step_ok:
  assumes "sys_ok sh sys" and "sys_step sh ns sys sys'"
  shows "sys_ok sh sys'"
  using assms(2,1)
proof cases
  case (sys_call i hs now st h' st')
  obtain E U where ok: "mem_reach sh st" "\<forall>j < length hs. safe (hs ! j) (E j) (U j)"
      "disjoint_ids (length hs) E (event_ids st)" "disjoint_ids (length hs) U (account_keys st)"
    using assms(1) sys_call(1) by (auto simp: sys_ok_def)
  obtain E' U' where new: "mem_reach sh st'" "safe h' E' U'" "E' \<subseteq> E i" "U' \<subseteq> U i"
      "event_ids st' \<subseteq> event_ids st \<union> (E i - E')" "account_keys st' \<subseteq> account_keys st \<union> (U i - U')"
    by (rule call_safe [of "hs ! i" "E i" "U i" st sh ns now h' st'])
      (use ok sys_call in \<open>auto simp: disjoint_ids_def\<close>)
  have "\<forall>j < length hs. safe (hs[i := h'] ! j) ((E(i := E')) j) ((U(i := U')) j)"
    using ok(2) new(2) by (simp add: nth_list_update)
  then show ?thesis
    using new(1) disjoint_ids_shrink [OF ok(3) sys_call(3) new(3,5)]
      disjoint_ids_shrink [OF ok(4) sys_call(3) new(4,6)]
    unfolding sys_ok_def sys_call(2) by (simp only: prod.case length_list_update) blast
qed

lemma sys_run_ok: "(sys_step sh ns)\<^sup>*\<^sup>* sys sys' \<Longrightarrow> sys_ok sh sys \<Longrightarrow> sys_ok sh sys'"
  by (induction rule: rtranclp_induct) (auto intro: sys_step_ok)

definition fresh_draws :: "State \<Rightarrow> draws list \<Rightarrow> bool" where
  "fresh_draws st drs \<longleftrightarrow>
     distinct (map dr_id drs) \<and> dr_id ` set drs \<inter> account_keys st = {}
     \<and> distinct (concat (map (\<lambda>dr. [dr_event dr 0, dr_event dr 1]) drs))
     \<and> (\<Union>dr \<in> set drs. request_events dr) \<inter> event_ids st = {}"

lemma distinct_concat_nth:
  assumes "distinct (concat xss)" and "i < length xss" and "j < length xss" and "i \<noteq> j"
  shows "set (xss ! i) \<inter> set (xss ! j) = {}"
  using assms
proof (induction xss arbitrary: i j)
  case (Cons xs xss)
  have "set xs \<inter> set (xss ! l) = {}" if "l < length xss" for l
    using Cons.prems(1) nth_mem [OF that] by (simp add: disjoint_iff)
  with Cons show ?case
    by (cases i; cases j) auto
qed simp

lemma fresh_draws_disjoint:
  assumes "fresh_draws st drs"
  shows "disjoint_ids (length drs) (\<lambda>i. request_events (drs ! i)) (event_ids st)"
    and "disjoint_ids (length drs) (\<lambda>i. {dr_id (drs ! i)}) (account_keys st)"
    and "dr \<in> set drs \<Longrightarrow> dr_event dr 0 \<noteq> dr_event dr 1"
proof -
  let ?xss = "map (\<lambda>dr. [dr_event dr 0, dr_event dr 1]) drs"
  have ids: "distinct (map dr_id drs)" "dr_id ` set drs \<inter> account_keys st = {}"
    and d: "distinct (concat ?xss)" and used: "(\<Union>dr \<in> set drs. request_events dr) \<inter> event_ids st = {}"
    using assms by (auto simp: fresh_draws_def)
  have "request_events (drs ! i) \<inter> request_events (drs ! j) = {}"
    if "i < length drs" "j < length drs" "i \<noteq> j" for i j
    using distinct_concat_nth [OF d, of i j] that by (auto simp: request_events_def)
  moreover have "request_events (drs ! i) \<inter> event_ids st = {}" if "i < length drs" for i
    using used nth_mem [OF that] by blast
  ultimately show "disjoint_ids (length drs) (\<lambda>i. request_events (drs ! i)) (event_ids st)"
    by (simp add: disjoint_ids_def)
  show "disjoint_ids (length drs) (\<lambda>i. {dr_id (drs ! i)}) (account_keys st)"
    using ids nth_eq_iff_index_eq [OF ids(1)] by (auto simp: disjoint_ids_def disjoint_iff)
  show "dr_event dr 0 \<noteq> dr_event dr 1" if "dr \<in> set drs"
    using d split_list [OF that] by auto
qed

lemma requests_ok:
  assumes "mem_reach sh st" and "fresh_draws st (map fst reqs)"
  shows "sys_ok sh (st, map (\<lambda>(dr, cmd). handle cx dr cmd) reqs)"
proof -
  note f = fresh_draws_disjoint [OF assms(2), unfolded length_map]
  have "safe (map (\<lambda>(dr, cmd). handle cx dr cmd) reqs ! i)
      (request_events (map fst reqs ! i)) {dr_id (map fst reqs ! i)}" if "i < length reqs" for i
    using that f(3) [of "fst (reqs ! i)"] by (simp add: split_beta safe_handle)
  then show ?thesis
    unfolding sys_ok_def prod.case length_map
    using assms(1) f(1,2)
    by (intro conjI exI [of _ "\<lambda>i. request_events (map fst reqs ! i)"]
        exI [of _ "\<lambda>i. {dr_id (map fst reqs ! i)}"]) simp_all
qed

text \<open>
  C9. Any number of concurrent requests.  Start the handlers of any list of requests, with their own
  fresh UUIDs, on a reachable store and let them interleave port call by port call, with time
  passing freely.  In every state of such a run, and however many handlers have finished, every
  asset sums to zero, every balance is the sum of its postings in the journal, no account with
  the policy \<open>NonNegative\<close> is overdrawn, and the outbox carries the journal.
\<close>

theorem concurrent_requests_safe:
  assumes "mem_reach sh st" and "fresh_draws st (map fst reqs)"
    and "(sys_step sh ns)\<^sup>*\<^sup>* (st, map (\<lambda>(dr, cmd). handle cx dr cmd) reqs) (st', hs')"
  shows "asset_total st' a = 0
    \<and> amt (balance_of st' i a) = account_delta (i, a) (journal st')
    \<and> (\<forall>account. find_account i st' = Some account \<longrightarrow> acc_policy account = NonNegative
         \<longrightarrow> 0 \<le> amt (balance_of st' i a))
    \<and> posted (events st') = entries st'"
proof -
  have "mem_inv st'"
    using sys_run_ok [OF assms(3) requests_ok [OF assms(1,2)]] mem_reach_inv by (auto simp: sys_ok_def)
  then show ?thesis
    using zero_sum [of st' a] policy_okD(2) [of st' i _ a]
    by (simp add: mem_inv_def ledger_ok_def events_ok_def find_account_def)
qed

section \<open>Each key is spent once\<close>

primrec keyed :: "(string \<times> string) set \<Rightarrow> 'a prog \<Rightarrow> bool" where
  "keyed K (Done a) \<longleftrightarrow> True"
| "keyed K (IdemFind sc key k) \<longleftrightarrow> (\<forall>r. keyed K (k r))"
| "keyed K (AccFind i k) \<longleftrightarrow> (\<forall>r. keyed K (k r))"
| "keyed K (AccFindByName n k) \<longleftrightarrow> (\<forall>r. keyed K (k r))"
| "keyed K (AccLoadMany is k) \<longleftrightarrow> (\<forall>r. keyed K (k r))"
| "keyed K (AccList page k) \<longleftrightarrow> (\<forall>r. keyed K (k r))"
| "keyed K (AccCreate c k) \<longleftrightarrow> (\<forall>r. keyed K (k r))"
| "keyed K (LedCommit c k) \<longleftrightarrow> record_key (jc_idempotency c) \<in> K \<and> (\<forall>r. keyed K (k r))"
| "keyed K (LedFindEntry i k) \<longleftrightarrow> (\<forall>r. keyed K (k r))"
| "keyed K (LedListEntries i page k) \<longleftrightarrow> (\<forall>r. keyed K (k r))"
| "keyed K (BalGet i a k) \<longleftrightarrow> (\<forall>r. keyed K (k r))"
| "keyed K (BalListFor i k) \<longleftrightarrow> (\<forall>r. keyed K (k r))"
| "keyed K (OutStats k) \<longleftrightarrow> (\<forall>r. keyed K (k r))"
| "keyed K (OutPending page k) \<longleftrightarrow> (\<forall>r. keyed K (k r))"

lemma keyed_map [simp]: "keyed K (map_prog f h) \<longleftrightarrow> keyed K h"
  by (induction h) auto

lemma keyed_on_ok: "(\<And>a. keyed K (k a)) \<Longrightarrow> keyed K (on_ok k r)"
  by (cases r) auto

lemma keyed_replay: "keyed K (require_record sc key (replay_done de hash))"
  by (auto simp: require_record_def replay_done_def intro!: keyed_on_ok split: option.splits)

lemma keyed_guard_deltas: "keyed K k \<Longrightarrow> keyed K (guard_deltas sh accts deltas k)"
proof (induction deltas)
  case (Cons d deltas)
  obtain uid asset delta where "d = ((uid, asset), delta)"
    by (metis surj_pair)
  with Cons show ?case
    by (auto simp: Let_def intro!: keyed_on_ok split: option.splits sum.splits)
qed simp

lemma keyed_guard: "keyed K k \<Longrightarrow> keyed K (guard_postings sh entry k)"
  by (auto simp: guard_postings_def Let_def intro!: keyed_on_ok keyed_guard_deltas split: sum.splits)

definition command_key :: "Command \<Rightarrow> string \<times> string" where
  "command_key cmd = (command_scope cmd, key_str (cm_idempotency_key (command_meta cmd)))"

lemma keyed_post_entry: "keyed {command_key cmd} (post_entry cx dr cmd b)"
proof -
  have "keyed {command_key cmd} (commit_entry cx dr (command_scope cmd)
      (cm_idempotency_key (command_meta cmd)) hash entry extra)" for hash entry extra
    by (auto simp: commit_entry_def Let_def command_key_def dest!: mem_store.record_new_key
        intro!: keyed_on_ok keyed_replay split: sum.splits CommitOutcome.splits)
  then show ?thesis
    by (auto simp: post_entry_def Let_def replay_done_def
        intro!: keyed_on_ok keyed_guard split: sum.splits option.splits)
qed

lemma keyed_create_account: "keyed K (create_account cx dr c)"
  by (auto simp: create_account_def Let_def replay_done_def
      intro!: keyed_on_ok keyed_replay split: sum.splits option.splits CommitOutcome.splits)

lemma keyed_handle: "keyed {command_key cmd} (handle cx dr cmd)"
  by (cases cmd)
    (simp_all add: keyed_create_account submit_journal_entry_def record_deposit_def
      request_withdrawal_def complete_withdrawal_def reject_withdrawal_def record_trade_settlement_def
      record_trading_fee_def record_admin_adjustment_def keyed_post_entry)

lemma keyed_mono: "keyed K h \<Longrightarrow> K \<subseteq> K' \<Longrightarrow> keyed K' h"
  by (induction h) auto

definition spare_keys :: "(string \<times> string) set \<Rightarrow> State \<Rightarrow> nat" where
  "spare_keys K st = card (K - fst ` set (idempotency st))"

lemma spare_keys_shrink:
  assumes "finite K" and "fst ` set (idempotency st) \<subseteq> fst ` set (idempotency st')"
  shows "spare_keys K st' \<le> spare_keys K st"
  unfolding spare_keys_def by (rule card_mono) (use assms in auto)

lemma spare_keys_spend:
  assumes "finite K" and "k \<in> K" and "map_of (idempotency st) k = None"
    and "fst ` set (idempotency st') = insert k (fst ` set (idempotency st))"
  shows "Suc (spare_keys K st') = spare_keys K st"
proof -
  have "K - fst ` set (idempotency st') = (K - fst ` set (idempotency st)) - {k}"
    using assms(4) by blast
  moreover have "k \<in> K - fst ` set (idempotency st)"
    using assms(2,3) by (simp add: map_of_eq_None_iff)
  ultimately show ?thesis
    unfolding spare_keys_def using card_Suc_Diff1 [of "K - fst ` set (idempotency st)" k] assms(1) by simp
qed

lemma call_spends:
  assumes "finite K" and "keyed K h" and "prog_step (mem_ports sh ns now) h st = (h', st')"
  shows "keyed K h' \<and> length (entries st') + spare_keys K st' \<le> length (entries st) + spare_keys K st"
proof (cases h)
  case (AccCreate c k)
  have st': "st' = snd (create c st)" and h': "keyed K h'"
    using AccCreate assms(2,3) by (auto simp: mem_ports_def map_prod_def split: prod.splits)
  have "entries st' = entries st" "fst ` set (idempotency st) \<subseteq> fst ` set (idempotency st')"
    by (cases rule: create_cases [of st c]; auto simp: st' record_events_frame)+
  with h' show ?thesis
    by (simp add: spare_keys_shrink [OF assms(1)])
next
  case (LedCommit c k)
  have st': "st' = snd (commit sh now c st)" and h': "keyed K h'"
    using LedCommit assms(2,3) by (auto simp: mem_ports_def map_prod_def split: prod.splits)
  have "length (entries st') + spare_keys K st' \<le> length (entries st) + spare_keys K st"
  proof (cases rule: commit_cases [of st c sh now])
    case (committed st1)
    then have "fst ` set (idempotency st')
        = insert (record_key (jc_idempotency c)) (fst ` set (idempotency st))"
      "length (entries st') = Suc (length (entries st))"
      by (simp_all add: st' record_events_frame)
    then show ?thesis
      using spare_keys_spend [OF assms(1) _ committed(1)] LedCommit assms(2) by force
  qed (simp_all add: st')
  with h' show ?thesis
    by simp
qed (use assms in \<open>auto simp: mem_ports_def\<close>)

lemma run_spends:
  assumes "(sys_step sh ns)\<^sup>*\<^sup>* sys sys'" and "finite K" and "list_all (keyed K) (snd sys)"
  shows "list_all (keyed K) (snd sys')
    \<and> length (entries (fst sys')) + spare_keys K (fst sys')
        \<le> length (entries (fst sys)) + spare_keys K (fst sys)"
  using assms(1,3)
proof (induction rule: rtranclp_induct)
  case (step s s')
  from step(2) show ?case
  proof cases
    case (sys_call i hs now st h' st')
    then have "keyed K (hs ! i)"
      using step by (simp add: list_all_length)
    from call_spends [OF assms(2) this sys_call(4)] show ?thesis
      using step(3,4) sys_call by (auto simp: list_all_length nth_list_update)
  qed
qed simp

text \<open>
  C10. A key is spent once.  However the handlers of a list of requests interleave, and whatever their
  answers, they journal at most as many entries as there are distinct idempotency keys among
  them that the store had not recorded before: duplicates that race never post twice.
\<close>

theorem concurrent_keys_spent_once:
  assumes "(sys_step sh ns)\<^sup>*\<^sup>* (st, map (\<lambda>(dr, cmd). handle cx dr cmd) reqs) (st', hs')"
  shows "length (entries st') \<le> length (entries st)
    + card (command_key ` snd ` set reqs - fst ` set (idempotency st))"
proof -
  let ?K = "command_key ` snd ` set reqs"
  have "list_all (keyed ?K) (map (\<lambda>(dr, cmd). handle cx dr cmd) reqs)"
    by (auto simp: list_all_iff image_image intro!: keyed_mono [OF keyed_handle] rev_image_eqI)
  then show ?thesis
    using run_spends [OF assms, of ?K] by (simp add: spare_keys_def)
qed

section \<open>Instances\<close>

text \<open>A schedule names the handler that makes the next call.\<close>

fun run_schedule :: "State ports \<Rightarrow> nat list \<Rightarrow> State \<times> 'a prog list \<Rightarrow> State \<times> 'a prog list" where
  "run_schedule P [] sys = sys"
| "run_schedule P (i # is) (st, hs) =
     (case prog_step P (hs ! i) st of (h', st') \<Rightarrow> run_schedule P is (st', hs[i := h']))"

lemma run_schedule_steps:
  assumes "list_all (\<lambda>i. i < length (snd sys)) is"
  shows "(sys_step sh ns)\<^sup>*\<^sup>* sys (run_schedule (mem_ports sh ns now) is sys)"
  using assms
proof (induction "is" arbitrary: sys)
  case (Cons i "is")
  obtain st hs h' st' where sys: "sys = (st, hs)" and
      call: "prog_step (mem_ports sh ns now) (hs ! i) st = (h', st')"
    by (metis surj_pair)
  then have "sys_step sh ns sys (st', hs[i := h'])"
    using Cons.prems by (auto intro: sys_call [OF _ call])
  moreover have "(sys_step sh ns)\<^sup>*\<^sup>* (st', hs[i := h']) (run_schedule (mem_ports sh ns now) is (st', hs[i := h']))"
    using Cons sys by simp
  ultimately show ?case
    using sys call by (auto intro: converse_rtranclp_into_rtranclp)
qed simp

definition ex_requests :: "(draws \<times> Command) list" where
  "ex_requests = [(ex_draws 40, RecordDeposit (ex_deposit 7 100)), (ex_draws 80, RecordDeposit (ex_deposit 8 100))]"

text \<open>Both handlers pass their checks before either commits.\<close>

definition ex_race :: "State \<times> reply prog list" where
  "ex_race = run_schedule (ex_ports 60) [0, 1, 0, 1, 0, 1, 0, 1, 0, 1, 0, 1]
     (ex_accounts, map (\<lambda>(dr, cmd). handle ex_codec dr cmd) ex_requests)"

lemma ex_race_steps:
  "(sys_step ex_show of_int)\<^sup>*\<^sup>* (ex_accounts, map (\<lambda>(dr, cmd). handle ex_codec dr cmd) ex_requests)
     (fst ex_race, snd ex_race)"
  unfolding prod.collapse ex_race_def by (rule run_schedule_steps) (simp add: ex_requests_def)

lemma ex_race_entries: "length (entries (fst ex_race)) = 1"
  by code_simp

fun result_of :: "'a prog \<Rightarrow> 'a option" where
  "result_of (Done a) = Some a"
| "result_of _ = None"

lemma ex_race_results:
  "map result_of (snd ex_race) =
     [Some (PostedReply (Inr (outcome_fresh ex_response))),
      Some (PostedReply (Inr (outcome_replayed ex_response)))]"
  by code_simp

theorem concurrent_requests_safe_witness:
  "asset_total (fst ex_race) btc = 0
   \<and> amt (balance_of (fst ex_race) (AccountId 1) btc)
       = account_delta (AccountId 1, btc) (journal (fst ex_race))
   \<and> posted (events (fst ex_race)) = entries (fst ex_race) \<and> length (entries (fst ex_race)) = 1"
proof -
  have "fresh_draws ex_accounts (map fst ex_requests)"
    by (simp add: fresh_draws_def ex_requests_def ex_draws_def ex_accounts_def seed_account_def
        State_default_def events_def ex_defs)
  from concurrent_requests_safe [OF ex_accounts_reach this ex_race_steps, of btc "AccountId 1"]
  show ?thesis
    by (simp add: ex_race_entries)
qed

theorem concurrent_keys_spent_once_witness:
  "length ex_requests = 2 \<and> length (entries (fst ex_race)) \<le> 1
   \<and> map result_of (snd ex_race) =
       [Some (PostedReply (Inr (outcome_fresh ex_response))),
        Some (PostedReply (Inr (outcome_replayed ex_response)))]"
proof -
  have "command_key ` snd ` set ex_requests - fst ` set (idempotency ex_accounts)
      = {(''record_deposit'', ''dep-1'')}" "entries ex_accounts = []"
    by (simp_all add: ex_requests_def command_key_def ex_deposit_def ex_meta_def ex_accounts_def
        seed_account_def State_default_def)
  then show ?thesis
    using concurrent_keys_spent_once [OF ex_race_steps] ex_race_results
    by (simp add: ex_requests_def)
qed

end
