(* ===== verification/Chart.thy ===== *)
theory Chart
  imports Account Rust_Std
begin

text \<open>
  \<open>crates/ledger/src/chart.rs\<close>: the reference chart of accounts.  Account names are looked up by
  name, so they have to be unique.
\<close>

definition EXCHANGE_HOT_WALLET :: string where
  "EXCHANGE_HOT_WALLET = ''exchange:hot-wallet''"

definition EXCHANGE_COLD_WALLET :: string where
  "EXCHANGE_COLD_WALLET = ''exchange:cold-wallet''"

definition DEPOSIT_CLEARING :: string where
  "DEPOSIT_CLEARING = ''exchange:deposit-clearing''"

definition WITHDRAWAL_CLEARING :: string where
  "WITHDRAWAL_CLEARING = ''exchange:withdrawal-clearing''"

definition FEE_REVENUE :: string where
  "FEE_REVENUE = ''exchange:fee-revenue''"

lemmas chart_names =
  EXCHANGE_HOT_WALLET_def EXCHANGE_COLD_WALLET_def DEPOSIT_CLEARING_def WITHDRAWAL_CLEARING_def
  FEE_REVENUE_def

record AccountSpec =
  spec_name :: string
  spec_kind :: AccountKind
  spec_policy :: AccountPolicy

definition AccountSpec_new :: "string \<Rightarrow> AccountKind \<Rightarrow> AccountPolicy \<Rightarrow> AccountSpec" where
  "AccountSpec_new n kind policy = \<lparr>spec_name = n, spec_kind = kind, spec_policy = policy\<rparr>"

definition customer_available :: "string \<Rightarrow> string" where
  "customer_available customer = ''customer:'' @ customer @ '':available''"

definition customer_locked :: "string \<Rightarrow> string" where
  "customer_locked customer = ''customer:'' @ customer @ '':locked''"

definition exchange_accounts :: "AccountSpec list" where
  "exchange_accounts =
     [AccountSpec_new EXCHANGE_HOT_WALLET ExchangeHotWallet AllowNegative,
      AccountSpec_new EXCHANGE_COLD_WALLET ExchangeColdWallet AllowNegative,
      AccountSpec_new DEPOSIT_CLEARING DepositClearing AllowNegative,
      AccountSpec_new WITHDRAWAL_CLEARING WithdrawalClearing AllowNegative,
      AccountSpec_new FEE_REVENUE FeeRevenue NonNegative]"

definition customer_accounts :: "string \<Rightarrow> AccountSpec list" where
  "customer_accounts customer =
     [AccountSpec_new (customer_available customer) CustomerAvailable NonNegative,
      AccountSpec_new (customer_locked customer) CustomerLocked NonNegative]"

definition full_chart :: "string list \<Rightarrow> AccountSpec list" where
  "full_chart customers =
     fold (\<lambda>customer specs. specs @ customer_accounts customer) customers exchange_accounts"

section \<open>Names are unique\<close>

lemma full_chart_eq: "full_chart customers = exchange_accounts @ concat (map customer_accounts customers)"
proof -
  have "fold (\<lambda>customer specs. specs @ customer_accounts customer) customers specs
      = specs @ concat (map customer_accounts customers)" for specs
    by (induction customers arbitrary: specs) auto
  then show ?thesis
    by (simp add: full_chart_def)
qed

lemma available_not_locked: "customer_available c \<noteq> customer_locked d"
proof
  assume "customer_available c = customer_locked d"
  then have "rev (customer_available c) = rev (customer_locked d)"
    by simp
  then show False
    by (simp add: customer_available_def customer_locked_def)
qed

lemma customer_name_inj:
  "customer_available c = customer_available d \<longleftrightarrow> c = d"
  "customer_locked c = customer_locked d \<longleftrightarrow> c = d"
  by (simp_all add: customer_available_def customer_locked_def)

abbreviation customer_names :: "string list \<Rightarrow> string list" where
  "customer_names customers \<equiv> map spec_name (concat (map customer_accounts customers))"

lemma customer_names_Cons:
  "customer_names (c # customers) = customer_available c # customer_locked c # customer_names customers"
  by (simp add: customer_accounts_def AccountSpec_new_def)

lemma customer_names_set:
  "n \<in> set (customer_names customers)
     \<longleftrightarrow> (\<exists>c \<in> set customers. n = customer_available c \<or> n = customer_locked c)"
  by (induction customers) (simp_all only: customer_names_Cons, auto)

lemma customer_names_distinct: "distinct (customer_names customers) \<longleftrightarrow> distinct customers"
proof (induction customers)
  case (Cons c customers)
  have "customer_available c \<in> set (customer_names customers) \<longleftrightarrow> c \<in> set customers"
    "customer_locked c \<in> set (customer_names customers) \<longleftrightarrow> c \<in> set customers"
    unfolding customer_names_set
    using available_not_locked [of c] available_not_locked [of _ c]
    by (auto simp: customer_name_inj) metis
  then show ?case
    using Cons.IH available_not_locked [of c c] unfolding customer_names_Cons by simp
qed simp

lemma exchange_names:
  "map spec_name exchange_accounts =
     [EXCHANGE_HOT_WALLET, EXCHANGE_COLD_WALLET, DEPOSIT_CLEARING, WITHDRAWAL_CLEARING, FEE_REVENUE]"
  by (simp add: exchange_accounts_def AccountSpec_new_def)

lemma exchange_names_prefix: "n \<in> set (map spec_name exchange_accounts) \<Longrightarrow> hd n = CHR ''e''"
  unfolding exchange_names by (auto simp: chart_names)

lemma customer_names_prefix: "n \<in> set (customer_names customers) \<Longrightarrow> hd n = CHR ''c''"
  unfolding customer_names_set by (auto simp: customer_available_def customer_locked_def)

text \<open>
  Chart names are unique.  The accounts of the full chart have pairwise distinct names exactly
  when the customers are pairwise distinct, whatever characters their names contain.
\<close>

theorem full_chart_unique:
  "distinct (map spec_name (full_chart customers)) \<longleftrightarrow> distinct customers"
proof -
  have "set (map spec_name exchange_accounts) \<inter> set (customer_names customers) = {}"
  proof (rule ccontr)
    assume "set (map spec_name exchange_accounts) \<inter> set (customer_names customers) \<noteq> {}"
    then obtain n where "n \<in> set (map spec_name exchange_accounts)" "n \<in> set (customer_names customers)"
      by blast
    then show False
      using exchange_names_prefix [of n] customer_names_prefix [of n customers] by simp
  qed
  moreover have "distinct (map spec_name exchange_accounts)"
    unfolding exchange_names by (simp add: chart_names)
  ultimately show ?thesis
    using customer_names_distinct [of customers] by (simp only: full_chart_eq map_append distinct_append) blast
qed

end
