(* ===== verification/Memory_Journal.thy ===== *)
theory Memory_Journal
  imports Memory_Inv
begin

text \<open>
  The journal of a reachable store replays: added up posting by posting from zero, in journal
  order, no balance ever leaves the \<open>i128\<close> range.  The reconciler and the projector rebuild
  balances that way.
\<close>

lemma running_append:
  "running gate key delta b (ps @ qs) \<longleftrightarrow>
     running gate key delta b ps \<and> running gate key delta (\<lambda>k. b k + key_sum key delta k ps) qs"
  by (induction ps arbitrary: b) (simp_all add: running_Cons add.assoc cong: if_cong)

definition journal_replays :: "State \<Rightarrow> bool" where
  "journal_replays st \<longleftrightarrow> running_ok p_key p_delta (\<lambda>_. 0) (journal st)"

lemma commit_journal_replays:
  assumes "mem_inv st" and "journal_replays st"
  shows "journal_replays (snd (commit sh now c st))"
proof (cases rule: commit_cases [of st c sh now])
  case (committed st1)
  have "(\<lambda>k. 0 + account_delta k (journal st)) = mem_bal st"
    using assms(1) by (auto simp: mem_inv_def ledger_ok_def)
  moreover have "running_ok p_key p_delta (mem_bal st) (je_postings (jc_entry c))"
    using committed(2) unfolding entry_admitted_def
    by (rule running_mono) (auto simp: admits_def split: option.splits)
  ultimately show ?thesis
    using assms(2) committed(5)
    by (simp add: journal_replays_def journal_def record_events_frame running_append)
qed (use assms(2) in simp_all)

lemma create_entries: "entries (snd (create c st)) = entries st"
  by (cases rule: create_cases [of st c]) (auto simp: record_events_frame)

lemma outbox_steps_entries:
  "entries (snd (claim (\<lambda>_ :: unit. lease) now limit () st)) = entries st"
  "entries (snd (mark_published now ids st)) = entries st"
  "entries (mark_failed i err st) = entries st"
  "entries (snd (purge_created_before cutoff st)) = entries st"
  using outbox_steps_core [of st] unfolding same_core_def by metis+

lemma mem_step_replays: "mem_step sh st st' \<Longrightarrow> mem_inv st \<Longrightarrow> journal_replays st \<Longrightarrow> journal_replays st'"
proof (induction rule: mem_step.induct)
  case (step_commit st c now)
  then show ?case
    by (simp add: commit_journal_replays)
qed (simp_all add: journal_replays_def journal_def create_entries outbox_steps_entries)

lemma mem_reach_replays: "mem_reach sh st \<Longrightarrow> journal_replays st"
proof (induction rule: mem_reach.induct)
  case reach_init
  show ?case
    by (simp add: journal_replays_def journal_def State_default_def)
next
  case (reach_step st st')
  then show ?case
    using mem_step_replays mem_reach_inv by blast
qed

end
