(* ===== verification/Reconciler.thy ===== *)
theory Reconciler
  imports Memory_Journal Memory_Props
begin

text \<open>
  \<open>crates/reconciler\<close>: rebuild every balance from the posting history and compare it with a
  materialized view.  The posting history and the balance view are read through ports, one call
  at a time, so the reports depend on the answers of those calls and not on a single state.
\<close>

section \<open>Errors and reports\<close>

datatype ReconcileError =
    RecDomain DomainError
  | RecStore string
  | RecLedger LedgerError

record Discrepancy =
  di_account_id :: AccountId
  di_asset :: AssetCode
  di_expected :: AtomicAmount
  di_observed :: AtomicAmount
  di_view :: string

record ReconcileReport =
  rr_finished_at :: datetime
  rr_entries_scanned :: u64
  rr_postings_applied :: u64
  rr_discrepancies :: "Discrepancy list"

definition is_clean :: "ReconcileReport \<Rightarrow> bool" where
  "is_clean report \<longleftrightarrow> rr_discrepancies report = []"

type_synonym balance_totals = "(balance_key \<times> AtomicAmount) list"

section \<open>Rebuilding\<close>

definition posting_key :: "Posting \<Rightarrow> balance_key" where
  "posting_key posting = (account_uuid (p_account_id posting), p_asset posting)"

definition rebuild_step :: "Posting \<Rightarrow> balance_totals \<Rightarrow> ReconcileError + balance_totals" where
  "rebuild_step posting totals =
     and_then (map_err RecDomain
         (checked_add (or_zero (map_of totals (posting_key posting))) (p_amount posting)))
       (\<lambda>v. Inr (AList.update (posting_key posting) v totals))"

definition rebuild :: "ReconcileError + JournalEntry list \<Rightarrow> ReconcileError + balance_totals" where
  "rebuild all_entries =
     and_then all_entries (\<lambda>entries. try_fold (\<lambda>entry. try_fold rebuild_step (je_postings entry)) entries [])"

section \<open>Comparing\<close>

definition observed_balances :: "BalanceRecord list \<Rightarrow> balance_totals" where
  "observed_balances records =
     fold (\<lambda>r. AList.update (account_uuid (br_account_id r), br_asset r) (br_amount r)) records []"

definition compare_key :: "balance_totals \<Rightarrow> balance_totals \<Rightarrow> string \<Rightarrow> balance_key \<Rightarrow> Discrepancy option" where
  "compare_key rebuilt observed view key =
     (let expected = or_zero (map_of rebuilt key);
          actual = or_zero (map_of observed key)
      in if expected \<noteq> actual
         then Some \<lparr>di_account_id = AccountId (fst key), di_asset = snd key, di_expected = expected,
                    di_observed = actual, di_view = view\<rparr>
         else None)"

definition compare_maps :: "balance_totals \<Rightarrow> BalanceRecord list \<Rightarrow> string \<Rightarrow> Discrepancy list" where
  "compare_maps rebuilt records view =
     (let observed = observed_balances records;
          keys = sort (remdups (map fst rebuilt @ map fst observed))
      in List.map_filter (compare_key rebuilt observed view) keys)"

text \<open>
  Each argument is the answer of one port call, in the order of the calls: the history is read
  twice, then the view.
\<close>

definition reconcile_view ::
    "string \<Rightarrow> datetime \<Rightarrow> ReconcileError + JournalEntry list \<Rightarrow> ReconcileError + JournalEntry list
      \<Rightarrow> ReconcileError + BalanceRecord list \<Rightarrow> ReconcileError + ReconcileReport" where
  "reconcile_view view now history1 history2 records =
     and_then (rebuild history1) (\<lambda>rebuilt.
     and_then history2 (\<lambda>entries.
     and_then records (\<lambda>records.
       Inr \<lparr>rr_finished_at = now, rr_entries_scanned = of_nat (length entries),
            rr_postings_applied = (\<Sum>e \<leftarrow> entries. of_nat (length (je_postings e))),
            rr_discrepancies = compare_maps rebuilt records view\<rparr>)))"

definition reconcile_authoritative ::
    "datetime \<Rightarrow> ReconcileError + JournalEntry list \<Rightarrow> ReconcileError + JournalEntry list
      \<Rightarrow> ReconcileError + BalanceRecord list \<Rightarrow> ReconcileError + ReconcileReport" where
  "reconcile_authoritative = reconcile_view ''authoritative_balances''"

text \<open>\<open>projection_snapshot\<close> answers per consumer; its default answers with no records.\<close>

definition reconcile_projection ::
    "datetime \<Rightarrow> ReconcileError + JournalEntry list \<Rightarrow> ReconcileError + JournalEntry list
      \<Rightarrow> (string \<Rightarrow> ReconcileError + BalanceRecord list) \<Rightarrow> string \<Rightarrow> ReconcileError + ReconcileReport" where
  "reconcile_projection now history1 history2 projection_snapshot consumer =
     reconcile_view ''projection'' now history1 history2 (projection_snapshot consumer)"

definition default_projection_snapshot :: "string \<Rightarrow> ReconcileError + BalanceRecord list" where
  "default_projection_snapshot consumer = Inr []"

section \<open>What rebuilding computes\<close>

definition totals_at :: "balance_totals \<Rightarrow> AccountId \<times> AssetCode \<Rightarrow> int" where
  "totals_at totals k = amt (or_zero (map_of totals (account_uuid (fst k), snd k)))"

interpretation rebuilds: total_posting_fold rebuild_step totals_at p_key p_delta "RecDomain AmountOverflow"
proof
  fix p s s' k
  assume "rebuild_step p s = Inr s'"
  then show "totals_at s' k = totals_at s k + (if p_key p = k then p_delta p else 0)"
    by (cases k) (auto simp: rebuild_step_def totals_at_def posting_key_def result_simps amt_simps
        hm.lookup_after_insert)
next
  fix p s
  show "(\<exists>s'. rebuild_step p s = Inr s') \<longleftrightarrow> in_i128 (totals_at s (p_key p) + p_delta p)"
    by (cases "or_zero (map_of s (posting_key p))" "p_amount p" rule: checked_add_cases)
      (auto simp: rebuild_step_def totals_at_def posting_key_def)
next
  fix p s e
  assume "rebuild_step p s = Inl e"
  then show "e = RecDomain AmountOverflow"
    by (auto simp: rebuild_step_def result_simps amt_simps)
qed

lemma try_fold_concat:
  "try_fold (\<lambda>e. try_fold step (f e)) es s = try_fold step (concat (map f es)) s"
proof (induction es arbitrary: s)
  case (Cons e es)
  have "try_fold (\<lambda>e. try_fold step (f e)) es = try_fold step (concat (map f es))"
    using Cons by (rule ext)
  then show ?case
    by (simp add: try_fold_append)
qed simp

lemma rebuild_flat: "rebuild (Inr es) = try_fold rebuild_step (concat (map je_postings es)) []"
  by (simp add: rebuild_def try_fold_concat)

lemma totals_at_empty [simp]: "totals_at [] = (\<lambda>_. 0)"
  by (simp add: totals_at_def fun_eq_iff)

lemma rebuild_cases:
  obtains (ok) totals where "running_ok p_key p_delta (\<lambda>_. 0) (concat (map je_postings es))"
      "rebuild (Inr es) = Inr totals" "\<And>k. totals_at totals k = account_delta k (concat (map je_postings es))"
    | (overflow) "\<not> running_ok p_key p_delta (\<lambda>_. 0) (concat (map je_postings es))"
      "rebuild (Inr es) = Inl (RecDomain AmountOverflow)"
proof (cases rule: rebuilds.fold_cases [of "[]" "concat (map je_postings es)"])
  case (ok totals)
  with rebuilds.fold_bal [OF ok(2)] show ?thesis
    by (intro that(1)) (simp_all add: rebuild_flat)
next
  case overflow
  then show ?thesis
    by (intro that(2)) (simp_all add: rebuild_flat)
qed

section \<open>What comparing reports\<close>

lemma observed_balances_ok: "hm_ok (observed_balances records)"
proof -
  have "hm_ok m \<Longrightarrow> hm_ok (fold (\<lambda>r. AList.update (account_uuid (br_account_id r), br_asset r)
      (br_amount r)) records m)" for m :: balance_totals
    by (induction records arbitrary: m) (simp_all add: distinct_update)
  then show ?thesis
    by (simp add: observed_balances_def)
qed

lemma or_zero_absent: "k \<notin> fst ` set m \<Longrightarrow> or_zero (map_of m k) = ZERO"
  by (simp add: map_of_eq_None_iff [THEN iffD2])

lemma compare_maps_set:
  "d \<in> set (compare_maps rebuilt records view) \<longleftrightarrow>
     (\<exists>key. compare_key rebuilt (observed_balances records) view key = Some d)"
proof -
  let ?o = "observed_balances records"
  have "key \<in> fst ` set rebuilt \<union> fst ` set ?o" if "compare_key rebuilt ?o view key = Some d" for key
  proof (rule ccontr)
    assume "key \<notin> fst ` set rebuilt \<union> fst ` set ?o"
    then have "or_zero (map_of rebuilt key) = ZERO" "or_zero (map_of ?o key) = ZERO"
      using or_zero_absent [of key rebuilt] or_zero_absent [of key ?o] by blast+
    with that show False
      by (simp add: compare_key_def)
  qed
  then show ?thesis
    by (force simp: compare_maps_def Let_def List.map_filter_def)
qed

lemma compare_maps_clean:
  "compare_maps rebuilt records view = [] \<longleftrightarrow>
     (\<forall>key. or_zero (map_of rebuilt key) = or_zero (map_of (observed_balances records) key))"
proof -
  have "compare_maps rebuilt records view = []
      \<longleftrightarrow> (\<forall>key. compare_key rebuilt (observed_balances records) view key = None)"
    using compare_maps_set [of _ rebuilt records view]
    by (metis ex_in_conv not_None_eq set_empty)
  then show ?thesis
    by (simp add: compare_key_def Let_def)
qed

lemma compare_keys_sorted:
  "sorted_wrt (<) (map (\<lambda>d. (account_uuid (di_account_id d), di_asset d)) (compare_maps rebuilt records view))"
proof -
  let ?c = "compare_key rebuilt (observed_balances records) view"
  have sub: "map (\<lambda>d. (account_uuid (di_account_id d), di_asset d)) (List.map_filter ?c keys)
      = filter (\<lambda>key. ?c key \<noteq> None) keys" for keys
    by (induction keys) (auto simp: List.map_filter_def compare_key_def Let_def)
  have "sorted_wrt (<) (sort (remdups (map fst rebuilt @ map fst (observed_balances records))))"
    by (simp add: strict_sorted_iff)
  then show ?thesis
    unfolding compare_maps_def Let_def sub by (rule sorted_wrt_filter)
qed

section \<open>Properties\<close>

lemma totals_at_eq:
  "(\<forall>key. or_zero (map_of m key) = or_zero (map_of m' key)) \<longleftrightarrow> (\<forall>k. totals_at m k = totals_at m' k)"
proof -
  have "amt (or_zero (map_of m key)) = amt (or_zero (map_of m' key))"
    if "\<forall>k. totals_at m k = totals_at m' k" for key
    using that [rule_format, of "(AccountId (fst key), snd key)"] by (simp add: totals_at_def)
  then show ?thesis
    by (auto simp: totals_at_def amt_eq_iff)
qed

text \<open>
  C31. The reconciler reports exactly the mismatches.  When the answers of the ports give a report, its
  discrepancies are sorted by account and asset without repetition, and an account and asset
  occur there, with the rebuilt and the observed balance, precisely when the two differ.
\<close>

theorem reconcile_exact:
  assumes "reconcile_authoritative now (Inr es) history2 (Inr records) = Inr report"
  shows "sorted_wrt (<) (map (\<lambda>d. (account_uuid (di_account_id d), di_asset d)) (rr_discrepancies report))
    \<and> (d \<in> set (rr_discrepancies report) \<longleftrightarrow>
         amt (di_expected d) = account_delta (di_account_id d, di_asset d) (concat (map je_postings es))
         \<and> di_observed d = or_zero (map_of (observed_balances records)
              (account_uuid (di_account_id d), di_asset d))
         \<and> di_expected d \<noteq> di_observed d \<and> di_view d = ''authoritative_balances'')"
proof -
  obtain totals where totals: "rebuild (Inr es) = Inr totals"
      "rr_discrepancies report = compare_maps totals records ''authoritative_balances''"
    using assms by (auto simp: reconcile_authoritative_def reconcile_view_def result_simps)
  have bal: "totals_at totals k = account_delta k (concat (map je_postings es))" for k
    by (cases rule: rebuild_cases [of es]) (use totals(1) in auto)
  have "di_expected d = or_zero (map_of totals (account_uuid (di_account_id d), di_asset d))
      \<longleftrightarrow> amt (di_expected d) = account_delta (di_account_id d, di_asset d) (concat (map je_postings es))"
    using bal [of "(di_account_id d, di_asset d)"]
    by (simp add: totals_at_def flip: amt_eq_iff)
  moreover have "d \<in> set (rr_discrepancies report) \<longleftrightarrow>
      di_expected d = or_zero (map_of totals (account_uuid (di_account_id d), di_asset d))
      \<and> di_observed d = or_zero (map_of (observed_balances records) (account_uuid (di_account_id d), di_asset d))
      \<and> di_expected d \<noteq> di_observed d \<and> di_view d = ''authoritative_balances''"
    (is "_ \<longleftrightarrow> ?exact")
  proof
    show "d \<in> set (rr_discrepancies report) \<Longrightarrow> ?exact"
      unfolding totals(2) compare_maps_set by (auto simp: compare_key_def Let_def split: if_splits)
    assume ?exact
    then have "compare_key totals (observed_balances records) ''authoritative_balances''
        (account_uuid (di_account_id d), di_asset d) = Some d"
      by (cases d) (auto simp: compare_key_def Let_def)
    then show "d \<in> set (rr_discrepancies report)"
      unfolding totals(2) compare_maps_set by blast
  qed
  ultimately show ?thesis
    unfolding totals(2) using compare_keys_sorted by blast
qed

text \<open>The balance table of the store, read as a snapshot, gives back its balances.\<close>

abbreviation record_at :: "BalanceRecord \<Rightarrow> balance_key" where
  "record_at r \<equiv> (account_uuid (br_account_id r), br_asset r)"

lemma observed_map:
  assumes "distinct (map record_at records)"
  shows "map_of (observed_balances records) = map_of (map (\<lambda>r. (record_at r, br_amount r)) records)"
proof -
  have "map_of (fold (\<lambda>r. AList.update (record_at r) (br_amount r)) records m)
      = map_of m ++ map_of (map (\<lambda>r. (record_at r, br_amount r)) records)" for m :: balance_totals
    using assms
  proof (induction records arbitrary: m)
    case (Cons r records)
    have "map_of (map (\<lambda>r. (record_at r, br_amount r)) records) (record_at r) = None"
      using Cons.prems by (force simp: map_of_eq_None_iff)
    then have "(map_of m)(record_at r \<mapsto> br_amount r) ++ map_of (map (\<lambda>r. (record_at r, br_amount r)) records)
        = map_of m ++ (map_of (map (\<lambda>r. (record_at r, br_amount r)) records))(record_at r \<mapsto> br_amount r)"
      by (auto simp: map_add_def fun_eq_iff split: option.splits)
    then show ?case
      using Cons by (simp add: hm.insert_lookup del: map_add_upd fun_upd_apply)
  qed simp
  then show ?thesis
    by (simp add: observed_balances_def)
qed

lemma snapshot_observed:
  assumes "balances_keyed (balances st)"
  shows "totals_at (observed_balances (snapshot st)) k = mem_bal st k"
proof -
  have key: "record_at (snd kr) = fst kr" if "kr \<in> set (balances st)" for kr
    using assms that by (cases kr) (auto simp: balances_keyed_def)
  have perm: "mset (snapshot st) = mset (map snd (balances st))"
    by (simp add: snapshot_def)
  have keys: "map record_at (map snd (balances st)) = map fst (balances st)"
    using key by (simp add: map_eq_conv)
  have "mset (map record_at (snapshot st)) = mset (map record_at (map snd (balances st)))"
    by (simp only: mset_map perm)
  then have dist: "distinct (map record_at (snapshot st))"
    unfolding keys using assms mset_eq_imp_distinct_iff by (auto simp only: balances_keyed_def)
  have "set (snapshot st) = snd ` set (balances st)"
    using mset_eq_setD [OF perm] by simp
  then have "set (map (\<lambda>r. (record_at r, br_amount r)) (snapshot st))
      = (\<lambda>kr. (record_at (snd kr), br_amount (snd kr))) ` set (balances st)"
    by (simp add: image_image)
  also have "\<dots> = (\<lambda>kr. (fst kr, br_amount (snd kr))) ` set (balances st)"
    using key by (intro image_cong refl) simp
  finally have "map_of (map (\<lambda>r. (record_at r, br_amount r)) (snapshot st))
      = map_of (map (\<lambda>kr. (fst kr, br_amount (snd kr))) (balances st))"
    using dist assms by (subst map_of_inject_set) (simp_all add: comp_def balances_keyed_def)
  also have "\<dots> = map_option br_amount \<circ> map_of (balances st)"
    by (simp add: map_of_map [symmetric] split_def)
  finally show ?thesis
    by (simp add: totals_at_def observed_map [OF dist] balance_of_def split: option.splits)
qed

text \<open>
  C30. A store at rest reconciles.  For every reachable state of the in-memory store, reading the
  journal and the balance table of that state rebuilds without overflow and reports no
  discrepancy, and the report counts every journaled entry and posting.
\<close>

theorem reachable_reconciles:
  assumes "mem_reach sh st"
  shows "\<exists>report. reconcile_authoritative now (Inr (journal_entries st)) (Inr (journal_entries st))
           (Inr (snapshot st)) = Inr report
       \<and> is_clean report \<and> rr_entries_scanned report = of_nat (entry_count st)
       \<and> rr_postings_applied report = of_nat (length (journal st))"
proof -
  have inv: "mem_inv st" and run: "running_ok p_key p_delta (\<lambda>_. 0) (concat (map je_postings (entries st)))"
    using mem_reach_inv [OF assms] mem_reach_replays [OF assms]
    by (simp_all add: journal_replays_def journal_def)
  obtain totals where totals: "rebuild (Inr (entries st)) = Inr totals"
      "\<And>k. totals_at totals k = account_delta k (journal st)"
    by (cases rule: rebuild_cases [of "entries st"]) (use run in \<open>auto simp: journal_def\<close>)
  have "totals_at totals k = totals_at (observed_balances (snapshot st)) k" for k
    using inv snapshot_observed [of st k] totals(2) by (simp add: mem_inv_def keys_ok_def ledger_ok_def)
  then have "compare_maps totals (snapshot st) view = []" for view
    by (simp only: compare_maps_clean totals_at_eq) blast
  moreover have "(\<Sum>e \<leftarrow> es. of_nat (length (je_postings e)) :: u64)
      = of_nat (length (concat (map je_postings es)))" for es
    by (induction es) simp_all
  ultimately show ?thesis
    using totals(1)
    by (simp add: reconcile_authoritative_def reconcile_view_def is_clean_def journal_entries_def
        entry_count_def journal_def)
qed

section \<open>Instances\<close>

text \<open>A journal of one deposit against an empty balance table.\<close>

definition ex_discrepancy :: Discrepancy where
  "ex_discrepancy = \<lparr>di_account_id = AccountId 1, di_asset = btc, di_expected = AtomicAmount 100,
     di_observed = ZERO, di_view = ''authoritative_balances''\<rparr>"

definition ex_alarm :: ReconcileReport where
  "ex_alarm = projr (reconcile_authoritative 9 (Inr (journal_entries ex_state))
     (Inr (journal_entries ex_state)) (Inr (snapshot ex_accounts)))"

theorem reconcile_exact_witness: "ex_discrepancy \<in> set (rr_discrepancies ex_alarm)"
proof -
  have run: "reconcile_authoritative 9 (Inr (journal_entries ex_state)) (Inr (journal_entries ex_state))
      (Inr (snapshot ex_accounts)) = Inr ex_alarm"
    by code_simp
  have "amt (di_expected ex_discrepancy)
      = account_delta (di_account_id ex_discrepancy, di_asset ex_discrepancy)
          (concat (map je_postings (journal_entries ex_state)))"
    "di_observed ex_discrepancy = or_zero (map_of (observed_balances (snapshot ex_accounts))
        (account_uuid (di_account_id ex_discrepancy), di_asset ex_discrepancy))"
    "di_expected ex_discrepancy \<noteq> di_observed ex_discrepancy"
    by code_simp+
  then show ?thesis
    using reconcile_exact [OF run, of ex_discrepancy] by (simp add: ex_discrepancy_def)
qed

theorem reachable_reconciles_witness:
  "(case reconcile_authoritative 9 (Inr (journal_entries ex_state)) (Inr (journal_entries ex_state))
      (Inr (snapshot ex_state)) of Inl _ \<Rightarrow> False
    | Inr report \<Rightarrow> is_clean report \<and> rr_entries_scanned report = 1 \<and> rr_postings_applied report = 2)"
proof -
  have "entry_count ex_state = 1" "length (journal ex_state) = 2"
    by code_simp+
  then show ?thesis
    using reachable_reconciles [OF ex_reach, of 9] by auto
qed

text \<open>
  The reads of a reconciliation are not one snapshot.  An entry that is committed between the read
  of the history and the read of the balances is reported as a discrepancy, although the store
  is sound before and after: the history is that of \<open>ex_accounts\<close>, the balances are those of
  the state after one more commit.
\<close>

theorem reconcile_race_alarm:
  "mem_step ex_show ex_accounts ex_state \<and> mem_reach ex_show ex_accounts
   \<and> (case reconcile_authoritative 9 (Inr (journal_entries ex_accounts)) (Inr (journal_entries ex_state))
        (Inr (snapshot ex_state)) of Inl _ \<Rightarrow> False | Inr report \<Rightarrow> \<not> is_clean report)"
proof -
  have "mem_step ex_show ex_accounts ex_state"
    unfolding ex_state_def by (rule step_commit [OF ex_commit_wf])
  moreover have "case reconcile_authoritative 9 (Inr (journal_entries ex_accounts))
      (Inr (journal_entries ex_state)) (Inr (snapshot ex_state)) of
        Inl _ \<Rightarrow> False | Inr report \<Rightarrow> \<not> is_clean report"
    by code_simp
  ultimately show ?thesis
    using ex_accounts_reach by blast
qed

end
