(* ===== verification/Projector.thy ===== *)
theory Projector
  imports Event
begin

text \<open>
  \<open>crates/projector\<close>: the event-driven balance projection.  \<open>projector.rs\<close> is written against the
  ports \<open>ProjectionStore\<close> and \<open>EventSource\<close>; a record of functions stands for an implementation
  of the two over a state \<open>'s\<close>.  \<open>memory.rs\<close> implements them over \<open>Projection\<close>: a \<open>HashMap\<close> is an
  association list with distinct keys, the \<open>HashSet\<close> of processed events is a set.

  The replay loop has no bound of its own: it is a partial function whose value \<open>None\<close> is a run
  that never ends.
\<close>

section \<open>Ports\<close>

datatype ProjectorError =
    ProjDomain DomainError
  | ProjStore string
  | MalformedEvent string
  | UnknownAccount string string

datatype ApplyOutcome = Applied | Duplicate | Ignored

fun outcome_as_str :: "ApplyOutcome \<Rightarrow> string" where
  "outcome_as_str Applied = ''applied''"
| "outcome_as_str Duplicate = ''duplicate''"
| "outcome_as_str Ignored = ''ignored''"

record StreamPosition =
  sp_topic :: string
  sp_partition :: i32
  sp_offset :: i64

record SourcedEvent =
  se_cursor :: i64
  se_event :: LedgerEvent

record 's projection_ports =
  pp_apply_journal :: "string \<Rightarrow> EventId \<Rightarrow> JournalEntry \<Rightarrow> 's \<Rightarrow> (ProjectorError + ApplyOutcome) \<times> 's"
  pp_record_position :: "string \<Rightarrow> StreamPosition \<Rightarrow> 's \<Rightarrow> (ProjectorError + unit) \<times> 's"
  pp_load_position :: "string \<Rightarrow> string \<Rightarrow> i32 \<Rightarrow> 's \<Rightarrow> ProjectorError + i64 option"
  pp_reset :: "string \<Rightarrow> 's \<Rightarrow> (ProjectorError + unit) \<times> 's"
  pp_fetch_after :: "i64 \<Rightarrow> u32 \<Rightarrow> 's \<Rightarrow> ProjectorError + SourcedEvent list"

section \<open>The projector\<close>

datatype ReplayFrom = AfterCursor i64 | Beginning

record ReplayReport =
  rp_scanned :: u64
  rp_applied :: u64
  rp_duplicates :: u64
  rp_ignored :: u64
  rp_last_cursor :: i64

definition project_event ::
    "'s projection_ports \<Rightarrow> string \<Rightarrow> LedgerEvent \<Rightarrow> 's \<Rightarrow> (ProjectorError + ApplyOutcome) \<times> 's" where
  "project_event P consumer event s =
     (case ev_payload event of
        JournalPosted entry \<Rightarrow> pp_apply_journal P consumer (ev_event_id event) entry s
      | _ \<Rightarrow> (Inr Ignored, s))"

definition apply_sourced ::
    "'s projection_ports \<Rightarrow> string \<Rightarrow> string \<Rightarrow> i32 \<Rightarrow> SourcedEvent \<Rightarrow> 's
      \<Rightarrow> (ProjectorError + ApplyOutcome) \<times> 's" where
  "apply_sourced P consumer topic part sourced s =
     (case project_event P consumer (se_event sourced) s of
        (Inl e, s1) \<Rightarrow> (Inl e, s1)
      | (Inr outcome, s1) \<Rightarrow>
          if outcome = Applied \<or> outcome = Duplicate
          then (case pp_record_position P consumer
                  \<lparr>sp_topic = topic, sp_partition = part, sp_offset = se_cursor sourced\<rparr> s1 of
                  (Inl e, s2) \<Rightarrow> (Inl e, s2)
                | (Inr _, s2) \<Rightarrow> (Inr outcome, s2))
          else (Inr outcome, s1))"

fun count_outcome :: "ApplyOutcome \<Rightarrow> ReplayReport \<Rightarrow> ReplayReport" where
  "count_outcome Applied report = report\<lparr>rp_applied := rp_applied report + 1\<rparr>"
| "count_outcome Duplicate report = report\<lparr>rp_duplicates := rp_duplicates report + 1\<rparr>"
| "count_outcome Ignored report = report\<lparr>rp_ignored := rp_ignored report + 1\<rparr>"

text \<open>The inner \<open>for\<close> loop over one batch; an error ends the whole replay.\<close>

fun replay_batch ::
    "'s projection_ports \<Rightarrow> string \<Rightarrow> SourcedEvent list \<Rightarrow> ReplayReport \<Rightarrow> 's
      \<Rightarrow> (ProjectorError + ReplayReport) \<times> 's" where
  "replay_batch P consumer [] report s = (Inr report, s)"
| "replay_batch P consumer (sourced # batch) report s =
     (let report = report\<lparr>rp_scanned := rp_scanned report + 1, rp_last_cursor := se_cursor sourced\<rparr>
      in case project_event P consumer (se_event sourced) s of
           (Inl e, s1) \<Rightarrow> (Inl e, s1)
         | (Inr outcome, s1) \<Rightarrow> replay_batch P consumer batch (count_outcome outcome report) s1)"

partial_function (option) replay_loop ::
    "'s projection_ports \<Rightarrow> string \<Rightarrow> u32 \<Rightarrow> i64 \<Rightarrow> ReplayReport \<Rightarrow> 's
      \<Rightarrow> ((ProjectorError + ReplayReport) \<times> 's) option" where
  "replay_loop P consumer batch_size after report s =
     (case pp_fetch_after P after batch_size s of
        Inl e \<Rightarrow> Some (Inl e, s)
      | Inr batch \<Rightarrow>
          if batch = [] then Some (Inr report, s)
          else (case replay_batch P consumer batch report s of
                  (Inl e, s1) \<Rightarrow> Some (Inl e, s1)
                | (Inr report, s1) \<Rightarrow>
                    if length batch < unat batch_size then Some (Inr report, s1)
                    else replay_loop P consumer batch_size (rp_last_cursor report) report s1))"

declare replay_loop.simps [code]

definition replay_report :: "i64 \<Rightarrow> ReplayReport" where
  "replay_report after =
     \<lparr>rp_scanned = 0, rp_applied = 0, rp_duplicates = 0, rp_ignored = 0, rp_last_cursor = after\<rparr>"

definition replay_start :: "ReplayFrom \<Rightarrow> i64" where
  "replay_start from = (case from of Beginning \<Rightarrow> 0 | AfterCursor cursor \<Rightarrow> cursor)"

definition replay_events ::
    "'s projection_ports \<Rightarrow> string \<Rightarrow> ReplayFrom \<Rightarrow> u32 \<Rightarrow> 's
      \<Rightarrow> ((ProjectorError + ReplayReport) \<times> 's) option" where
  "replay_events P consumer from batch_size s =
     replay_loop P consumer batch_size (replay_start from) (replay_report (replay_start from)) s"

definition reset_projection :: "'s projection_ports \<Rightarrow> string \<Rightarrow> 's \<Rightarrow> (ProjectorError + unit) \<times> 's" where
  "reset_projection P consumer s = pp_reset P consumer s"

section \<open>The in-memory projection store\<close>

record Projection =
  pj_balances :: "((uuid \<times> AssetCode) \<times> AtomicAmount) list"
  pj_processed :: "(string \<times> uuid) set"
  pj_positions :: "((string \<times> string \<times> i32) \<times> i64) list"
  pj_event_log :: "SourcedEvent list"

definition Projection_default :: Projection where
  "Projection_default = \<lparr>pj_balances = [], pj_processed = {}, pj_positions = [], pj_event_log = []\<rparr>"

definition append_event :: "i64 \<Rightarrow> LedgerEvent \<Rightarrow> Projection \<Rightarrow> Projection" where
  "append_event cursor event pj =
     pj\<lparr>pj_event_log := pj_event_log pj @ [\<lparr>se_cursor = cursor, se_event = event\<rparr>]\<rparr>"

definition projected_balance :: "AccountId \<Rightarrow> AssetCode \<Rightarrow> Projection \<Rightarrow> AtomicAmount" where
  "projected_balance account asset pj =
     (case map_of (pj_balances pj) (account_uuid account, asset) of None \<Rightarrow> ZERO | Some v \<Rightarrow> v)"

text \<open>
  One iteration of the loop of \<open>apply_journal\<close>: \<open>or_insert\<close> leaves a zero slot behind when the
  addition then fails.
\<close>

definition project_posting :: "Posting \<Rightarrow> Projection \<Rightarrow> (ProjectorError + unit) \<times> Projection" where
  "project_posting posting pj =
     (let key = (account_uuid (p_account_id posting), p_asset posting);
          slot = or_zero (map_of (pj_balances pj) key);
          pj1 = pj\<lparr>pj_balances := AList.update key slot (pj_balances pj)\<rparr>
      in case checked_add slot (p_amount posting) of
           Inl e \<Rightarrow> (Inl (ProjDomain e), pj1)
         | Inr v \<Rightarrow> (Inr (), pj1\<lparr>pj_balances := AList.update key v (pj_balances pj1)\<rparr>))"

definition apply_journal ::
    "string \<Rightarrow> EventId \<Rightarrow> JournalEntry \<Rightarrow> Projection \<Rightarrow> (ProjectorError + ApplyOutcome) \<times> Projection" where
  "apply_journal consumer event_id entry pj =
     (let key = (consumer, event_uuid event_id)
      in if key \<in> pj_processed pj then (Inr Duplicate, pj)
         else case mut_fold project_posting (je_postings entry) pj of
                (Inl e, pj1) \<Rightarrow> (Inl e, pj1)
              | (Inr _, pj1) \<Rightarrow> (Inr Applied, pj1\<lparr>pj_processed := insert key (pj_processed pj1)\<rparr>))"

definition record_position :: "string \<Rightarrow> StreamPosition \<Rightarrow> Projection \<Rightarrow> (ProjectorError + unit) \<times> Projection" where
  "record_position consumer position pj =
     (Inr (), pj\<lparr>pj_positions := AList.update
        (consumer, sp_topic position, sp_partition position) (sp_offset position) (pj_positions pj)\<rparr>)"

definition load_position :: "string \<Rightarrow> string \<Rightarrow> i32 \<Rightarrow> Projection \<Rightarrow> ProjectorError + i64 option" where
  "load_position consumer topic part pj =
     Inr (map_of (pj_positions pj) (consumer, topic, part))"

definition memory_reset :: "string \<Rightarrow> Projection \<Rightarrow> (ProjectorError + unit) \<times> Projection" where
  "memory_reset consumer pj =
     (Inr (), pj\<lparr>pj_processed := Set.filter (\<lambda>(c, _). c \<noteq> consumer) (pj_processed pj),
                 pj_positions := filter (\<lambda>((c, _, _), _). c \<noteq> consumer) (pj_positions pj),
                 pj_balances := []\<rparr>)"

definition fetch_after :: "i64 \<Rightarrow> u32 \<Rightarrow> Projection \<Rightarrow> ProjectorError + SourcedEvent list" where
  "fetch_after after limit pj =
     Inr (take (unat limit) (filter (\<lambda>e. sint (se_cursor e) > sint after) (pj_event_log pj)))"

definition memory_projection :: "Projection projection_ports" where
  "memory_projection =
     \<lparr>pp_apply_journal = apply_journal, pp_record_position = record_position,
      pp_load_position = load_position, pp_reset = memory_reset, pp_fetch_after = fetch_after\<rparr>"

end
