(* ===== verification/Projector_Laws.thy ===== *)
theory Projector_Laws
  imports Projector Memory_Journal
begin

text \<open>
  The contract of a projection store and what the projector achieves with any store that keeps
  it: redelivered events are applied once, the paged replay is one pass over the log, and the
  replay ends.
\<close>

section \<open>Delivery\<close>

definition event_postings :: "LedgerEvent \<Rightarrow> Posting list" where
  "event_postings ev = (case journal_of (ev_payload ev) of None \<Rightarrow> [] | Some e \<Rightarrow> je_postings e)"

definition deliver :: "'s projection_ports \<Rightarrow> string \<Rightarrow> LedgerEvent \<Rightarrow> 's \<Rightarrow> (ProjectorError + unit) \<times> 's" where
  "deliver P consumer ev s =
     (case project_event P consumer ev s of (Inl e, s') \<Rightarrow> (Inl e, s') | (Inr _, s') \<Rightarrow> (Inr (), s'))"

lemma deliver_iff:
  "deliver P c ev s = (Inr u, s') \<longleftrightarrow> (\<exists>out. project_event P c ev s = (Inr out, s'))"
  "deliver P c ev s = (Inl e, s') \<longleftrightarrow> project_event P c ev s = (Inl e, s')"
  by (auto simp: deliver_def split: prod.splits sum.splits)

lemma project_event_cases:
  obtains (journal) e where "ev_payload ev = JournalPosted e" "event_postings ev = je_postings e"
      "project_event P c ev s = pp_apply_journal P c (ev_event_id ev) e s"
    | (other) "event_postings ev = []" "journal_of (ev_payload ev) = None"
      "project_event P c ev s = (Inr Ignored, s)"
  by (cases "ev_payload ev") (auto simp: event_postings_def project_event_def)

text \<open>The batch loop delivers its events and counts them.\<close>

lemma replay_batch_append:
  "replay_batch P c (xs @ ys) report s =
     (case replay_batch P c xs report s of
        (Inl e, s1) \<Rightarrow> (Inl e, s1)
      | (Inr report1, s1) \<Rightarrow> replay_batch P c ys report1 s1)"
  by (induction xs arbitrary: report s) (auto simp: Let_def split: prod.splits sum.splits)

lemma count_outcome_frame [simp]:
  "rp_scanned (count_outcome out report) = rp_scanned report"
  "rp_last_cursor (count_outcome out report) = rp_last_cursor report"
  by (cases out; simp)+

lemma count_outcome_total:
  "rp_applied (count_outcome out report) + rp_duplicates (count_outcome out report)
     + rp_ignored (count_outcome out report)
   = rp_applied report + rp_duplicates report + rp_ignored report + 1"
  by (cases out) simp_all

lemma replay_batch_ConsE:
  assumes "replay_batch P c (x # xs) report s = (Inr report', s')"
  obtains out s1 where "project_event P c (se_event x) s = (Inr out, s1)"
    "replay_batch P c xs (count_outcome out (report\<lparr>rp_scanned := rp_scanned report + 1,
       rp_last_cursor := se_cursor x\<rparr>)) s1 = (Inr report', s')"
  using assms by (auto simp: Let_def split: prod.splits sum.splits)

lemma replay_batch_report:
  assumes "replay_batch P c xs report s = (Inr report', s')"
  shows "rp_scanned report' = rp_scanned report + of_nat (length xs)"
    and "rp_applied report' + rp_duplicates report' + rp_ignored report'
      = rp_applied report + rp_duplicates report + rp_ignored report + of_nat (length xs)"
    and "xs \<noteq> [] \<Longrightarrow> rp_last_cursor report' = se_cursor (last xs)"
  using assms
proof (induction xs arbitrary: report s)
  case (Cons x xs)
  {
    case 1 then show ?case
      by (rule replay_batch_ConsE) (auto dest: Cons.IH(1))
  next
    case 2 then show ?case
      by (rule replay_batch_ConsE) (auto dest: Cons.IH(2) simp: count_outcome_total)
  next
    case 3
    from 3(2) show ?case
    proof (rule replay_batch_ConsE)
      fix out s1
      assume "replay_batch P c xs (count_outcome out (report\<lparr>rp_scanned := rp_scanned report + 1,
         rp_last_cursor := se_cursor x\<rparr>)) s1 = (Inr report', s')"
      then show ?thesis
        using Cons.IH(3) by (cases "xs = []") auto
    qed
  }
qed simp_all

lemma replay_batch_deliver:
  "mut_fold (deliver P c) (map se_event xs) s
     = (case replay_batch P c xs report s of (Inl e, s') \<Rightarrow> (Inl e, s') | (Inr _, s') \<Rightarrow> (Inr (), s'))"
proof (induction xs arbitrary: report s)
  case (Cons x xs)
  obtain r s1 where "project_event P c (se_event x) s = (r, s1)"
    by fastforce
  then show ?case
    by (cases r) (simp_all add: deliver_def [of _ _ "se_event x"] Let_def Cons)
qed simp

lemma account_delta_events:
  "distinct evs \<Longrightarrow> (\<Sum>ev \<in> set evs. account_delta k (event_postings ev))
     = account_delta k (concat (map event_postings evs))"
  by (induction evs) simp_all

section \<open>The contract\<close>

text \<open>
  For one consumer: \<open>bal\<close> are the balances it sees, \<open>seen\<close> the events it has applied, \<open>log\<close> the events
  it can replay, and \<open>good\<close> an invariant of the store.  A seen event changes nothing; a new event
  whose running balances fit is applied and remembered in one step; nothing else is written.
\<close>

locale projection_store =
  fixes P :: "'s projection_ports"
    and consumer :: string
    and good :: "'s \<Rightarrow> bool"
    and bal :: "'s \<Rightarrow> AccountId \<times> AssetCode \<Rightarrow> int"
    and seen :: "'s \<Rightarrow> uuid set"
    and log :: "'s \<Rightarrow> SourcedEvent list"
  assumes seen_event:
      "good s \<Longrightarrow> event_uuid i \<in> seen s \<Longrightarrow> pp_apply_journal P consumer i e s = (Inr Duplicate, s)"
    and new_event:
      "good s \<Longrightarrow> event_uuid i \<notin> seen s \<Longrightarrow> pp_apply_journal P consumer i e s = (Inr out, s')
         \<Longrightarrow> out = Applied \<and> seen s' = insert (event_uuid i) (seen s)
             \<and> (\<forall>k. bal s' k = bal s k + account_delta k (je_postings e))"
    and new_event_fits:
      "good s \<Longrightarrow> event_uuid i \<notin> seen s \<Longrightarrow> running_ok p_key p_delta (bal s) (je_postings e)
         \<Longrightarrow> \<exists>s'. pp_apply_journal P consumer i e s = (Inr Applied, s')"
    and keeps: "good s \<Longrightarrow> pp_apply_journal P consumer i e s = (r, s') \<Longrightarrow> good s' \<and> log s' = log s"
    and fetch: "good s \<Longrightarrow> pp_fetch_after P after limit s
      = Inr (take (unat limit) (filter (\<lambda>e. sint (se_cursor e) > sint after) (log s)))"
begin

lemma project_keeps: "good s \<Longrightarrow> project_event P consumer ev s = (r, s') \<Longrightarrow> good s' \<and> log s' = log s"
  by (cases rule: project_event_cases [of ev P consumer s]) (auto dest: keeps)

lemma deliver_keeps: "good s \<Longrightarrow> deliver P consumer ev s = (r, s') \<Longrightarrow> good s' \<and> log s' = log s"
  by (cases r) (auto simp: deliver_iff dest: project_keeps)

lemma deliver_all_keeps:
  "good s \<Longrightarrow> mut_fold (deliver P consumer) evs s = (r, s') \<Longrightarrow> good s' \<and> log s' = log s"
proof (induction evs arbitrary: s)
  case (Cons ev evs)
  obtain r1 s1 where s1: "deliver P consumer ev s = (r1, s1)"
    by fastforce
  from deliver_keeps [OF Cons.prems(1) s1] Cons s1 show ?case
    by (cases r1) auto
qed simp

lemma replay_batch_keeps:
  assumes "good s" and "replay_batch P consumer xs report s = (r, s')"
  shows "good s' \<and> log s' = log s"
  using deliver_all_keeps [OF assms(1), of "map se_event xs" _ s'] assms(2)
  by (cases r) (auto simp: replay_batch_deliver [of P consumer xs s report])

text \<open>What one delivery does to the balances and the memory of applied events.\<close>

lemma deliver_once:
  assumes "good s" and "deliver P consumer ev s = (Inr u, s')"
  shows "bal s' k = bal s k + (if event_uuid (ev_event_id ev) \<in> seen s then 0
                               else account_delta k (event_postings ev))"
    and "seen s' = (if journal_of (ev_payload ev) = None then seen s
                    else insert (event_uuid (ev_event_id ev)) (seen s))"
proof (atomize (full), cases rule: project_event_cases [of ev P consumer s])
  case (journal e)
  obtain out where out: "pp_apply_journal P consumer (ev_event_id ev) e s = (Inr out, s')"
    using assms(2) journal by (auto simp: deliver_iff)
  show "bal s' k = bal s k + (if event_uuid (ev_event_id ev) \<in> seen s then 0
          else account_delta k (event_postings ev))
      \<and> seen s' = (if journal_of (ev_payload ev) = None then seen s
          else insert (event_uuid (ev_event_id ev)) (seen s))"
  proof (cases "event_uuid (ev_event_id ev) \<in> seen s")
    case True
    with seen_event [OF assms(1) True, of e] out journal show ?thesis
      by (simp add: insert_absorb)
  next
    case False
    with new_event [OF assms(1) False out] journal show ?thesis
      by (cases k) simp
  qed
qed (use assms(2) in \<open>auto simp: deliver_iff\<close>)

text \<open>
  Deliveries with repetitions: every event that was not seen before counts once, wherever and
  however often it occurs.
\<close>

lemma deliver_all:
  assumes "good s" and "inj_on ev_event_id (set evs)"
    and "mut_fold (deliver P consumer) evs s = (Inr u, s')"
  shows "bal s' k = bal s k
      + (\<Sum>ev \<in> {ev \<in> set evs. event_uuid (ev_event_id ev) \<notin> seen s}. account_delta k (event_postings ev))"
  using assms
proof (induction evs arbitrary: s)
  case (Cons ev evs)
  let ?d = "\<lambda>ev. account_delta k (event_postings ev)"
  let ?new = "\<lambda>evs s. {ev \<in> set evs. event_uuid (ev_event_id ev) \<notin> seen s}"
  obtain s1 where s1: "deliver P consumer ev s = (Inr (), s1)"
      "mut_fold (deliver P consumer) evs s1 = (Inr u, s')"
    using Cons.prems(3) by (auto split: prod.splits sum.splits)
  have ih: "bal s' k = bal s1 k + (\<Sum>ev \<in> ?new evs s1. ?d ev)"
    using Cons.IH [of s1] Cons.prems(1,2) s1 deliver_keeps [of s ev] by (auto intro: inj_on_subset)
  note one = deliver_once [OF Cons.prems(1) s1(1)]
  have same: "x = ev" if "x \<in> set evs" "event_uuid (ev_event_id x) = event_uuid (ev_event_id ev)" for x
    using that Cons.prems(2) EventId.expand [of "ev_event_id x" "ev_event_id ev"] by (auto simp: inj_on_def)
  show ?case
  proof (cases "event_uuid (ev_event_id ev) \<in> seen s")
    case True
    then have "?new (ev # evs) s = ?new evs s1"
      using one(2) by (auto split: if_splits)
    with True ih one(1) [of k] show ?thesis
      by simp
  next
    case False
    have fin: "finite (?new evs s1)" "finite (?new (ev # evs) s)"
      by simp_all
    have "(\<Sum>ev \<in> ?new (ev # evs) s. ?d ev) = ?d ev + (\<Sum>ev \<in> ?new (ev # evs) s - {ev}. ?d ev)"
      using False by (intro sum.remove) simp_all
    also have "(\<Sum>ev \<in> ?new (ev # evs) s - {ev}. ?d ev) = (\<Sum>ev \<in> ?new evs s1 - {ev}. ?d ev)"
      using one(2) same by (intro sum.cong refl) (auto split: if_splits)
    also have "\<dots> = (\<Sum>ev \<in> ?new evs s1. ?d ev)"
    proof (cases "ev \<in> ?new evs s1")
      case True
      then have "?d ev = 0"
        using one(2) False by (auto simp: event_postings_def split: if_splits)
      then show ?thesis
        using sum.remove [OF fin(1) True, of ?d] by simp
    qed simp
    finally show ?thesis
      using ih one(1) [of k] False by simp
  qed
qed simp

text \<open>New events whose running balances fit are all accepted.\<close>

lemma deliver_all_fits:
  assumes "good s" and "distinct (map ev_event_id evs)"
    and "\<And>ev. ev \<in> set evs \<Longrightarrow> event_uuid (ev_event_id ev) \<notin> seen s"
    and "running_ok p_key p_delta (bal s) (concat (map event_postings evs))"
  obtains s' where "mut_fold (deliver P consumer) evs s = (Inr (), s')"
proof -
  have "\<exists>s'. mut_fold (deliver P consumer) evs s = (Inr (), s')"
    using assms
  proof (induction evs arbitrary: s)
    case (Cons ev evs)
    have run: "running_ok p_key p_delta (bal s) (event_postings ev)"
      "running_ok p_key p_delta (\<lambda>k. bal s k + account_delta k (event_postings ev))
         (concat (map event_postings evs))"
      using Cons.prems(4) by (simp_all add: running_append)
    obtain s1 where s1: "deliver P consumer ev s = (Inr (), s1)"
    proof (cases rule: project_event_cases [of ev P consumer s])
      case (journal e)
      obtain s' where "pp_apply_journal P consumer (ev_event_id ev) e s = (Inr Applied, s')"
        using new_event_fits [of s "ev_event_id ev" e] Cons.prems(1,3) run(1) journal(2) by auto
      with journal show ?thesis
        by (intro that) (simp add: deliver_iff)
    next
      case other
      then show ?thesis
        by (intro that [of s]) (simp add: deliver_iff)
    qed
    note one = deliver_once [OF Cons.prems(1) s1]
    have "bal s1 = (\<lambda>k. bal s k + account_delta k (event_postings ev))"
      using one(1) Cons.prems(3) [of ev] by auto
    moreover have "event_uuid (ev_event_id x) \<notin> seen s1" if "x \<in> set evs" for x
      using Cons.prems(2,3) that one(2) EventId.expand [of "ev_event_id x" "ev_event_id ev"]
      by (auto split: if_splits simp: image_iff)
    ultimately have "\<exists>s'. mut_fold (deliver P consumer) evs s1 = (Inr (), s')"
      using Cons.prems(1,2) run(2) deliver_keeps [OF Cons.prems(1) s1] by (intro Cons.IH) auto
    with s1 show ?case
      by simp
  qed simp
  with that show thesis
    by blast
qed

text \<open>The loop: it ends, and over an ascending log it is one pass over the events after the cursor.\<close>

abbreviation pending_events :: "i64 \<Rightarrow> SourcedEvent list \<Rightarrow> SourcedEvent list" where
  "pending_events after \<equiv> filter (\<lambda>e. sint (se_cursor e) > sint after)"

lemma replay_loop_unfold:
  assumes "good s" and "batch = take (unat bs) (pending_events after (log s))"
  shows "replay_loop P consumer bs after report s =
    (if batch = [] then Some (Inr report, s)
     else (case replay_batch P consumer batch report s of
             (Inl e, s1) \<Rightarrow> Some (Inl e, s1)
           | (Inr report, s1) \<Rightarrow>
               if length batch < unat bs then Some (Inr report, s1)
               else replay_loop P consumer bs (rp_last_cursor report) report s1))"
  unfolding assms(2) by (subst replay_loop.simps) (simp only: fetch [OF assms(1)] sum.case)

lemma pending_shrinks:
  assumes "batch = take n (pending_events after l)" and "batch \<noteq> []"
  shows "length (pending_events (se_cursor (last batch)) l) < length (pending_events after l)"
proof -
  have "last batch \<in> set (pending_events after l)"
    using last_in_set [OF assms(2)] in_set_takeD by (simp only: assms(1)) fast
  then have last: "last batch \<in> set l" "sint (se_cursor (last batch)) > sint after"
    by auto
  have sub: "pending_events (se_cursor (last batch)) l
      = filter (\<lambda>e. sint (se_cursor e) > sint (se_cursor (last batch))) (pending_events after l)"
    using last(2) by (auto intro: filter_cong)
  show ?thesis
    unfolding sub using last by (intro length_filter_less [of "last batch"]) auto
qed

lemma replay_loop_ends: "good s \<Longrightarrow> \<exists>r. replay_loop P consumer bs after report s = Some r"
proof (induction "length (pending_events after (log s))" arbitrary: after report s rule: less_induct)
  case less
  define batch where "batch = take (unat bs) (pending_events after (log s))"
  show ?case
  proof (cases "batch = []")
    case False
    obtain r s1 where run: "replay_batch P consumer batch report s = (r, s1)"
      by fastforce
    show ?thesis
    proof (cases r)
      case (Inr report1)
      have s1: "good s1" "log s1 = log s" "rp_last_cursor report1 = se_cursor (last batch)"
        using replay_batch_keeps [OF less.prems run] replay_batch_report(3) [of P consumer batch] run Inr False
        by auto
      have "\<exists>r. replay_loop P consumer bs (rp_last_cursor report1) report1 s1 = Some r"
        using pending_shrinks [OF batch_def False] s1 by (intro less.hyps) simp_all
      with Inr run show ?thesis
        by (simp add: replay_loop_unfold [OF less.prems batch_def])
    qed (use run in \<open>simp add: replay_loop_unfold [OF less.prems batch_def]\<close>)
  qed (simp add: replay_loop_unfold [OF less.prems batch_def])
qed

lemma pending_drop:
  assumes "sorted_wrt (\<lambda>a b. sint (se_cursor a) < sint (se_cursor b)) l"
    and "pending_events after l = xs @ ys" and "xs \<noteq> []"
  shows "pending_events (se_cursor (last xs)) l = ys"
proof -
  have "sorted_wrt (\<lambda>a b. sint (se_cursor a) < sint (se_cursor b)) (xs @ ys)"
    using assms(1,2) sorted_wrt_filter by metis
  then have split: "\<forall>x \<in> set xs. \<not> sint (se_cursor x) > sint (se_cursor (last xs))"
    "\<forall>y \<in> set ys. sint (se_cursor y) > sint (se_cursor (last xs))"
    using assms(3) by (cases xs rule: rev_cases; force simp: sorted_wrt_append)+
  have "sint (se_cursor (last xs)) > sint after"
  proof -
    have "last xs \<in> set (pending_events after l)"
      unfolding assms(2) using assms(3) by simp
    then show ?thesis
      by simp
  qed
  then have "pending_events (se_cursor (last xs)) l
      = pending_events (se_cursor (last xs)) (pending_events after l)"
    by (auto intro: filter_cong)
  also have "\<dots> = ys"
    unfolding assms(2) using split by (simp add: filter_empty_conv)
  finally show ?thesis .
qed

lemma replay_loop_one_pass:
  assumes "good s" and "sorted_wrt (\<lambda>a b. sint (se_cursor a) < sint (se_cursor b)) (log s)" and "bs \<noteq> 0"
  shows "replay_loop P consumer bs after report s
    = Some (replay_batch P consumer (pending_events after (log s)) report s)"
  using assms(1,2)
proof (induction "length (pending_events after (log s))" arbitrary: after report s rule: less_induct)
  case less
  define batch where "batch = take (unat bs) (pending_events after (log s))"
  define rest where "rest = drop (unat bs) (pending_events after (log s))"
  have pend: "pending_events after (log s) = batch @ rest"
    by (simp add: batch_def rest_def)
  have "0 < unat bs"
    using assms(3) by (simp add: unat_gt_0)
  show ?case
  proof (cases "batch = []")
    case True
    then have "pending_events after (log s) = []"
      using \<open>0 < unat bs\<close> by (auto simp: batch_def)
    with True show ?thesis
      by (simp add: replay_loop_unfold [OF less.prems(1) batch_def])
  next
    case False
    obtain r s1 where run: "replay_batch P consumer batch report s = (r, s1)"
      by fastforce
    show ?thesis
    proof (cases r)
      case (Inr report1)
      have s1: "good s1" "log s1 = log s" "rp_last_cursor report1 = se_cursor (last batch)"
        using replay_batch_keeps [OF less.prems(1) run] replay_batch_report(3) [of P consumer batch] run Inr False
        by auto
      have "replay_loop P consumer bs (rp_last_cursor report1) report1 s1
          = Some (replay_batch P consumer rest report1 s1)"
        using pending_shrinks [OF batch_def False] s1 less.prems(2)
          pending_drop [OF less.prems(2) pend False]
        by (subst less.hyps) simp_all
      moreover have "rest = []" if "length batch < unat bs"
        using that by (simp add: batch_def rest_def)
      ultimately show ?thesis
        using run Inr False
        by (simp add: replay_loop_unfold [OF less.prems(1) batch_def] pend replay_batch_append)
    qed (use run False in \<open>simp add: replay_loop_unfold [OF less.prems(1) batch_def] pend replay_batch_append\<close>)
  qed
qed

text \<open>From a reset state, a replay of the whole log books every posting of the log.\<close>

lemma replay_from_reset:
  assumes "good s" and "bal s = (\<lambda>_. 0)" and "evs = map se_event (log s)" and "distinct (map ev_event_id evs)"
    and "\<And>ev. ev \<in> set evs \<Longrightarrow> event_uuid (ev_event_id ev) \<notin> seen s"
    and "running_ok p_key p_delta (\<lambda>_. 0) (concat (map event_postings evs))"
    and "sorted_wrt (\<lambda>a b. sint (se_cursor a) < sint (se_cursor b)) (log s)"
    and "\<forall>e \<in> set (log s). sint (se_cursor e) > 0" and "bs \<noteq> 0"
  shows "\<exists>report s'. replay_events P consumer Beginning bs s = Some (Inr report, s')
    \<and> rp_scanned report = of_nat (length evs)
    \<and> (\<forall>k. bal s' k = account_delta k (concat (map event_postings evs)))"
proof -
  obtain s' where s': "mut_fold (deliver P consumer) evs s = (Inr (), s')"
    by (rule deliver_all_fits [OF assms(1,4)]) (use assms(2,5,6) in simp_all)
  have pass: "replay_events P consumer Beginning bs s
      = Some (replay_batch P consumer (log s) (replay_report 0) s)"
    using assms(8) replay_loop_one_pass [OF assms(1,7,9)]
    by (simp add: replay_events_def replay_start_def)
  obtain report where report: "replay_batch P consumer (log s) (replay_report 0) s = (Inr report, s')"
    using s' replay_batch_deliver [of P consumer "log s" s "replay_report 0"]
    unfolding assms(3) by (auto split: prod.splits sum.splits)
  have "bal s' k = account_delta k (concat (map event_postings evs))" for k
  proof -
    have "{ev \<in> set evs. event_uuid (ev_event_id ev) \<notin> seen s} = set evs"
      using assms(5) by auto
    moreover have "inj_on ev_event_id (set evs)" "distinct evs"
      using assms(4) by (simp_all add: distinct_map)
    ultimately show ?thesis
      using deliver_all [OF assms(1) _ s', of k] assms(2) by (simp add: account_delta_events)
  qed
  moreover have "rp_scanned report = of_nat (length evs)"
    using replay_batch_report(1) [OF report] assms(3) by (simp add: replay_report_def)
  ultimately show ?thesis
    using pass report by simp
qed

end

section \<open>The in-memory store keeps the contract\<close>

abbreviation pj_bal :: "Projection \<Rightarrow> AccountId \<times> AssetCode \<Rightarrow> int" where
  "pj_bal pj k \<equiv> amt (projected_balance (fst k) (snd k) pj)"

abbreviation pj_frame :: "Projection \<Rightarrow> Projection \<Rightarrow> bool" where
  "pj_frame pj pj' \<equiv> pj_processed pj' = pj_processed pj \<and> pj_positions pj' = pj_positions pj
     \<and> pj_event_log pj' = pj_event_log pj"

lemma projected_balance_or_zero:
  "projected_balance i a pj = or_zero (map_of (pj_balances pj) (account_uuid i, a))"
  by (simp add: projected_balance_def or_zero_def)

lemma project_posting_frame: "pj_frame pj (snd (project_posting p pj))"
  by (simp add: project_posting_def Let_def split: sum.splits)

interpretation proj: total_posting_fold "pure_step project_posting" pj_bal p_key p_delta
  "ProjDomain AmountOverflow"
proof
  fix p s s' k
  assume "pure_step project_posting p s = Inr s'"
  then show "pj_bal s' k = pj_bal s k + (if p_key p = k then p_delta p else 0)"
    by (cases k) (auto simp: pure_step_def project_posting_def projected_balance_or_zero Let_def amt_simps
        hm.lookup_after_insert split: sum.splits)
next
  fix p s
  show "(\<exists>s'. pure_step project_posting p s = Inr s') \<longleftrightarrow> in_i128 (pj_bal s (p_key p) + p_delta p)"
    by (cases "projected_balance (p_account_id p) (p_asset p) s" "p_amount p" rule: checked_add_cases)
      (auto simp: pure_step_def project_posting_def projected_balance_or_zero Let_def)
next
  fix p s e
  assume "pure_step project_posting p s = Inl e"
  then show "e = ProjDomain AmountOverflow"
    by (auto simp: pure_step_def project_posting_def Let_def amt_simps split: sum.splits)
qed

lemma project_postings_frame: "pj_frame pj (snd (mut_fold project_posting ps pj))"
  by (rule mut_fold_invariant) (use project_posting_frame in auto)

lemma project_postings_cases:
  obtains (ok) pj' where "mut_fold project_posting ps pj = (Inr (), pj')" "pj_frame pj pj'"
      "running_ok p_key p_delta (pj_bal pj) ps" "\<And>k. pj_bal pj' k = pj_bal pj k + account_delta k ps"
    | (overflow) pj' where "mut_fold project_posting ps pj = (Inl (ProjDomain AmountOverflow), pj')"
      "pj_frame pj pj'" "\<not> running_ok p_key p_delta (pj_bal pj) ps"
proof (cases rule: proj.fold_cases [of pj ps])
  case (ok pj')
  then have "mut_fold project_posting ps pj = (Inr (), pj')"
    by (simp add: mut_fold_ok)
  with ok project_postings_frame [of ps pj] proj.fold_bal [OF ok(2)] show ?thesis
    by (intro that(1)) auto
next
  case overflow
  then have "fst (mut_fold project_posting ps pj) = Inl (ProjDomain AmountOverflow)"
    by (simp add: mut_fold_error)
  with overflow project_postings_frame [of ps pj] show ?thesis
    by (intro that(2) [of "snd (mut_fold project_posting ps pj)"]) (auto simp: prod_eq_iff)
qed

interpretation mem_proj: projection_store memory_projection consumer "\<lambda>_. True" pj_bal
    "\<lambda>pj. {u. (consumer, u) \<in> pj_processed pj}" pj_event_log
  for consumer
proof
  fix s i and e :: JournalEntry
  show "event_uuid i \<in> {u. (consumer, u) \<in> pj_processed s}
      \<Longrightarrow> pp_apply_journal memory_projection consumer i e s = (Inr Duplicate, s)"
    by (simp add: memory_projection_def apply_journal_def)
next
  fix s i out s' and e :: JournalEntry
  assume new: "event_uuid i \<notin> {u. (consumer, u) \<in> pj_processed s}"
    and "pp_apply_journal memory_projection consumer i e s = (Inr out, s')"
  then show "out = Applied
      \<and> {u. (consumer, u) \<in> pj_processed s'} = insert (event_uuid i) {u. (consumer, u) \<in> pj_processed s}
      \<and> (\<forall>k. pj_bal s' k = pj_bal s k + account_delta k (je_postings e))"
    by (cases rule: project_postings_cases [of "je_postings e" s])
      (auto simp: memory_projection_def apply_journal_def Let_def projected_balance_def)
next
  fix s i and e :: JournalEntry
  assume "event_uuid i \<notin> {u. (consumer, u) \<in> pj_processed s}"
    and "running_ok p_key p_delta (pj_bal s) (je_postings e)"
  then show "\<exists>s'. pp_apply_journal memory_projection consumer i e s = (Inr Applied, s')"
    by (cases rule: project_postings_cases [of "je_postings e" s])
      (auto simp: memory_projection_def apply_journal_def Let_def)
next
  fix s i r s' and e :: JournalEntry
  assume "pp_apply_journal memory_projection consumer i e s = (r, s')"
  then show "True \<and> pj_event_log s' = pj_event_log s"
    using project_postings_frame [of "je_postings e" s]
    by (auto simp: memory_projection_def apply_journal_def Let_def split: if_splits prod.splits sum.splits)
next
  fix s after limit
  show "pp_fetch_after memory_projection after limit s
      = Inr (take (unat limit) (filter (\<lambda>e. sint (se_cursor e) > sint after) (pj_event_log s)))"
    by (simp add: memory_projection_def fetch_after_def)
qed

end
