(* ===== verification/Projector_Props.thy ===== *)
theory Projector_Props
  imports Projector_Laws Memory_Props
begin

text \<open>
  Properties of the projector over the in-memory projection store, and its agreement with the
  in-memory ledger.
\<close>

section \<open>Delivery\<close>

text \<open>
  Redelivery counts once.  Deliver any sequence of events to a consumer, with any repetitions and
  in any order: when every delivery succeeds, each balance has changed by the postings of the
  distinct events that the consumer had not applied before, each counted once.
\<close>

theorem redelivery_counts_once:
  assumes "mut_fold (deliver memory_projection consumer) evs pj = (Inr (), pj')"
    and "inj_on ev_event_id (set evs)"
  shows "amt (projected_balance i a pj') = amt (projected_balance i a pj)
    + (\<Sum>ev \<in> {ev \<in> set evs. (consumer, event_uuid (ev_event_id ev)) \<notin> pj_processed pj}.
         account_delta (i, a) (event_postings ev))"
  using mem_proj.deliver_all [OF TrueI assms(2,1), of "(i, a)"] by simp

text \<open>
  The deduplication of the in-memory store is per consumer, its balances are not: two consumers
  that apply the same event move the shared balances twice.
\<close>

theorem consumers_share_balances:
  assumes "deliver memory_projection c ev pj = (Inr (), pj1)"
    and "deliver memory_projection c' ev pj1 = (Inr (), pj2)" and "c \<noteq> c'"
    and "(c, event_uuid (ev_event_id ev)) \<notin> pj_processed pj"
    and "(c', event_uuid (ev_event_id ev)) \<notin> pj_processed pj"
  shows "amt (projected_balance i a pj2)
    = amt (projected_balance i a pj) + 2 * account_delta (i, a) (event_postings ev)"
proof -
  have "pj_processed pj1 \<subseteq> insert (c, event_uuid (ev_event_id ev)) (pj_processed pj)"
  proof (cases rule: project_event_cases [of ev memory_projection c pj])
    case (journal e)
    with assms(1) show ?thesis
      by (cases rule: project_postings_cases [of "je_postings e" pj])
        (auto simp: deliver_iff memory_projection_def apply_journal_def Let_def split: if_splits)
  qed (use assms(1) in \<open>auto simp: deliver_iff\<close>)
  then have "(c', event_uuid (ev_event_id ev)) \<notin> pj_processed pj1"
    using assms(3,5) by auto
  then show ?thesis
    using mem_proj.deliver_once(1) [OF TrueI assms(1), of "(i, a)"]
      mem_proj.deliver_once(1) [OF TrueI assms(2), of "(i, a)"] assms(4) by simp
qed

section \<open>Replay\<close>

text \<open>
  C32. The replay loop ends.  On the in-memory store, from any state, starting point and batch size
  and for any log, sorted or not, the replay returns.
\<close>

theorem replay_ends: "\<exists>r. replay_events memory_projection consumer from batch_size pj = Some r"
  unfolding replay_events_def by (rule mem_proj.replay_loop_ends) simp

text \<open>
  Paging does not matter.  Over a log with ascending cursors and with a batch size other than
  zero, the paged replay is a single pass over all events after the starting cursor: none is
  skipped at a page boundary and none is read twice.
\<close>

theorem replay_one_pass:
  assumes "sorted_wrt (\<lambda>a b. sint (se_cursor a) < sint (se_cursor b)) (pj_event_log pj)"
    and "batch_size \<noteq> 0"
  shows "replay_events memory_projection consumer from batch_size pj
    = Some (replay_batch memory_projection consumer
        (filter (\<lambda>e. sint (se_cursor e) > sint (replay_start from)) (pj_event_log pj))
        (replay_report (replay_start from)) pj)"
  unfolding replay_events_def by (rule mem_proj.replay_loop_one_pass [OF TrueI assms])

lemma event_postings_posted: "concat (map event_postings evs) = concat (map je_postings (posted evs))"
  by (induction evs) (auto simp: event_postings_def posted_def List.map_filter_def split: option.splits)

text \<open>What the events of a reachable ledger carry is its journal, and it replays without overflow.\<close>

lemma reachable_events:
  assumes "mem_reach sh st"
  shows "concat (map event_postings (events st)) = journal st" and "distinct (map ev_event_id (events st))"
    and "running_ok p_key p_delta (\<lambda>_. 0) (journal st)"
    and "account_delta (i, a) (journal st) = amt (balance_of st i a)"
  using mem_reach_inv [OF assms] mem_reach_replays [OF assms]
  by (simp_all add: event_postings_posted mem_inv_def events_ok_def journal_def outbox_ok_def ledger_ok_def
      journal_replays_def)

lemma reset_state:
  assumes "pj0 = snd (memory_reset consumer pj)"
  shows "pj_bal pj0 = (\<lambda>_. 0)" "(consumer, u) \<notin> pj_processed pj0" "pj_event_log pj0 = pj_event_log pj"
  using assms by (auto simp: memory_reset_def projected_balance_def fun_eq_iff)

text \<open>
  C29. Reset and replay rebuild the ledger's balances.  Let the log carry the events of a reachable
  ledger store in order, with positive ascending cursors.  Resetting the projection and
  replaying it from the beginning, with any batch size other than zero and from whatever state
  the projection was in, succeeds, scans every event once, skips none as a duplicate, and ends
  with exactly the balances of the ledger.
\<close>

theorem replay_rebuilds:
  assumes "mem_reach sh st" and "map se_event (pj_event_log pj) = events st"
    and "sorted_wrt (\<lambda>a b. sint (se_cursor a) < sint (se_cursor b)) (pj_event_log pj)"
    and "\<forall>e \<in> set (pj_event_log pj). sint (se_cursor e) > 0" and "batch_size \<noteq> 0"
  shows "\<exists>report pj'. replay_events memory_projection consumer Beginning batch_size
             (snd (memory_reset consumer pj)) = Some (Inr report, pj')
       \<and> rp_scanned report = of_nat (length (events st))
       \<and> projected_balance i a pj' = balance_of st i a"
proof -
  define pj0 where "pj0 = snd (memory_reset consumer pj)"
  note r = reset_state [OF pj0_def] and ev = reachable_events [OF assms(1)]
  have "\<exists>report pj'. replay_events memory_projection consumer Beginning batch_size pj0 = Some (Inr report, pj')
      \<and> rp_scanned report = of_nat (length (events st))
      \<and> (\<forall>k. pj_bal pj' k = account_delta k (concat (map event_postings (events st))))"
    by (rule mem_proj.replay_from_reset) (use assms r ev in simp_all)
  then show ?thesis
    using ev(1,4) by (auto simp: pj0_def simp flip: amt_eq_iff)
qed

section \<open>Errors\<close>

text \<open>An account at the top of the range receives one unit more, after another account was credited.\<close>

definition ex_full :: Projection where
  "ex_full = Projection_default\<lparr>pj_balances := [((2, btc), AtomicAmount (word_of_int (2 ^ 127 - 1)))]\<rparr>"

definition ex_overflowing :: JournalEntry where
  "ex_overflowing = ex_entry 3
     [debit_of (AccountId 1) btc (AtomicAmount 100), debit_of (AccountId 2) btc (AtomicAmount 1)]"

text \<open>
  A failed application is not undone.  When the second of two postings overflows, the in-memory
  store reports the overflow and does not remember the event, but keeps the first posting: a
  redelivery of the event adds it again.
\<close>

theorem failed_apply_keeps_postings:
  "fst (apply_journal ''c'' (EventId 4) ex_overflowing ex_full) = Inl (ProjDomain AmountOverflow)
   \<and> projected_balance (AccountId 1) btc (snd (apply_journal ''c'' (EventId 4) ex_overflowing ex_full))
       = AtomicAmount 100
   \<and> projected_balance (AccountId 1) btc (snd (apply_journal ''c'' (EventId 4) ex_overflowing
         (snd (apply_journal ''c'' (EventId 4) ex_overflowing ex_full)))) = AtomicAmount 200"
  by (intro conjI) code_simp+

section \<open>Instances\<close>

definition ex_log :: Projection where
  "ex_log = Projection_default\<lparr>pj_event_log := [\<lparr>se_cursor = 1, se_event = hd (events ex_state)\<rparr>],
     pj_balances := [((1, btc), AtomicAmount 7)]\<rparr>"

definition ex_ev :: LedgerEvent where
  "ex_ev = ex_event 4 (JournalPosted (ex_entry 3 (ex_postings 100)))"

lemma ex_ev_postings: "event_postings ex_ev = ex_postings 100"
  by (simp add: event_postings_def ex_ev_def ex_event_def wrap_event_def ex_entry_def)

lemma ex_postings_delta: "account_delta (AccountId 1, btc) (ex_postings 100) = 100"
  by code_simp

lemma ex_log_events: "map se_event (pj_event_log ex_log) = events ex_state"
  by code_simp

theorem redelivery_counts_once_witness:
  "amt (projected_balance (AccountId 1) btc (snd (mut_fold (deliver memory_projection ''c'')
     [ex_ev, ex_ev, ex_ev] ex_log))) = 107"
proof -
  define pj' where "pj' = snd (mut_fold (deliver memory_projection ''c'') [ex_ev, ex_ev, ex_ev] ex_log)"
  have "fst (mut_fold (deliver memory_projection ''c'') [ex_ev, ex_ev, ex_ev] ex_log) = Inr ()"
    by code_simp
  then have run: "mut_fold (deliver memory_projection ''c'') [ex_ev, ex_ev, ex_ev] ex_log = (Inr (), pj')"
    by (simp add: pj'_def prod_eq_iff)
  have start: "amt (projected_balance (AccountId 1) btc ex_log) = 7" "pj_processed ex_log = {}"
    by code_simp (simp add: ex_log_def Projection_default_def)
  show ?thesis
    unfolding pj'_def [symmetric] using redelivery_counts_once [OF run, of "AccountId 1" btc]
    by (simp add: start ex_ev_postings ex_postings_delta)
qed

theorem consumers_share_balances_witness:
  "amt (projected_balance (AccountId 1) btc (snd (deliver memory_projection ''d'' ex_ev
     (snd (deliver memory_projection ''c'' ex_ev ex_log))))) = 207"
proof -
  define pj1 where "pj1 = snd (deliver memory_projection ''c'' ex_ev ex_log)"
  define pj2 where "pj2 = snd (deliver memory_projection ''d'' ex_ev pj1)"
  have "fst (deliver memory_projection ''c'' ex_ev ex_log) = Inr ()"
    "fst (deliver memory_projection ''d'' ex_ev (snd (deliver memory_projection ''c'' ex_ev ex_log))) = Inr ()"
    by code_simp+
  then have run: "deliver memory_projection ''c'' ex_ev ex_log = (Inr (), pj1)"
    "deliver memory_projection ''d'' ex_ev pj1 = (Inr (), pj2)"
    by (simp_all add: pj1_def pj2_def prod_eq_iff)
  have start: "amt (projected_balance (AccountId 1) btc ex_log) = 7" "pj_processed ex_log = {}"
    by code_simp (simp add: ex_log_def Projection_default_def)
  show ?thesis
    using consumers_share_balances [OF run, of "AccountId 1" btc]
    by (simp add: start ex_ev_postings ex_postings_delta flip: pj1_def pj2_def)
qed

theorem replay_one_pass_witness:
  "replay_events memory_projection ''c'' (AfterCursor 0) 5 ex_log
     = Some (replay_batch memory_projection ''c'' (pj_event_log ex_log) (replay_report 0) ex_log)"
  using replay_one_pass [of ex_log 5 "''c''" "AfterCursor 0"]
  by (simp add: ex_log_def replay_start_def)

theorem replay_rebuilds_witness:
  "(case replay_events memory_projection ''c'' Beginning 5 (snd (memory_reset ''c'' ex_log)) of
      Some (Inr report, pj') \<Rightarrow> rp_scanned report = 1
        \<and> projected_balance (AccountId 1) btc pj' = AtomicAmount 100
    | _ \<Rightarrow> False)"
proof -
  have "length (events ex_state) = 1" "balance_of ex_state (AccountId 1) btc = AtomicAmount 100"
    by code_simp+
  moreover have "sorted_wrt (\<lambda>a b. sint (se_cursor a) < sint (se_cursor b)) (pj_event_log ex_log)"
    "\<forall>e \<in> set (pj_event_log ex_log). sint (se_cursor e) > 0"
    by (simp_all add: ex_log_def)
  ultimately show ?thesis
    using replay_rebuilds [OF ex_reach ex_log_events, of 5 "''c''" "AccountId 1" btc] by auto
qed

end
