(* ===== verification/Postgres_Convert.thy ===== *)
theory Postgres_Convert
  imports Ports Projector Reconciler
begin

text \<open>
  \<open>crates/storage-postgres/src/error.rs\<close> and \<open>convert.rs\<close>: storage errors and how they turn into the
  errors of the callers, the text encodings of the enumerations and amounts, and the decoding of
  rows.  A row of a table of \<open>migrations/001_init.sql\<close> is a record of its columns, so \<open>try_get\<close>
  with the declared type does not fail.  A \<open>TIMESTAMPTZ\<close> column keeps whole microseconds, so a time
  with nanoseconds is cut off when it is bound to a statement (\<open>timestamptz\<close>); a \<open>JSONB\<close> column holds
  the JSON value.

  What belongs to \<open>sqlx\<close>, \<open>uuid\<close> and \<open>serde_json\<close> is in \<open>pg_env\<close>: the display of database errors and of
  UUIDs, and the JSON codec of events; and, of the server, whether it accepts a \<open>SELECT DISTINCT\<close>.
\<close>

section \<open>Errors\<close>

datatype SqlxError =
    DbConstraint string
  | SqlxOther string

datatype StorageError =
    Database SqlxError
  | Migrate string
  | StorageDomain DomainError
  | JsonError string

record pg_env =
  pe_sqlx_show :: "SqlxError \<Rightarrow> string"
  pe_uuid_show :: "uuid \<Rightarrow> string"
  pe_to_value :: "LedgerEvent \<Rightarrow> string + Value"
  pe_from_value :: "Value \<Rightarrow> string + LedgerEvent"
  pe_distinct :: "string list \<Rightarrow> string \<Rightarrow> SqlxError option"

fun display_storage_error :: "pg_env \<Rightarrow> StorageError \<Rightarrow> string" where
  "display_storage_error env (Database e) = ''database error: '' @ pe_sqlx_show env e"
| "display_storage_error env (Migrate e) = ''migration error: '' @ e"
| "display_storage_error env (StorageDomain e) = display_domain_error e"
| "display_storage_error env (JsonError e) = ''json error: '' @ e"

fun ledger_of_storage :: "pg_env \<Rightarrow> StorageError \<Rightarrow> LedgerError" where
  "ledger_of_storage env (StorageDomain err) = Domain err"
| "ledger_of_storage env other = Storage (display_storage_error env other)"

fun projector_of_storage :: "pg_env \<Rightarrow> StorageError \<Rightarrow> ProjectorError" where
  "projector_of_storage env (StorageDomain err) = ProjDomain err"
| "projector_of_storage env other = ProjStore (display_storage_error env other)"

fun reconcile_of_storage :: "pg_env \<Rightarrow> StorageError \<Rightarrow> ReconcileError" where
  "reconcile_of_storage env (StorageDomain err) = RecDomain err"
| "reconcile_of_storage env other = RecStore (display_storage_error env other)"

section \<open>Text encodings\<close>

definition amount_to_str :: "AtomicAmount \<Rightarrow> string" where
  "amount_to_str amount = show_i128 (raw amount)"

definition column_amount :: "string \<Rightarrow> StorageError + AtomicAmount" where
  "column_amount text =
     (case parse_i128 text of
        None \<Rightarrow> Inl (StorageDomain (InvalidMoneyFormat text))
      | Some r \<Rightarrow> Inr (AtomicAmount r))"

fun kind_to_str :: "AccountKind \<Rightarrow> string" where
  "kind_to_str CustomerAvailable = ''customer_available''"
| "kind_to_str CustomerLocked = ''customer_locked''"
| "kind_to_str ExchangeHotWallet = ''exchange_hot_wallet''"
| "kind_to_str ExchangeColdWallet = ''exchange_cold_wallet''"
| "kind_to_str FeeRevenue = ''fee_revenue''"
| "kind_to_str WithdrawalClearing = ''withdrawal_clearing''"
| "kind_to_str DepositClearing = ''deposit_clearing''"
| "kind_to_str OtherKind = ''other''"

definition unknown_text :: "string \<Rightarrow> string \<Rightarrow> StorageError" where
  "unknown_text what other =
     StorageDomain (Invariant (''unknown '' @ what @ '' '' @ [CHR 0x27] @ other @ [CHR 0x27]))"

definition kind_from_str :: "string \<Rightarrow> StorageError + AccountKind" where
  "kind_from_str text =
     (if text = ''customer_available'' then Inr CustomerAvailable
      else if text = ''customer_locked'' then Inr CustomerLocked
      else if text = ''exchange_hot_wallet'' then Inr ExchangeHotWallet
      else if text = ''exchange_cold_wallet'' then Inr ExchangeColdWallet
      else if text = ''fee_revenue'' then Inr FeeRevenue
      else if text = ''withdrawal_clearing'' then Inr WithdrawalClearing
      else if text = ''deposit_clearing'' then Inr DepositClearing
      else if text = ''other'' then Inr OtherKind
      else Inl (unknown_text ''account kind'' text))"

fun policy_to_str :: "AccountPolicy \<Rightarrow> string" where
  "policy_to_str NonNegative = ''non_negative''"
| "policy_to_str AllowNegative = ''allow_negative''"

definition policy_from_str :: "string \<Rightarrow> StorageError + AccountPolicy" where
  "policy_from_str text =
     (if text = ''non_negative'' then Inr NonNegative
      else if text = ''allow_negative'' then Inr AllowNegative
      else Inl (unknown_text ''account policy'' text))"

fun status_to_str :: "AccountStatus \<Rightarrow> string" where
  "status_to_str Active = ''active''"
| "status_to_str Frozen = ''frozen''"
| "status_to_str Closed = ''closed''"

definition status_from_str :: "string \<Rightarrow> StorageError + AccountStatus" where
  "status_from_str text =
     (if text = ''active'' then Inr Active
      else if text = ''frozen'' then Inr Frozen
      else if text = ''closed'' then Inr Closed
      else Inl (unknown_text ''account status'' text))"

fun side_to_str :: "PostingSide \<Rightarrow> string" where
  "side_to_str Debit = ''debit''"
| "side_to_str Credit = ''credit''"

section \<open>Rows\<close>

record AccountRow =
  ar_id :: uuid
  ar_name :: string
  ar_kind :: string
  ar_policy :: string
  ar_status :: string
  ar_created_at :: datetime

record EntryRow =
  er_id :: uuid
  er_idempotency_key :: string
  er_description :: string
  er_status :: string
  er_correlation_id :: uuid
  er_causation_id :: uuid
  er_created_at :: datetime

record PostingRow =
  po_id :: i64
  po_entry_id :: uuid
  po_account_id :: uuid
  po_asset :: string
  po_amount_atomic :: string
  po_side :: string

record BalanceRow =
  ba_account_id :: uuid
  ba_asset :: string
  ba_amount_atomic :: string
  ba_updated_at :: datetime

record IdempotencyRow =
  ik_scope :: string
  ik_key :: string
  ik_request_hash :: string
  ik_response :: Value
  ik_created_at :: datetime

record PgOutboxRow =
  ob_id :: i64
  ob_event_id :: uuid
  ob_topic :: string
  ob_partition_key :: string
  ob_payload :: Value
  ob_published_at :: "datetime option"
  ob_leased_until :: "datetime option"
  ob_attempts :: i32
  ob_last_error :: "string option"
  ob_created_at :: datetime

record ProcessedRow =
  pr_consumer :: string
  pr_event_id :: uuid
  pr_processed_at :: datetime

record OffsetRow =
  of_consumer :: string
  of_topic :: string
  of_partition :: i32
  of_offset :: i64
  of_updated_at :: datetime

record ProjectionRow =
  pv_consumer :: string
  pv_account_id :: uuid
  pv_asset :: string
  pv_amount_atomic :: string
  pv_updated_at :: datetime

section \<open>Decoding rows\<close>

definition from_domain_storage :: "DomainError + 'a \<Rightarrow> StorageError + 'a" where
  "from_domain_storage r = map_err StorageDomain r"

definition account_from_row :: "AccountRow \<Rightarrow> StorageError + Account" where
  "account_from_row row =
     and_then (kind_from_str (ar_kind row)) (\<lambda>kind.
     and_then (policy_from_str (ar_policy row)) (\<lambda>policy.
     and_then (status_from_str (ar_status row)) (\<lambda>status.
       Inr \<lparr>acc_id = AccountId (ar_id row), acc_name = ar_name row, acc_kind = kind,
            acc_policy = policy, acc_status = status, acc_created_at = ar_created_at row\<rparr>)))"

definition idempotency_from_row :: "IdempotencyRow \<Rightarrow> StorageError + IdempotencyRecord" where
  "idempotency_from_row row =
     and_then (from_domain_storage (IdempotencyKey_new (ik_key row))) (\<lambda>key.
       Inr \<lparr>ir_scope = ik_scope row, ir_key = key, ir_request_hash = RequestHash (ik_request_hash row),
            ir_response = ik_response row, ir_created_at = ik_created_at row\<rparr>)"

definition event_from_payload :: "pg_env \<Rightarrow> uuid \<Rightarrow> Value \<Rightarrow> datetime \<Rightarrow> StorageError + LedgerEvent" where
  "event_from_payload env event_id payload created_at =
     and_then (map_err JsonError (pe_from_value env payload)) (\<lambda>event.
       Inr (event\<lparr>ev_event_id := EventId event_id, ev_created_at := created_at\<rparr>))"

definition side_from_str :: "string \<Rightarrow> StorageError + PostingSide" where
  "side_from_str text =
     (if text = ''debit'' then Inr Debit
      else if text = ''credit'' then Inr Credit
      else Inl (unknown_text ''posting side'' text))"

definition posting_from_row :: "PostingRow \<Rightarrow> StorageError + Posting" where
  "posting_from_row row =
     and_then (side_from_str (po_side row)) (\<lambda>side.
     and_then (from_domain_storage (AssetCode_new (po_asset row))) (\<lambda>asset.
     and_then (column_amount (po_amount_atomic row)) (\<lambda>amount.
       Inr \<lparr>p_account_id = AccountId (po_account_id row), p_asset = asset, p_amount = amount,
            p_side = side\<rparr>)))"

definition entry_status_from_str :: "string \<Rightarrow> StorageError + EntryStatus" where
  "entry_status_from_str text =
     (if text = ''posted'' then Inr Posted
      else if text = ''voided'' then Inr Voided
      else Inl (unknown_text ''entry status'' text))"

text \<open>\<open>load_postings\<close> and \<open>load_entry\<close> on the rows their queries return.\<close>

definition load_postings :: "PostingRow list \<Rightarrow> uuid \<Rightarrow> StorageError + Posting list" where
  "load_postings rows entry_id =
     collect_results (map posting_from_row
       (sort_key (\<lambda>row. sint (po_id row)) (filter (\<lambda>row. po_entry_id row = entry_id) rows)))"

definition load_entry ::
    "EntryRow list \<Rightarrow> PostingRow list \<Rightarrow> TransactionId \<Rightarrow> StorageError + JournalEntry option" where
  "load_entry entry_rows posting_rows tid =
     (case find (\<lambda>row. er_id row = transaction_uuid tid) entry_rows of
        None \<Rightarrow> Inr None
      | Some row \<Rightarrow>
          and_then (load_postings posting_rows (er_id row)) (\<lambda>postings.
          and_then (entry_status_from_str (er_status row)) (\<lambda>status.
          and_then (from_domain_storage (IdempotencyKey_new (er_idempotency_key row))) (\<lambda>key.
            Inr (Some \<lparr>je_id = TransactionId (er_id row), je_idempotency_key = key,
                  je_description = er_description row, je_postings = postings, je_status = status,
                  je_correlation_id = CorrelationId (er_correlation_id row),
                  je_causation_id = CausationId (er_causation_id row),
                  je_created_at = er_created_at row\<rparr>)))))"

definition balance_from_row :: "BalanceRow \<Rightarrow> StorageError + BalanceRecord" where
  "balance_from_row row =
     and_then (from_domain_storage (AssetCode_new (ba_asset row))) (\<lambda>asset.
     and_then (column_amount (ba_amount_atomic row)) (\<lambda>amount.
       Inr \<lparr>br_account_id = AccountId (ba_account_id row), br_asset = asset, br_amount = amount,
            br_updated_at = ba_updated_at row\<rparr>))"

section \<open>Encoding and decoding\<close>

text \<open>Binding a time: readings of the clock lie after the epoch of PostgreSQL, the year 2000.\<close>

definition timestamptz :: "datetime \<Rightarrow> datetime" where
  "timestamptz t = t div 1000 * 1000"

lemma timestamptz_idem [simp]: "timestamptz (timestamptz t) = timestamptz t"
  by (simp add: timestamptz_def)

lemma timestamptz_less: "timestamptz s < timestamptz t \<longleftrightarrow> s < timestamptz t"
  using zdiv_mono1 [of s "t div 1000 * 1000" 1000] by (auto simp: timestamptz_def div_less_dividend)

lemma column_amount_text [simp]: "column_amount (amount_to_str a) = Inr a"
  by (simp add: column_amount_def amount_to_str_def)

lemma enum_texts [simp]:
  "kind_from_str (kind_to_str k) = Inr k" "policy_from_str (policy_to_str p) = Inr p"
  "status_from_str (status_to_str s) = Inr s" "side_from_str (side_to_str d) = Inr d"
  by ((cases k; simp add: kind_from_str_def), (cases p; simp add: policy_from_str_def),
    (cases s; simp add: status_from_str_def), (cases d; simp add: side_from_str_def))

lemma policy_text_iff: "policy_to_str p = ''non_negative'' \<longleftrightarrow> p = NonNegative"
  by (cases p) simp_all

lemma status_text: "status_to_str s = status_as_str s"
  by (cases s) simp_all

lemma status_text_iff: "status_to_str s = ''active'' \<longleftrightarrow> s = Active" "status_as_str s = ''active'' \<longleftrightarrow> s = Active"
  by (cases s; simp)+

text \<open>Only the written texts are read: decoding inverts encoding in both directions.\<close>

lemma kind_from_str_Inr: "kind_from_str t = Inr k \<longleftrightarrow> t = kind_to_str k"
  by (cases k) (auto simp: kind_from_str_def split: if_splits)

lemma policy_from_str_Inr: "policy_from_str t = Inr p \<longleftrightarrow> t = policy_to_str p"
  by (cases p) (auto simp: policy_from_str_def split: if_splits)

lemma status_from_str_Inr: "status_from_str t = Inr s \<longleftrightarrow> t = status_to_str s"
  by (cases s) (auto simp: status_from_str_def split: if_splits)

definition account_to_row :: "Account \<Rightarrow> AccountRow" where
  "account_to_row account =
     \<lparr>ar_id = account_uuid (acc_id account), ar_name = acc_name account,
      ar_kind = kind_to_str (acc_kind account), ar_policy = policy_to_str (acc_policy account),
      ar_status = status_to_str (acc_status account), ar_created_at = timestamptz (acc_created_at account)\<rparr>"

definition record_to_row :: "IdempotencyRecord \<Rightarrow> IdempotencyRow" where
  "record_to_row r =
     \<lparr>ik_scope = ir_scope r, ik_key = key_str (ir_key r), ik_request_hash = hash_str (ir_request_hash r),
      ik_response = ir_response r, ik_created_at = timestamptz (ir_created_at r)\<rparr>"

definition entry_to_row :: "JournalEntry \<Rightarrow> EntryRow" where
  "entry_to_row entry =
     \<lparr>er_id = transaction_uuid (je_id entry), er_idempotency_key = key_str (je_idempotency_key entry),
      er_description = je_description entry, er_status = ''posted'',
      er_correlation_id = correlation_uuid (je_correlation_id entry),
      er_causation_id = causation_uuid (je_causation_id entry), er_created_at = timestamptz (je_created_at entry)\<rparr>"

definition posting_to_row :: "i64 \<Rightarrow> uuid \<Rightarrow> Posting \<Rightarrow> PostingRow" where
  "posting_to_row i entry_id posting =
     \<lparr>po_id = i, po_entry_id = entry_id, po_account_id = account_uuid (p_account_id posting),
      po_asset = code_str (p_asset posting), po_amount_atomic = amount_to_str (p_amount posting),
      po_side = side_to_str (p_side posting)\<rparr>"

definition balance_to_row :: "BalanceRecord \<Rightarrow> BalanceRow" where
  "balance_to_row r =
     \<lparr>ba_account_id = account_uuid (br_account_id r), ba_asset = code_str (br_asset r),
      ba_amount_atomic = amount_to_str (br_amount r), ba_updated_at = timestamptz (br_updated_at r)\<rparr>"

text \<open>
  Rows carry what was stored, up to the precision of times; a row with any other text in a column is
  rejected rather than read as some account.
\<close>

lemma account_from_row_Inr:
  "account_from_row row = Inr account \<longleftrightarrow> row = (account_to_row account)\<lparr>ar_created_at := acc_created_at account\<rparr>"
  by (cases row; cases account)
    (auto simp: account_from_row_def account_to_row_def result_simps kind_from_str_Inr
      policy_from_str_Inr status_from_str_Inr)

lemma idempotency_row_roundtrip:
  "key_wf (ir_key r) \<Longrightarrow> idempotency_from_row (record_to_row r) = Inr (r\<lparr>ir_created_at := timestamptz (ir_created_at r)\<rparr>)"
  by (cases r; cases "ir_key r")
    (simp add: idempotency_from_row_def record_to_row_def from_domain_storage_def
      IdempotencyKey_new_iff [THEN iffD2])

lemma posting_row_roundtrip:
  "code_wf (p_asset p) \<Longrightarrow> posting_from_row (posting_to_row i e p) = Inr p"
  by (cases p) (simp add: posting_from_row_def posting_to_row_def from_domain_storage_def AssetCode_new_fixed)

lemma balance_row_roundtrip:
  "code_wf (br_asset r) \<Longrightarrow> balance_from_row (balance_to_row r) = Inr (r\<lparr>br_updated_at := timestamptz (br_updated_at r)\<rparr>)"
  by (cases r) (simp add: balance_from_row_def balance_to_row_def from_domain_storage_def AssetCode_new_fixed)

end
