(* ===== verification/Postgres.thy ===== *)
theory Postgres
  imports Postgres_Convert Service
begin

text \<open>
  \<open>crates/storage-postgres/src/store.rs\<close>: the ledger ports over PostgreSQL.  \<open>Db\<close> holds the tables of
  \<open>migrations/001_init.sql\<close>; the order of a list stands for the order in which a query without
  \<open>ORDER BY\<close> returns rows.  Each SQL statement is a function on the tables, and each port call runs
  its statements one after the other.

  \<open>faults\<close> says which statements of a call fail: \<open>Failed\<close> before they had an effect, \<open>Lost\<close> after, when
  only the answer is lost.  A transaction runs on the tables as they were at its begin and takes
  effect at its commit; dropping it or rolling it back leaves the tables alone.  The row locks
  (\<open>FOR UPDATE\<close>) of \<open>apply_postings_tx\<close> make concurrent commits on an account wait for each other,
  so a call is one step.

  The schema names a column \<open>offset\<close>, a reserved word of PostgreSQL, without quotes; the statements
  on the table \<open>consumer_offsets\<close> are read as if it were quoted.

  \<open>serials\<close> are the values the database draws for \<open>BIGSERIAL\<close> columns in a call; \<open>now\<close> is its \<open>NOW()\<close>
  or \<open>Utc::now()\<close>.
\<close>

section \<open>Tables, statements and transactions\<close>

record Db =
  t_accounts :: "AccountRow list"
  t_entries :: "EntryRow list"
  t_postings :: "PostingRow list"
  t_balances :: "BalanceRow list"
  t_idempotency :: "IdempotencyRow list"
  t_outbox :: "PgOutboxRow list"
  t_processed :: "ProcessedRow list"
  t_offsets :: "OffsetRow list"
  t_projection :: "ProjectionRow list"

definition Db_empty :: Db where
  "Db_empty = \<lparr>t_accounts = [], t_entries = [], t_postings = [], t_balances = [],
     t_idempotency = [], t_outbox = [], t_processed = [], t_offsets = [], t_projection = []\<rparr>"

datatype fault = Failed string | Lost string

type_synonym faults = "nat \<Rightarrow> fault option"

definition no_faults :: faults where
  "no_faults = (\<lambda>_. None)"

fun fault_error :: "fault \<Rightarrow> SqlxError" where
  "fault_error (Failed e) = SqlxOther e"
| "fault_error (Lost e) = SqlxOther e"

record serials =
  sr_posting :: "nat \<Rightarrow> i64"
  sr_outbox :: "nat \<Rightarrow> i64"

text \<open>A computation on the tables that counts its statements.\<close>

type_synonym ('e, 'a) tx = "Db \<times> nat \<Rightarrow> ('e + 'a) \<times> Db \<times> nat"

definition tx_done :: "'e + 'a \<Rightarrow> ('e, 'a) tx" where
  "tx_done r s = (r, s)"

definition tx_bind :: "('e, 'a) tx \<Rightarrow> ('a \<Rightarrow> ('e, 'b) tx) \<Rightarrow> ('e, 'b) tx" where
  "tx_bind m f s = (case m s of (Inl e, s') \<Rightarrow> (Inl e, s') | (Inr a, s') \<Rightarrow> f a s')"

definition tx_err :: "('e \<Rightarrow> 'f) \<Rightarrow> ('e, 'a) tx \<Rightarrow> ('f, 'a) tx" where
  "tx_err g m s = (case m s of (r, s') \<Rightarrow> (map_err g r, s'))"

definition sql :: "faults \<Rightarrow> (Db \<Rightarrow> (SqlxError + 'a) \<times> Db) \<Rightarrow> (SqlxError, 'a) tx" where
  "sql ft f s =
     (case s of (db, n) \<Rightarrow>
        (case ft n of
           None \<Rightarrow> (case f db of (r, db') \<Rightarrow> (r, db', Suc n))
         | Some (Failed e) \<Rightarrow> (Inl (SqlxOther e), db, Suc n)
         | Some (Lost e) \<Rightarrow> (Inl (SqlxOther e), snd (f db), Suc n)))"

definition query :: "faults \<Rightarrow> (Db \<Rightarrow> 'a) \<Rightarrow> (SqlxError, 'a) tx" where
  "query ft f = sql ft (\<lambda>db. (Inr (f db), db))"

text \<open>A call without transaction, and a transaction that ends in a commit or a rollback.\<close>

definition on_pool :: "('e, 'a) tx \<Rightarrow> Db \<Rightarrow> ('e + 'a) \<times> Db" where
  "on_pool m db = (case m (db, 0) of (r, db', _) \<Rightarrow> (r, db'))"

datatype 'a tx_end = Commit 'a | Rollback 'a

definition transaction :: "(SqlxError \<Rightarrow> 'e) \<Rightarrow> faults \<Rightarrow> ('e, 'a tx_end) tx \<Rightarrow> Db \<Rightarrow> ('e + 'a) \<times> Db" where
  "transaction err ft body db =
     (case ft 0 of
        Some flt \<Rightarrow> (Inl (err (fault_error flt)), db)
      | None \<Rightarrow>
          (case body (db, 1) of
             (Inl e, _) \<Rightarrow> (Inl e, db)
           | (Inr (Rollback a), _) \<Rightarrow> (Inr a, db)
           | (Inr (Commit a), db', n) \<Rightarrow>
               (case ft n of
                  None \<Rightarrow> (Inr a, db')
                | Some (Failed e) \<Rightarrow> (Inl (err (SqlxOther e)), db)
                | Some (Lost e) \<Rightarrow> (Inl (err (SqlxOther e)), db'))))"

definition sqlx_ledger :: "pg_env \<Rightarrow> SqlxError \<Rightarrow> LedgerError" where
  "sqlx_ledger env err = Storage (pe_sqlx_show env err)"

text \<open>\<open>map_err(StorageError::from)?\<close> in a function that returns a \<open>LedgerError\<close>.\<close>

abbreviation ledger_err :: "pg_env \<Rightarrow> SqlxError \<Rightarrow> LedgerError" where
  "ledger_err env e \<equiv> ledger_of_storage env (Database e)"

section \<open>Helpers of the transactions\<close>

definition pg_insert_idempotency :: "faults \<Rightarrow> IdempotencyRecord \<Rightarrow> (StorageError, CommitOutcome) tx" where
  "pg_insert_idempotency ft r =
     tx_bind (tx_err Database (sql ft (\<lambda>db.
         if list_ex (\<lambda>row. ik_scope row = ir_scope r \<and> ik_key row = key_str (ir_key r)) (t_idempotency db)
         then (Inr (0 :: nat), db)
         else (Inr 1, db\<lparr>t_idempotency := t_idempotency db @ [record_to_row r]\<rparr>))))
       (\<lambda>rows_affected.
         tx_done (Inr (if rows_affected = 0 then DuplicateIdempotencyKey else Committed)))"

definition outbox_insert :: "i64 \<Rightarrow> string \<Rightarrow> LedgerEvent \<Rightarrow> Value \<Rightarrow> Db \<Rightarrow> (SqlxError + nat) \<times> Db" where
  "outbox_insert i topic event payload db =
     (if list_ex (\<lambda>row. ob_event_id row = event_uuid (ev_event_id event)) (t_outbox db)
      then (Inr 0, db)
      else (Inr 1, db\<lparr>t_outbox := t_outbox db @
        [\<lparr>ob_id = i, ob_event_id = event_uuid (ev_event_id event), ob_topic = topic,
          ob_partition_key = ev_aggregate_id event, ob_payload = payload, ob_published_at = None,
          ob_leased_until = None, ob_attempts = 0, ob_last_error = None,
          ob_created_at = timestamptz (ev_created_at event)\<rparr>]\<rparr>))"

fun pg_insert_outbox ::
    "pg_env \<Rightarrow> faults \<Rightarrow> (nat \<Rightarrow> i64) \<Rightarrow> string \<Rightarrow> nat \<Rightarrow> LedgerEvent list \<Rightarrow> (StorageError, unit) tx" where
  "pg_insert_outbox env ft ids topic k [] = tx_done (Inr ())"
| "pg_insert_outbox env ft ids topic k (event # evs) =
     tx_bind (tx_done (map_err JsonError (pe_to_value env event))) (\<lambda>payload.
     tx_bind (tx_err Database (sql ft (outbox_insert (ids k) topic event payload))) (\<lambda>_.
       pg_insert_outbox env ft ids topic (Suc k) evs))"

definition select_balance :: "uuid \<Rightarrow> string \<Rightarrow> Db \<Rightarrow> BalanceRow option" where
  "select_balance uid asset db =
     find (\<lambda>row. ba_account_id row = uid \<and> ba_asset row = asset) (t_balances db)"

definition update_balance :: "uuid \<Rightarrow> string \<Rightarrow> string \<Rightarrow> datetime \<Rightarrow> Db \<Rightarrow> Db" where
  "update_balance uid asset amount now db =
     db\<lparr>t_balances := map (\<lambda>row. if ba_account_id row = uid \<and> ba_asset row = asset
          then row\<lparr>ba_amount_atomic := amount, ba_updated_at := timestamptz now\<rparr> else row) (t_balances db)\<rparr>"

definition insert_balance :: "uuid \<Rightarrow> string \<Rightarrow> string \<Rightarrow> datetime \<Rightarrow> Db \<Rightarrow> Db" where
  "insert_balance uid asset amount now db =
     db\<lparr>t_balances := t_balances db @
       [\<lparr>ba_account_id = uid, ba_asset = asset, ba_amount_atomic = amount, ba_updated_at = timestamptz now\<rparr>]\<rparr>"

text \<open>
  One iteration of \<open>apply_postings_tx\<close>.  The account row read first satisfies the references of the
  rows written later, and the entry row was inserted before.
\<close>

definition pg_apply_posting ::
    "pg_env \<Rightarrow> faults \<Rightarrow> i64 \<Rightarrow> datetime \<Rightarrow> uuid \<Rightarrow> Posting \<Rightarrow> (LedgerError, unit) tx" where
  "pg_apply_posting env ft serial now entry_id posting =
     (let uid = account_uuid (p_account_id posting);
          asset = code_str (p_asset posting);
          stmt = (\<lambda>f. tx_err (sqlx_ledger env) (sql ft (\<lambda>db. (Inr (), f db))))
      in tx_bind (tx_err (sqlx_ledger env) (query ft (\<lambda>db. find (\<lambda>row. ar_id row = uid) (t_accounts db))))
      (\<lambda>account_row. case account_row of
         None \<Rightarrow> tx_done (Inl (NotFound ''account'' (AccountId_display (pe_uuid_show env) (p_account_id posting))))
       | Some account_row \<Rightarrow>
           if ar_status account_row \<noteq> ''active''
           then tx_done (Inl (Domain (AccountNotActive
                  (AccountId_display (pe_uuid_show env) (p_account_id posting)) (ar_status account_row))))
           else
             tx_bind (tx_err (sqlx_ledger env) (query ft (select_balance uid asset))) (\<lambda>balance_row.
             tx_bind (tx_done (case balance_row of
                 None \<Rightarrow> Inr ZERO
               | Some row \<Rightarrow> map_err (ledger_of_storage env) (column_amount (ba_amount_atomic row)))) (\<lambda>current.
             tx_bind (tx_done (map_err Domain (checked_add current (p_amount posting)))) (\<lambda>updated.
             if is_negative updated \<and> ar_policy account_row = ''non_negative''
             then tx_done (Inl (Domain (InsufficientBalance
                    (AccountId_display (pe_uuid_show env) (p_account_id posting)) asset
                    (raw current) (raw (p_amount posting)))))
             else
               tx_bind (stmt (if balance_row \<noteq> None
                   then update_balance uid asset (amount_to_str updated) now
                   else insert_balance uid asset (amount_to_str updated) now)) (\<lambda>_.
               stmt (\<lambda>db. db\<lparr>t_postings := t_postings db @ [posting_to_row serial entry_id posting]\<rparr>)))))))"

fun pg_apply_postings ::
    "pg_env \<Rightarrow> faults \<Rightarrow> (nat \<Rightarrow> i64) \<Rightarrow> datetime \<Rightarrow> uuid \<Rightarrow> nat \<Rightarrow> Posting list \<Rightarrow> (LedgerError, unit) tx" where
  "pg_apply_postings env ft ids now entry_id k [] = tx_done (Inr ())"
| "pg_apply_postings env ft ids now entry_id k (posting # postings) =
     tx_bind (pg_apply_posting env ft (ids k) now entry_id posting) (\<lambda>_.
       pg_apply_postings env ft ids now entry_id (Suc k) postings)"

section \<open>AccountRepo and LedgerRepo\<close>

definition account_insert :: "Account \<Rightarrow> Db \<Rightarrow> (SqlxError + unit) \<times> Db" where
  "account_insert account db =
     (if list_ex (\<lambda>row. ar_id row = account_uuid (acc_id account)) (t_accounts db)
      then (Inl (DbConstraint ''accounts_pkey''), db)
      else if list_ex (\<lambda>row. ar_name row = acc_name account) (t_accounts db)
      then (Inl (DbConstraint ''accounts_name_key''), db)
      else (Inr (), db\<lparr>t_accounts := t_accounts db @ [account_to_row account]\<rparr>))"

text \<open>The error of the insert is turned into a conflict when it names the unique constraint on names.\<close>

definition create_error :: "pg_env \<Rightarrow> Account \<Rightarrow> SqlxError \<Rightarrow> LedgerError" where
  "create_error env account e =
     (if e = DbConstraint ''accounts_name_key''
      then Conflict (''account name '' @ [CHR 0x27] @ acc_name account @ [CHR 0x27] @ '' is already taken'')
      else ledger_err env e)"

definition pg_create ::
    "pg_env \<Rightarrow> faults \<Rightarrow> serials \<Rightarrow> string \<Rightarrow> AccountCommit \<Rightarrow> Db \<Rightarrow> (LedgerError + CommitOutcome) \<times> Db" where
  "pg_create env ft sr topic c =
     transaction (ledger_err env) ft
       (tx_bind (tx_err (ledger_of_storage env) (pg_insert_idempotency ft (ac_idempotency c))) (\<lambda>outcome.
        if outcome = DuplicateIdempotencyKey then tx_done (Inr (Rollback DuplicateIdempotencyKey))
        else
          tx_bind (tx_err (create_error env (ac_account c)) (sql ft (account_insert (ac_account c)))) (\<lambda>_.
          tx_bind (tx_err (ledger_of_storage env)
              (pg_insert_outbox env ft (sr_outbox sr) topic 0 (ac_events c))) (\<lambda>_.
          tx_done (Inr (Commit Committed))))))"

definition pg_account_rows :: "pg_env \<Rightarrow> AccountRow list \<Rightarrow> LedgerError + Account list" where
  "pg_account_rows env rows = map_err (ledger_of_storage env) (collect_results (map account_from_row rows))"

definition pg_account_row :: "pg_env \<Rightarrow> AccountRow option \<Rightarrow> LedgerError + Account option" where
  "pg_account_row env row =
     (case row of
        None \<Rightarrow> Inr None
      | Some row \<Rightarrow> map_err (ledger_of_storage env) (and_then (account_from_row row) (\<lambda>a. Inr (Some a))))"

definition pg_find_account :: "pg_env \<Rightarrow> faults \<Rightarrow> AccountId \<Rightarrow> Db \<Rightarrow> (LedgerError + Account option) \<times> Db" where
  "pg_find_account env ft i =
     on_pool (tx_bind (tx_err (ledger_err env)
         (query ft (\<lambda>db. find (\<lambda>row. ar_id row = account_uuid i) (t_accounts db))))
       (\<lambda>row. tx_done (pg_account_row env row)))"

definition pg_find_by_name :: "pg_env \<Rightarrow> faults \<Rightarrow> string \<Rightarrow> Db \<Rightarrow> (LedgerError + Account option) \<times> Db" where
  "pg_find_by_name env ft n =
     on_pool (tx_bind (tx_err (ledger_err env)
         (query ft (\<lambda>db. find (\<lambda>row. ar_name row = n) (t_accounts db))))
       (\<lambda>row. tx_done (pg_account_row env row)))"

definition pg_load_many :: "pg_env \<Rightarrow> faults \<Rightarrow> AccountId list \<Rightarrow> Db \<Rightarrow> (LedgerError + Account list) \<times> Db" where
  "pg_load_many env ft ids =
     on_pool (tx_bind (tx_err (ledger_err env)
         (query ft (\<lambda>db. filter (\<lambda>row. ar_id row \<in> account_uuid ` set ids) (t_accounts db))))
       (\<lambda>rows. tx_done (pg_account_rows env rows)))"

text \<open>\<open>LIMIT $1 OFFSET $2\<close>, and \<open>ORDER BY\<close> a text column under the collation of the database.\<close>

definition sql_page :: "Page \<Rightarrow> 'a list \<Rightarrow> 'a list" where
  "sql_page page rows = take (nat (sint (limit_i64 page))) (drop (nat (sint (offset_i64 page))) rows)"

definition pg_list_accounts ::
    "pg_env \<Rightarrow> (string \<Rightarrow> string) \<Rightarrow> faults \<Rightarrow> Page \<Rightarrow> Db \<Rightarrow> (LedgerError + Account list) \<times> Db" where
  "pg_list_accounts env collate ft page =
     on_pool (tx_bind (tx_err (ledger_err env)
         (query ft (\<lambda>db. sql_page page (sort_key (collate \<circ> ar_name) (t_accounts db)))))
       (\<lambda>rows. tx_done (pg_account_rows env rows)))"

definition entry_insert :: "JournalEntry \<Rightarrow> Db \<Rightarrow> (SqlxError + unit) \<times> Db" where
  "entry_insert entry db =
     (if list_ex (\<lambda>row. er_id row = transaction_uuid (je_id entry)) (t_entries db)
      then (Inl (DbConstraint ''journal_entries_pkey''), db)
      else (Inr (), db\<lparr>t_entries := t_entries db @ [entry_to_row entry]\<rparr>))"

definition pg_commit ::
    "pg_env \<Rightarrow> faults \<Rightarrow> serials \<Rightarrow> string \<Rightarrow> datetime \<Rightarrow> JournalCommit \<Rightarrow> Db
      \<Rightarrow> (LedgerError + CommitOutcome) \<times> Db" where
  "pg_commit env ft sr topic now c =
     transaction (ledger_err env) ft
       (tx_bind (tx_err (ledger_of_storage env) (pg_insert_idempotency ft (jc_idempotency c))) (\<lambda>outcome.
        if outcome = DuplicateIdempotencyKey then tx_done (Inr (Rollback DuplicateIdempotencyKey))
        else
          tx_bind (tx_err (ledger_err env) (sql ft (entry_insert (jc_entry c)))) (\<lambda>_.
          tx_bind (pg_apply_postings env ft (sr_posting sr) now (transaction_uuid (je_id (jc_entry c))) 0
              (je_postings (jc_entry c))) (\<lambda>_.
          tx_bind (tx_err (ledger_of_storage env)
              (pg_insert_outbox env ft (sr_outbox sr) topic 0 (jc_events c))) (\<lambda>_.
          tx_done (Inr (Commit Committed)))))))"

text \<open>\<open>load_entry\<close> runs two queries on the pool.\<close>

definition pg_load_entry :: "pg_env \<Rightarrow> faults \<Rightarrow> TransactionId \<Rightarrow> (StorageError, JournalEntry option) tx" where
  "pg_load_entry env ft tid =
     tx_bind (tx_err Database (query ft (\<lambda>db. find (\<lambda>row. er_id row = transaction_uuid tid) (t_entries db))))
       (\<lambda>row. case row of
          None \<Rightarrow> tx_done (Inr None)
        | Some row \<Rightarrow>
            tx_bind (tx_err Database (query ft t_postings)) (\<lambda>postings.
              tx_done (load_entry [row] postings tid)))"

definition pg_find_entry ::
    "pg_env \<Rightarrow> faults \<Rightarrow> TransactionId \<Rightarrow> Db \<Rightarrow> (LedgerError + JournalEntry option) \<times> Db" where
  "pg_find_entry env ft tid = on_pool (tx_err (ledger_of_storage env) (pg_load_entry env ft tid))"

text \<open>
  Whether the server accepts a \<open>SELECT DISTINCT\<close> of these columns ordered by this expression is its
  own decision, a field of the environment.  PostgreSQL documents that the expression must be one
  of the selected columns.
\<close>

definition select_distinct ::
    "pg_env \<Rightarrow> string list \<Rightarrow> string \<Rightarrow> (Db \<Rightarrow> 'r list) \<Rightarrow> Db \<Rightarrow> (SqlxError + 'r list) \<times> Db" where
  "select_distinct env columns order_by rows db =
     (case pe_distinct env columns order_by of Some e \<Rightarrow> (Inl e, db) | None \<Rightarrow> (Inr (rows db), db))"

definition account_entry_ids :: "AccountId \<Rightarrow> Page \<Rightarrow> Db \<Rightarrow> uuid list" where
  "account_entry_ids i page db =
     sql_page page (map er_id (sort_key (\<lambda>row. - er_created_at row)
       (filter (\<lambda>row. list_ex (\<lambda>p. po_entry_id p = er_id row \<and> po_account_id p = account_uuid i) (t_postings db))
         (t_entries db))))"

fun pg_load_listed :: "pg_env \<Rightarrow> faults \<Rightarrow> uuid list \<Rightarrow> (LedgerError, JournalEntry list) tx" where
  "pg_load_listed env ft [] = tx_done (Inr [])"
| "pg_load_listed env ft (i # ids) =
     tx_bind (tx_err (ledger_of_storage env) (pg_load_entry env ft (TransactionId i))) (\<lambda>entry.
     tx_bind (pg_load_listed env ft ids) (\<lambda>rest.
       tx_done (Inr (case entry of None \<Rightarrow> rest | Some e \<Rightarrow> e # rest))))"

definition pg_list_account_entries ::
    "pg_env \<Rightarrow> faults \<Rightarrow> AccountId \<Rightarrow> Page \<Rightarrow> Db \<Rightarrow> (LedgerError + JournalEntry list) \<times> Db" where
  "pg_list_account_entries env ft i page =
     on_pool (tx_bind (tx_err (ledger_err env)
         (sql ft (select_distinct env [''je.id''] ''je.created_at'' (account_entry_ids i page))))
       (pg_load_listed env ft))"

section \<open>IdempotencyRepo\<close>

definition pg_find_idempotency ::
    "pg_env \<Rightarrow> faults \<Rightarrow> string \<Rightarrow> IdempotencyKey \<Rightarrow> Db \<Rightarrow> (LedgerError + IdempotencyRecord option) \<times> Db" where
  "pg_find_idempotency env ft scope key =
     on_pool (tx_bind (tx_err (ledger_err env)
         (query ft (\<lambda>db. find (\<lambda>row. ik_scope row = scope \<and> ik_key row = key_str key) (t_idempotency db))))
       (\<lambda>row. tx_done (case row of
          None \<Rightarrow> Inr None
        | Some row \<Rightarrow>
            map_err (ledger_of_storage env) (and_then (idempotency_from_row row) (\<lambda>r. Inr (Some r))))))"

definition pg_purge_created_before :: "pg_env \<Rightarrow> faults \<Rightarrow> datetime \<Rightarrow> Db \<Rightarrow> (LedgerError + u64) \<times> Db" where
  "pg_purge_created_before env ft cutoff =
     on_pool (tx_err (ledger_err env) (sql ft (\<lambda>db.
       (Inr (of_nat (length (filter (\<lambda>row. ik_created_at row < timestamptz cutoff) (t_idempotency db)))),
        db\<lparr>t_idempotency := filter (\<lambda>row. \<not> ik_created_at row < timestamptz cutoff) (t_idempotency db)\<rparr>))))"

section \<open>OutboxRepo\<close>

text \<open>\<open>lease_secs\<close> is \<open>lease.as_secs()\<close>, a \<open>u64\<close>.\<close>

definition lease_seconds :: "u64 \<Rightarrow> int" where
  "lease_seconds lease_secs = max 1 (if uint lease_secs < 2 ^ 63 then uint lease_secs else 300)"

definition pg_message :: "pg_env \<Rightarrow> PgOutboxRow \<Rightarrow> StorageError + OutboxMessage" where
  "pg_message env row =
     and_then (event_from_payload env (ob_event_id row) (ob_payload row) (ob_created_at row)) (\<lambda>event.
       Inr \<lparr>om_id = ob_id row, om_topic = ob_topic row, om_partition_key = ob_partition_key row,
            om_event = event, om_attempts = ob_attempts row, om_created_at = ob_created_at row,
            om_published_at = ob_published_at row, om_last_error = ob_last_error row\<rparr>)"

definition pg_claimable :: "datetime \<Rightarrow> PgOutboxRow \<Rightarrow> bool" where
  "pg_claimable now row \<longleftrightarrow>
     ob_published_at row = None
     \<and> (case ob_leased_until row of None \<Rightarrow> True | Some until \<Rightarrow> until < now)"

definition lease_row :: "datetime \<Rightarrow> i64 \<Rightarrow> Db \<Rightarrow> Db" where
  "lease_row until i db =
     db\<lparr>t_outbox := map (\<lambda>row. if ob_id row = i then row\<lparr>ob_leased_until := Some until\<rparr> else row)
          (t_outbox db)\<rparr>"

fun pg_claim_rows ::
    "pg_env \<Rightarrow> faults \<Rightarrow> datetime \<Rightarrow> PgOutboxRow list \<Rightarrow> (LedgerError, OutboxMessage list) tx" where
  "pg_claim_rows env ft until [] = tx_done (Inr [])"
| "pg_claim_rows env ft until (row # rows) =
     tx_bind (tx_err (ledger_err env) (sql ft (\<lambda>db. (Inr (), lease_row until (ob_id row) db)))) (\<lambda>_.
     tx_bind (tx_done (map_err (ledger_of_storage env) (pg_message env row))) (\<lambda>message.
     tx_bind (pg_claim_rows env ft until rows) (\<lambda>messages.
       tx_done (Inr (message # messages)))))"

text \<open>\<open>SKIP LOCKED\<close> passes over rows that another open transaction has locked, given by \<open>locked\<close>.\<close>

definition pg_claim ::
    "pg_env \<Rightarrow> faults \<Rightarrow> datetime \<Rightarrow> (i64 \<Rightarrow> bool) \<Rightarrow> u32 \<Rightarrow> u64 \<Rightarrow> Db
      \<Rightarrow> (LedgerError + OutboxMessage list) \<times> Db" where
  "pg_claim env ft now locked limit lease_secs =
     transaction (ledger_err env) ft
       (tx_bind (tx_err (ledger_err env) (query ft (\<lambda>db. take (unat limit)
            (sort_key (\<lambda>row. sint (ob_id row))
              (filter (\<lambda>row. pg_claimable now row \<and> \<not> locked (ob_id row)) (t_outbox db)))))) (\<lambda>rows.
        tx_bind (pg_claim_rows env ft (now + lease_seconds lease_secs * 1000000000) rows) (\<lambda>messages.
        tx_done (Inr (Commit messages)))))"

definition pg_publishes :: "i64 list \<Rightarrow> PgOutboxRow \<Rightarrow> bool" where
  "pg_publishes ids row \<longleftrightarrow> ob_id row \<in> set ids \<and> ob_published_at row = None"

definition pg_mark_published :: "pg_env \<Rightarrow> faults \<Rightarrow> datetime \<Rightarrow> i64 list \<Rightarrow> Db \<Rightarrow> (LedgerError + u64) \<times> Db" where
  "pg_mark_published env ft now ids =
     on_pool (tx_err (ledger_err env) (sql ft (\<lambda>db.
       (Inr (of_nat (length (filter (pg_publishes ids) (t_outbox db)))),
        db\<lparr>t_outbox := map (\<lambda>row. if pg_publishes ids row
              then row\<lparr>ob_published_at := Some now, ob_leased_until := None, ob_last_error := None\<rparr>
              else row) (t_outbox db)\<rparr>))))"

definition pg_mark_failed :: "pg_env \<Rightarrow> faults \<Rightarrow> i64 \<Rightarrow> string \<Rightarrow> Db \<Rightarrow> (LedgerError + unit) \<times> Db" where
  "pg_mark_failed env ft i err =
     on_pool (tx_err (ledger_err env) (sql ft (\<lambda>db.
       (Inr (), db\<lparr>t_outbox := map (\<lambda>row. if ob_id row = i
              then row\<lparr>ob_attempts := ob_attempts row + 1, ob_last_error := Some err, ob_leased_until := None\<rparr>
              else row) (t_outbox db)\<rparr>))))"

definition count_rows :: "(PgOutboxRow \<Rightarrow> bool) \<Rightarrow> Db \<Rightarrow> i64" where
  "count_rows P db = of_nat (length (filter P (t_outbox db)))"

definition min_created :: "PgOutboxRow list \<Rightarrow> datetime option" where
  "min_created rows = (if rows = [] then None else Some (Min (ob_created_at ` set rows)))"

text \<open>\<open>num_seconds\<close> is that of \<open>chrono::TimeDelta\<close>; \<open>now\<close> serves both \<open>NOW()\<close> and \<open>Utc::now()\<close>.\<close>

definition pg_stats :: "pg_env \<Rightarrow> faults \<Rightarrow> (int \<Rightarrow> i64) \<Rightarrow> datetime \<Rightarrow> Db \<Rightarrow> (LedgerError + OutboxStats) \<times> Db" where
  "pg_stats env ft num_seconds now =
     on_pool (tx_err (ledger_err env) (query ft (\<lambda>db.
       \<lparr>os_pending = count_rows (\<lambda>row. ob_published_at row = None) db,
        os_published = count_rows (\<lambda>row. ob_published_at row \<noteq> None) db,
        os_in_flight = count_rows (\<lambda>row. ob_published_at row = None
          \<and> (case ob_leased_until row of None \<Rightarrow> False | Some until \<Rightarrow> until > now)) db,
        os_retrying = count_rows (\<lambda>row. ob_published_at row = None \<and> sint (ob_attempts row) > 0) db,
        os_oldest_pending_age_seconds =
          map_option (\<lambda>created. let s = num_seconds (now - created) in if sint s < 0 then 0 else s)
            (min_created (filter (\<lambda>row. ob_published_at row = None) (t_outbox db)))\<rparr>)))"

definition pg_pending :: "pg_env \<Rightarrow> faults \<Rightarrow> Page \<Rightarrow> Db \<Rightarrow> (LedgerError + OutboxMessage list) \<times> Db" where
  "pg_pending env ft page =
     on_pool (tx_bind (tx_err (ledger_err env) (query ft (\<lambda>db. sql_page page
         (sort_key (\<lambda>row. sint (ob_id row)) (filter (\<lambda>row. ob_published_at row = None) (t_outbox db))))))
       (\<lambda>rows. tx_done (map_err (ledger_of_storage env) (collect_results (map (pg_message env) rows)))))"

section \<open>BalanceRepo and ConsumerRepo\<close>

definition pg_get_balance ::
    "pg_env \<Rightarrow> faults \<Rightarrow> AccountId \<Rightarrow> AssetCode \<Rightarrow> Db \<Rightarrow> (LedgerError + BalanceRecord option) \<times> Db" where
  "pg_get_balance env ft i asset =
     on_pool (tx_bind (tx_err (ledger_err env) (query ft (select_balance (account_uuid i) (code_str asset))))
       (\<lambda>row. tx_done (case row of
          None \<Rightarrow> Inr None
        | Some row \<Rightarrow>
            and_then (map_err (ledger_of_storage env) (column_amount (ba_amount_atomic row))) (\<lambda>amount.
              Inr (Some \<lparr>br_account_id = i, br_asset = asset, br_amount = amount,
                    br_updated_at = ba_updated_at row\<rparr>)))))"

definition pg_list_for_account ::
    "pg_env \<Rightarrow> (string \<Rightarrow> string) \<Rightarrow> faults \<Rightarrow> AccountId \<Rightarrow> Db \<Rightarrow> (LedgerError + BalanceRecord list) \<times> Db" where
  "pg_list_for_account env collate ft i =
     on_pool (tx_bind (tx_err (ledger_err env) (query ft (\<lambda>db. sort_key (collate \<circ> ba_asset)
         (filter (\<lambda>row. ba_account_id row = account_uuid i) (t_balances db)))))
       (\<lambda>rows. tx_done (map_err (ledger_of_storage env) (collect_results (map balance_from_row rows)))))"

definition balance_order :: "(string \<Rightarrow> string) \<Rightarrow> BalanceRow list \<Rightarrow> BalanceRow list" where
  "balance_order collate rows = sort_key (\<lambda>row. (ba_account_id row, collate (ba_asset row))) rows"

definition pg_snapshot ::
    "pg_env \<Rightarrow> (string \<Rightarrow> string) \<Rightarrow> faults \<Rightarrow> Db \<Rightarrow> (LedgerError + BalanceRecord list) \<times> Db" where
  "pg_snapshot env collate ft =
     on_pool (tx_bind (tx_err (ledger_err env) (query ft (\<lambda>db. balance_order collate (t_balances db))))
       (\<lambda>rows. tx_done (map_err (ledger_of_storage env) (collect_results (map balance_from_row rows)))))"

text \<open>\<open>GROUP BY consumer\<close>, then one query per consumer for its offsets.\<close>

definition consumer_groups :: "Db \<Rightarrow> (string \<times> i64 \<times> datetime option) list" where
  "consumer_groups db =
     map (\<lambda>c. let rows = filter (\<lambda>row. pr_consumer row = c) (t_processed db)
              in (c, of_nat (length rows), Some (Max (pr_processed_at ` set rows))))
       (remdups (map pr_consumer (t_processed db)))"

fun pg_consumer_offsets ::
    "pg_env \<Rightarrow> faults \<Rightarrow> (string \<times> i64 \<times> datetime option) list \<Rightarrow> (LedgerError, ConsumerStatus list) tx" where
  "pg_consumer_offsets env ft [] = tx_done (Inr [])"
| "pg_consumer_offsets env ft ((c, processed, latest) # groups) =
     tx_bind (tx_err (ledger_err env)
         (query ft (\<lambda>db. filter (\<lambda>row. of_consumer row = c) (t_offsets db)))) (\<lambda>rows.
     tx_bind (pg_consumer_offsets env ft groups) (\<lambda>rest.
       tx_done (Inr (\<lparr>cs_consumer = c, cs_processed_events = processed, cs_last_processed_at = latest,
         cs_offsets = map (\<lambda>row. \<lparr>co_topic = of_topic row, co_partition = of_partition row,
           co_offset = of_offset row, co_updated_at = of_updated_at row\<rparr>) rows\<rparr> # rest))))"

definition pg_consumer_status :: "pg_env \<Rightarrow> faults \<Rightarrow> Db \<Rightarrow> (LedgerError + ConsumerStatus list) \<times> Db" where
  "pg_consumer_status env ft =
     on_pool (tx_bind (tx_err (ledger_err env) (query ft consumer_groups)) (pg_consumer_offsets env ft))"

definition pg_ping :: "pg_env \<Rightarrow> faults \<Rightarrow> Db \<Rightarrow> (LedgerError + unit) \<times> Db" where
  "pg_ping env ft = on_pool (tx_err (ledger_err env) (query ft (\<lambda>_. ())))"

section \<open>The adapter as an implementation of the ledger ports\<close>

definition pg_ports ::
    "pg_env \<Rightarrow> (string \<Rightarrow> string) \<Rightarrow> (int \<Rightarrow> i64) \<Rightarrow> faults \<Rightarrow> serials \<Rightarrow> string \<Rightarrow> datetime \<Rightarrow> Db ports" where
  "pg_ports env collate num_seconds ft sr topic now =
     \<lparr>pt_idem_find = pg_find_idempotency env ft, pt_acc_find = pg_find_account env ft,
      pt_acc_find_by_name = pg_find_by_name env ft, pt_acc_load_many = pg_load_many env ft,
      pt_acc_list = pg_list_accounts env collate ft, pt_acc_create = pg_create env ft sr topic,
      pt_commit = pg_commit env ft sr topic now, pt_find_entry = pg_find_entry env ft,
      pt_list_entries = pg_list_account_entries env ft, pt_bal_get = pg_get_balance env ft,
      pt_bal_list_for = pg_list_for_account env collate ft, pt_stats = pg_stats env ft num_seconds now,
      pt_pending = pg_pending env ft\<rparr>"

text \<open>
  Every port call of a handler is a query or a transaction of its own: call number \<open>m\<close> meets its own
  faults \<open>fts m\<close>, draws its own serials and reads its own clock.
\<close>

definition pg_calls ::
    "pg_env \<Rightarrow> (string \<Rightarrow> string) \<Rightarrow> (int \<Rightarrow> i64) \<Rightarrow> (nat \<Rightarrow> faults) \<Rightarrow> (nat \<Rightarrow> serials) \<Rightarrow> string
      \<Rightarrow> (nat \<Rightarrow> datetime) \<Rightarrow> nat \<Rightarrow> Db ports" where
  "pg_calls env collate ns fts srs topic nows m = pg_ports env collate ns (fts m) (srs m) topic (nows m)"

end
