(* ===== verification/Postgres_Laws.thy ===== *)
theory Postgres_Laws
  imports Postgres Memory_Props
begin

text \<open>
  The PostgreSQL adapter against the in-memory store: a transaction takes effect completely or
  not at all whatever statements fail, and without failures a commit does to the tables what the
  in-memory commit does to its state.
\<close>

section \<open>Transactions under failures\<close>

text \<open>A computation that succeeds under a fault plan has met no fault.\<close>

definition met_no_fault :: "('e, 'a) tx \<Rightarrow> ('e, 'a) tx \<Rightarrow> bool" where
  "met_no_fault m m' \<longleftrightarrow> (\<forall>s a s'. m s = (Inr a, s') \<longrightarrow> m' s = (Inr a, s'))"

named_theorems no_fault_intros \<open>computations that succeed only without a fault\<close>

lemma no_fault_done [no_fault_intros]: "met_no_fault (tx_done r) (tx_done r)"
  by (simp add: met_no_fault_def)

lemma no_fault_bind [no_fault_intros]:
  "met_no_fault m m' \<Longrightarrow> (\<And>a. met_no_fault (f a) (f' a)) \<Longrightarrow> met_no_fault (tx_bind m f) (tx_bind m' f')"
  by (fastforce simp: met_no_fault_def tx_bind_def split: prod.splits sum.splits)

lemma no_fault_err [no_fault_intros]: "met_no_fault m m' \<Longrightarrow> met_no_fault (tx_err g m) (tx_err g m')"
  by (fastforce simp: met_no_fault_def tx_err_def result_simps split: prod.splits)

lemma no_fault_sql [no_fault_intros]: "met_no_fault (sql ft f) (sql no_faults f)"
  by (auto simp: met_no_fault_def sql_def no_faults_def split: option.splits fault.splits prod.splits)

lemma no_fault_query [no_fault_intros]: "met_no_fault (query ft f) (query no_faults f)"
  by (simp add: query_def no_fault_sql)

lemma no_fault_if [no_fault_intros]:
  "(P \<Longrightarrow> met_no_fault m m') \<Longrightarrow> (\<not> P \<Longrightarrow> met_no_fault k k')
     \<Longrightarrow> met_no_fault (if P then m else k) (if P then m' else k')"
  by simp

lemma no_fault_option [no_fault_intros]:
  "(x = None \<Longrightarrow> met_no_fault m m') \<Longrightarrow> (\<And>a. x = Some a \<Longrightarrow> met_no_fault (f a) (f' a))
     \<Longrightarrow> met_no_fault (case x of None \<Rightarrow> m | Some a \<Rightarrow> f a) (case x of None \<Rightarrow> m' | Some a \<Rightarrow> f' a)"
  by (cases x) auto

lemma transaction_atomic:
  assumes "met_no_fault body body'" and "transaction err ft body db = (r, db')"
  shows "(\<forall>a. r = Inr a \<longrightarrow> transaction err no_faults body' db = (Inr a, db'))
    \<and> (db' = db \<or> (\<exists>a. transaction err no_faults body' db = (Inr a, db')))"
proof (cases "ft 0")
  case None
  obtain x s where body: "body (db, 1) = (x, s)"
    by (cases "body (db, 1)")
  show ?thesis
  proof (cases x)
    case (Inr e)
    with assms(1) body have "body' (db, 1) = (Inr e, s)"
      unfolding met_no_fault_def by blast
    with Inr None body assms(2) show ?thesis
      by (cases s) (auto simp: transaction_def no_faults_def split: tx_end.splits option.splits fault.splits)
  qed (use None body assms(2) in \<open>auto simp: transaction_def\<close>)
qed (use assms(2) in \<open>auto simp: transaction_def\<close>)

lemma no_fault_insert_idempotency [no_fault_intros]:
  "met_no_fault (pg_insert_idempotency ft r) (pg_insert_idempotency no_faults r)"
  unfolding pg_insert_idempotency_def by (intro no_fault_intros)

lemma no_fault_insert_outbox [no_fault_intros]:
  "met_no_fault (pg_insert_outbox env ft ids topic k evs) (pg_insert_outbox env no_faults ids topic k evs)"
  by (induction evs arbitrary: k) (auto intro!: no_fault_intros)

lemma no_fault_apply_postings [no_fault_intros]:
  "met_no_fault (pg_apply_postings env ft ids now e k ps) (pg_apply_postings env no_faults ids now e k ps)"
  by (induction ps arbitrary: k) (auto simp: pg_apply_posting_def Let_def intro!: no_fault_intros)

section \<open>Calls that keep part of the tables\<close>

definition tx_keeps :: "(Db \<Rightarrow> Db \<Rightarrow> bool) \<Rightarrow> ('e, 'a) tx \<Rightarrow> bool" where
  "tx_keeps same m \<longleftrightarrow> (\<forall>db n. same db (fst (snd (m (db, n)))))"

named_theorems keeps_intros \<open>computations that keep part of the tables\<close>

locale table_frame =
  fixes same :: "Db \<Rightarrow> Db \<Rightarrow> bool"
  assumes same_refl: "same db db"
    and same_trans: "same db db1 \<Longrightarrow> same db1 db2 \<Longrightarrow> same db db2"
begin

lemma keeps_done [keeps_intros]: "tx_keeps same (tx_done r)" "tx_keeps same (Pair r)"
  by (simp_all add: tx_keeps_def tx_done_def same_refl)

lemma keeps_bind [keeps_intros]:
  "tx_keeps same m \<Longrightarrow> (\<And>a. tx_keeps same (f a)) \<Longrightarrow> tx_keeps same (tx_bind m f)"
  unfolding tx_keeps_def tx_bind_def
  by (auto split: prod.splits sum.splits) (metis fst_conv same_trans snd_conv)+

lemma keeps_err [keeps_intros]: "tx_keeps same m \<Longrightarrow> tx_keeps same (tx_err g m)"
  by (simp add: tx_keeps_def tx_err_def split_beta)

lemma keeps_sql [keeps_intros]: "(\<And>db. same db (snd (f db))) \<Longrightarrow> tx_keeps same (sql ft f)"
  by (auto simp: tx_keeps_def sql_def split_beta same_refl split: option.splits fault.splits)

lemma keeps_query [keeps_intros]: "tx_keeps same (query ft f)"
  by (simp add: query_def keeps_sql same_refl)

lemma keeps_if [keeps_intros]:
  "(P \<Longrightarrow> tx_keeps same m) \<Longrightarrow> (\<not> P \<Longrightarrow> tx_keeps same k) \<Longrightarrow> tx_keeps same (if P then m else k)"
  by simp

lemma keeps_option [keeps_intros]:
  "(x = None \<Longrightarrow> tx_keeps same m) \<Longrightarrow> (\<And>a. x = Some a \<Longrightarrow> tx_keeps same (f a))
     \<Longrightarrow> tx_keeps same (case x of None \<Rightarrow> m | Some a \<Rightarrow> f a)"
  by (cases x) auto

lemma on_pool_keeps: "tx_keeps same m \<Longrightarrow> same db (snd (on_pool m db))"
  by (simp add: tx_keeps_def on_pool_def split_beta)

lemma transaction_keeps:
  assumes "tx_keeps same body"
  shows "same db (snd (transaction err ft body db))"
proof -
  obtain r db' n where body: "body (db, 1) = (r, db', n)"
    by (cases "body (db, 1)")
  then have "same db db'"
    using assms [unfolded tx_keeps_def, rule_format, of db 1] by simp
  with body show ?thesis
    by (auto simp: transaction_def same_refl split: option.splits sum.splits tx_end.splits fault.splits)
qed

end

section \<open>Running without faults\<close>

lemma run_simps [simp]:
  "tx_done r s = (r, s)"
  "sql no_faults f (db, n) = (case f db of (r, db') \<Rightarrow> (r, db', Suc n))"
  "query no_faults g (db, n) = (Inr (g db), db, Suc n)"
  by (simp_all add: tx_done_def sql_def query_def no_faults_def)

lemma run_bind [simp]:
  "m s = (Inl e, s') \<Longrightarrow> tx_bind m f s = (Inl e, s')"
  "m s = (Inr a, s') \<Longrightarrow> tx_bind m f s = f a s'"
  by (simp_all add: tx_bind_def)

lemma run_err [simp]: "m s = (r, s') \<Longrightarrow> tx_err g m s = (map_err g r, s')"
  by (simp add: tx_err_def)

lemma transaction_run:
  "transaction err no_faults body db =
     (case body (db, Suc 0) of
        (Inl e, _) \<Rightarrow> (Inl e, db)
      | (Inr (Rollback a), _) \<Rightarrow> (Inr a, db)
      | (Inr (Commit a), db', _) \<Rightarrow> (Inr a, db'))"
  by (simp add: transaction_def no_faults_def split: prod.splits sum.splits tx_end.splits)

section \<open>Tables that represent a state of the in-memory store\<close>

definition posting_core :: "PostingRow \<Rightarrow> PostingRow" where
  "posting_core row = row\<lparr>po_id := 0\<rparr>"

definition event_row :: "pg_env \<Rightarrow> PgOutboxRow \<Rightarrow> LedgerEvent \<Rightarrow> bool" where
  "event_row env row ev \<longleftrightarrow>
     ob_event_id row = event_uuid (ev_event_id ev) \<and> ob_partition_key row = ev_aggregate_id ev
     \<and> ob_created_at row = timestamptz (ev_created_at ev) \<and> pe_to_value env ev = Inr (ob_payload row)"

definition entry_postings :: "JournalEntry \<Rightarrow> PostingRow list" where
  "entry_postings e = map (posting_to_row 0 (transaction_uuid (je_id e))) (je_postings e)"

definition records_keyed :: "State \<Rightarrow> bool" where
  "records_keyed st \<longleftrightarrow> (\<forall>(k, r) \<in> set (idempotency st). record_key r = k)"

definition db_rel :: "pg_env \<Rightarrow> Db \<Rightarrow> State \<Rightarrow> bool" where
  "db_rel env db st \<longleftrightarrow>
     t_accounts db = map (account_to_row \<circ> snd) (accounts st)
     \<and> t_balances db = map (balance_to_row \<circ> snd) (balances st)
     \<and> t_idempotency db = map (record_to_row \<circ> snd) (idempotency st)
     \<and> t_entries db = map entry_to_row (entries st)
     \<and> map posting_core (t_postings db) = concat (map entry_postings (entries st))
     \<and> list_all2 (event_row env) (t_outbox db) (events st)
     \<and> records_keyed st"

lemma find_account_row:
  assumes "\<forall>(u, account) \<in> set accts. account_uuid (acc_id account) = u"
  shows "find (\<lambda>row. ar_id row = u) (map (account_to_row \<circ> snd) accts) = map_option account_to_row (map_of accts u)"
  using assms by (induction accts) (auto simp: account_to_row_def)

lemma find_balance_row:
  assumes "\<forall>(k, r) \<in> set bals. k = (account_uuid (br_account_id r), br_asset r)"
  shows "find (\<lambda>row. ba_account_id row = uid \<and> ba_asset row = code_str a) (map (balance_to_row \<circ> snd) bals)
    = map_option balance_to_row (map_of bals (uid, a))"
  using assms by (induction bals) (auto simp: balance_to_row_def AssetCode.expand)

lemma balances_keyed_all:
  "balances_keyed bals \<longleftrightarrow> hm_ok bals \<and> (\<forall>(k, r) \<in> set bals. k = (account_uuid (br_account_id r), br_asset r))"
  by (auto simp: balances_keyed_def)

lemma alist_update_twice: "AList.update k v (AList.update k w m) = AList.update k v m"
  by (induction m) auto

lemma write_balance:
  assumes "balances_keyed bals" and "fst k = account_uuid (br_account_id r)" "snd k = br_asset r"
    and "\<And>r0. map_of bals k = Some r0 \<Longrightarrow> r = r0\<lparr>br_amount := v, br_updated_at := now\<rparr>"
    and "br_amount r = v" "br_updated_at r = now"
  shows "map (balance_to_row \<circ> snd) (AList.update k r bals)
    = (if map_of bals k \<noteq> None
       then map (\<lambda>row. if ba_account_id row = fst k \<and> ba_asset row = code_str (snd k)
               then row\<lparr>ba_amount_atomic := amount_to_str v, ba_updated_at := timestamptz now\<rparr> else row)
             (map (balance_to_row \<circ> snd) bals)
       else map (balance_to_row \<circ> snd) bals @
         [\<lparr>ba_account_id = fst k, ba_asset = code_str (snd k), ba_amount_atomic = amount_to_str v,
           ba_updated_at = timestamptz now\<rparr>])"
  using assms
proof (induction bals)
  case Nil
  then show ?case
    by (simp add: balance_to_row_def)
next
  case (Cons kr bals)
  have keyed: "balances_keyed bals" and kr: "fst kr = (account_uuid (br_account_id (snd kr)), br_asset (snd kr))"
    and fresh: "fst kr \<notin> fst ` set bals"
    using Cons.prems(1) by (auto simp: balances_keyed_all)
  show ?case
  proof (cases "fst kr = k")
    case True
    have other: "\<not> (ba_account_id (balance_to_row (snd x)) = fst k \<and> ba_asset (balance_to_row (snd x)) = code_str (snd k))"
      if "x \<in> set bals" for x
    proof -
      have "fst x = (account_uuid (br_account_id (snd x)), br_asset (snd x))"
        using keyed that by (auto simp: balances_keyed_all)
      moreover have "fst x \<noteq> k"
        using fresh True that by (metis imageI)
      ultimately show ?thesis
        by (cases k) (auto simp: balance_to_row_def AssetCode.expand)
    qed
    have "r = (snd kr)\<lparr>br_amount := v, br_updated_at := now\<rparr>"
      using Cons.prems(4) True by (cases kr) simp
    then have "balance_to_row r
        = (balance_to_row (snd kr))\<lparr>ba_amount_atomic := amount_to_str v, ba_updated_at := timestamptz now\<rparr>"
      by (simp add: balance_to_row_def)
    then show ?thesis
      using True kr other by (cases kr) (auto simp: balance_to_row_def intro!: map_cong)
  next
    case False
    have "\<not> (ba_account_id (balance_to_row (snd kr)) = fst k \<and> ba_asset (balance_to_row (snd kr)) = code_str (snd k))"
      using False kr by (cases k) (auto simp: balance_to_row_def AssetCode.expand)
    moreover have "map_of (kr # bals) k = map_of bals k"
      using False by (cases kr) auto
    ultimately show ?thesis
      using Cons.IH [OF keyed] Cons.prems False by (cases kr) auto
  qed
qed

section \<open>Commit\<close>

lemma balance_entry_key:
  assumes "balances_keyed (balances st)"
  shows "account_uuid (p_account_id p) = account_uuid (br_account_id (balance_entry now p st))"
    and "p_asset p = br_asset (balance_entry now p st)"
proof -
  have "(account_uuid (p_account_id p), p_asset p) = (account_uuid (br_account_id r), br_asset r)"
    if "map_of (balances st) (account_uuid (p_account_id p), p_asset p) = Some r" for r
    using assms that unfolding balances_keyed_def by blast
  then show "account_uuid (p_account_id p) = account_uuid (br_account_id (balance_entry now p st))"
      "p_asset p = br_asset (balance_entry now p st)"
    by (auto simp: balance_entry_def split: option.splits)
qed

fun posting_rows :: "(nat \<Rightarrow> i64) \<Rightarrow> uuid \<Rightarrow> nat \<Rightarrow> Posting list \<Rightarrow> PostingRow list" where
  "posting_rows ids eid k [] = []"
| "posting_rows ids eid k (p # ps) = posting_to_row (ids k) eid p # posting_rows ids eid (Suc k) ps"

lemma posting_rows_core: "map posting_core (posting_rows ids eid k ps) = map (posting_to_row 0 eid) ps"
  by (induction ps arbitrary: k) (simp_all add: posting_core_def posting_to_row_def)

text \<open>One posting: the same decision and error, and the tables of the new state.\<close>

lemma pg_apply_posting_sim:
  assumes accts: "t_accounts db = map (account_to_row \<circ> snd) (accounts st)"
    and bals: "t_balances db = map (balance_to_row \<circ> snd) (balances st)"
    and keys: "\<forall>(u, account) \<in> set (accounts st). account_uuid (acc_id account) = u" "balances_keyed (balances st)"
  shows "case apply_posting (pe_uuid_show env) now p st of
      (Inl e, _) \<Rightarrow> \<exists>s'. pg_apply_posting env no_faults i now eid p (db, n) = (Inl e, s')
    | (Inr _, st') \<Rightarrow> \<exists>n'. pg_apply_posting env no_faults i now eid p (db, n)
        = (Inr (), db\<lparr>t_balances := map (balance_to_row \<circ> snd) (balances st'),
             t_postings := t_postings db @ [posting_to_row i eid p]\<rparr>, n')"
proof (cases "map_of (accounts st) (account_uuid (p_account_id p))")
  case None
  then show ?thesis
    by (simp add: apply_posting_def pg_apply_posting_def Let_def accts find_account_row [OF keys(1)] tx_bind_def
        tx_err_def)
next
  case (Some account)
  let ?k = "(account_uuid (p_account_id p), p_asset p)"
  let ?r = "balance_entry now p st"
  have row: "find (\<lambda>row. ar_id row = account_uuid (p_account_id p)) (t_accounts db) = Some (account_to_row account)"
    using Some by (simp add: accts find_account_row [OF keys(1)])
  have i: "acc_id account = p_account_id p"
    using Some keys(1) by (auto dest!: map_of_SomeD)
  have bal: "select_balance (fst ?k) (code_str (p_asset p)) db = map_option balance_to_row (map_of (balances st) ?k)"
    using keys(2) by (simp add: select_balance_def bals find_balance_row balances_keyed_all)
  have current: "(case map_option balance_to_row (map_of (balances st) ?k) of None \<Rightarrow> Inr ZERO
      | Some row \<Rightarrow> map_err (ledger_of_storage env) (column_amount (ba_amount_atomic row))) = Inr (br_amount ?r)"
    by (simp add: balance_entry_def balance_to_row_def split: option.splits)
  show ?thesis
  proof (cases "is_active account")
    case False
    then show ?thesis
      using Some row i
      by (simp add: apply_posting_def pg_apply_posting_def Let_def is_active_def account_to_row_def
          status_text_iff status_text)
  next
    case True
    show ?thesis
    proof (cases "checked_add (br_amount ?r) (p_amount p)")
      case (Inl e)
      then show ?thesis
        using Some row True bal current
        by (simp add: apply_posting_def pg_apply_posting_def Let_def is_active_def account_to_row_def
            status_text_iff tx_bind_def tx_err_def)
    next
      case (Inr v)
      have "map (balance_to_row \<circ> snd) (AList.update ?k (?r\<lparr>br_amount := v, br_updated_at := now\<rparr>) (balances st))
          = (if map_of (balances st) ?k \<noteq> None
             then t_balances (update_balance (fst ?k) (code_str (p_asset p)) (amount_to_str v) now db)
             else t_balances (insert_balance (fst ?k) (code_str (p_asset p)) (amount_to_str v) now db))"
      proof (subst write_balance [OF keys(2), where v = v and now = now])
        show "fst ?k = account_uuid (br_account_id (?r\<lparr>br_amount := v, br_updated_at := now\<rparr>))"
          "snd ?k = br_asset (?r\<lparr>br_amount := v, br_updated_at := now\<rparr>)"
          unfolding fst_conv snd_conv BalanceRecord.select_convs BalanceRecord.update_convs
          using balance_entry_key [OF keys(2)] by simp_all
      qed (auto simp: balance_entry_def bals update_balance_def insert_balance_def)
      then show ?thesis
        using Some row True bal current Inr i
        by (auto simp: apply_posting_def pg_apply_posting_def Let_def is_active_def account_to_row_def
            status_text_iff policy_text_iff tx_bind_def tx_err_def alist_update_twice update_balance_def
            insert_balance_def)
    qed
  qed
qed

lemma pg_apply_postings_sim:
  assumes "t_accounts db = map (account_to_row \<circ> snd) (accounts st)"
    and "t_balances db = map (balance_to_row \<circ> snd) (balances st)"
    and "\<forall>(u, account) \<in> set (accounts st). account_uuid (acc_id account) = u" "balances_keyed (balances st)"
  shows "case mut_fold (apply_posting (pe_uuid_show env) now) ps st of
      (Inl e, _) \<Rightarrow> \<exists>s'. pg_apply_postings env no_faults ids now eid k ps (db, n) = (Inl e, s')
    | (Inr _, st') \<Rightarrow> \<exists>n'. pg_apply_postings env no_faults ids now eid k ps (db, n)
        = (Inr (), db\<lparr>t_balances := map (balance_to_row \<circ> snd) (balances st'),
             t_postings := t_postings db @ posting_rows ids eid k ps\<rparr>, n')"
  using assms
proof (induction ps arbitrary: st db k n)
  case (Cons p ps)
  note sim = pg_apply_posting_sim [OF Cons.prems, where env = env and now = now and p = p and i = "ids k"
      and eid = eid and n = n]
  obtain r st1 where step: "apply_posting (pe_uuid_show env) now p st = (r, st1)"
    by fastforce
  show ?case
  proof (cases r)
    case (Inl e)
    then show ?thesis
      using sim step by auto
  next
    case (Inr u)
    define db1 where "db1 = db\<lparr>t_balances := map (balance_to_row \<circ> snd) (balances st1),
        t_postings := t_postings db @ [posting_to_row (ids k) eid p]\<rparr>"
    obtain n1 where n1: "pg_apply_posting env no_faults (ids k) now eid p (db, n) = (Inr (), db1, n1)"
      using sim step Inr by (auto simp: db1_def)
    have frame: "accounts st1 = accounts st"
      using apply_posting_frame [OF keeps_frame_refl, of st "pe_uuid_show env" now p] step
      by (simp add: keeps_frame_fields(1))
    moreover have "balances_keyed (balances st1)"
      using apply_posting_keyed [OF Cons.prems(4), of "pe_uuid_show env" now p] step by simp
    ultimately have IH: "case mut_fold (apply_posting (pe_uuid_show env) now) ps st1 of
        (Inl e, _) \<Rightarrow> \<exists>s'. pg_apply_postings env no_faults ids now eid (Suc k) ps (db1, n1) = (Inl e, s')
      | (Inr _, st') \<Rightarrow> \<exists>n'. pg_apply_postings env no_faults ids now eid (Suc k) ps (db1, n1)
          = (Inr (), db1\<lparr>t_balances := map (balance_to_row \<circ> snd) (balances st'),
               t_postings := t_postings db1 @ posting_rows ids eid (Suc k) ps\<rparr>, n')"
      using Cons.prems by (intro Cons.IH) (simp_all add: db1_def)
    then show ?thesis
      using n1 step Inr by (auto simp: db1_def split: prod.splits sum.splits)
  qed
qed auto

text \<open>The outbox: events with known ids are skipped on both sides.\<close>

lemma pg_insert_outbox_sim:
  assumes "list_all2 (event_row env) (t_outbox db) (events st)"
    and "\<forall>ev \<in> set evs. \<exists>v. pe_to_value env ev = Inr v"
  shows "\<exists>rows n'. pg_insert_outbox env no_faults ids topic k evs (db, n) = (Inr (), db\<lparr>t_outbox := rows\<rparr>, n')
    \<and> list_all2 (event_row env) rows (events (record_events evs st))"
  using assms
proof (induction evs arbitrary: st db k n)
  case Nil
  then show ?case
    by (auto intro!: exI [of _ "t_outbox db"])
next
  case (Cons ev evs)
  obtain v where v: "pe_to_value env ev = Inr v"
    using Cons.prems(2) by auto
  have known: "list_ex (\<lambda>row. ob_event_id row = event_uuid (ev_event_id ev)) (t_outbox db)
      \<longleftrightarrow> list_ex (\<lambda>row. ev_event_id (om_event (row_message row)) = ev_event_id ev) (outbox st)"
  proof -
    have "list_ex (\<lambda>row. ob_event_id row = event_uuid (ev_event_id ev)) (t_outbox db)
        \<longleftrightarrow> list_ex (\<lambda>e. ev_event_id e = ev_event_id ev) (events st)"
      using Cons.prems(1)
      by (induction rule: list_all2_induct) (auto simp: event_row_def EventId.expand)
    then show ?thesis
      by (simp add: events_def list_ex_iff)
  qed
  show ?case
  proof (cases "list_ex (\<lambda>row. ev_event_id (om_event (row_message row)) = ev_event_id ev) (outbox st)")
    case True
    then show ?thesis
      using Cons.IH [OF Cons.prems(1), of "Suc k" "Suc n"] Cons.prems(2) v known
      by (auto simp: outbox_insert_def tx_bind_def tx_err_def)
  next
    case False
    define row where "row = \<lparr>ob_id = ids k, ob_event_id = event_uuid (ev_event_id ev), ob_topic = topic,
          ob_partition_key = ev_aggregate_id ev, ob_payload = v, ob_published_at = None,
          ob_leased_until = None, ob_attempts = 0, ob_last_error = None,
          ob_created_at = timestamptz (ev_created_at ev)\<rparr>"
    let ?db1 = "db\<lparr>t_outbox := t_outbox db @ [row]\<rparr>"
    let ?st1 = "st\<lparr>next_outbox_id := next_outbox_id st + 1,
                  outbox := outbox st @ [outbox_row (next_outbox_id st + 1) ev]\<rparr>"
    have "event_row env row ev"
      using v by (simp add: event_row_def row_def)
    then have "list_all2 (event_row env) (t_outbox ?db1) (events ?st1)"
      using Cons.prems(1) by (simp add: events_def list_all2_appendI)
    then show ?thesis
      using Cons.IH [of ?db1 ?st1 "Suc k" "Suc n"] Cons.prems(2) v known False
      by (auto simp: outbox_insert_def tx_bind_def tx_err_def Let_def row_def)
  qed
qed

text \<open>The whole transaction.\<close>

lemma record_row_known:
  assumes "records_keyed st" and "t_idempotency db = map (record_to_row \<circ> snd) (idempotency st)"
  shows "list_ex (\<lambda>row. ik_scope row = ir_scope r \<and> ik_key row = key_str (ir_key r)) (t_idempotency db)
    \<longleftrightarrow> map_of (idempotency st) (record_key r) \<noteq> None"
proof -
  have "list_ex (\<lambda>row. ik_scope row = ir_scope r \<and> ik_key row = key_str (ir_key r))
        (map (record_to_row \<circ> snd) m) \<longleftrightarrow> record_key r \<in> fst ` set m"
    if "\<forall>(k, r) \<in> set m. record_key r = k" for m
    using that by (induction m) (auto simp: record_to_row_def record_key_def)
  then show ?thesis
    using assms by (simp add: records_keyed_def map_of_eq_None_iff)
qed

definition serializable :: "pg_env \<Rightarrow> LedgerEvent list \<Rightarrow> bool" where
  "serializable env evs \<longleftrightarrow> (\<forall>ev \<in> set evs. \<exists>v. pe_to_value env ev = Inr v)"

lemma insert_record_sim:
  assumes "db_rel env db st" and "map_of (idempotency st) (record_key r) = None"
  shows "pg_insert_idempotency no_faults r (db, n)
    = (Inr Committed, db\<lparr>t_idempotency := t_idempotency db @ [record_to_row r]\<rparr>, Suc n)"
  using assms record_row_known [of st db r]
  by (simp add: pg_insert_idempotency_def db_rel_def tx_bind_def tx_err_def)

lemma insert_record_duplicate:
  assumes "db_rel env db st" and "map_of (idempotency st) (record_key r) \<noteq> None"
  shows "pg_insert_idempotency no_faults r (db, n) = (Inr DuplicateIdempotencyKey, db, Suc n)"
  using assms record_row_known [of st db r]
  by (simp add: pg_insert_idempotency_def db_rel_def tx_bind_def tx_err_def)

lemma entry_insert_fresh:
  assumes "t_entries db = map entry_to_row (entries st)" and "je_id e \<notin> je_id ` set (entries st)"
  shows "entry_insert e db = (Inr (), db\<lparr>t_entries := t_entries db @ [entry_to_row e]\<rparr>)"
proof -
  have "transaction_uuid (je_id e) \<notin> er_id ` set (t_entries db)"
    using assms TransactionId.expand by (force simp: entry_to_row_def)
  then show ?thesis
    by (simp add: entry_insert_def list_ex_iff image_iff) metis
qed

lemma pg_commit_sim:
  assumes rel: "db_rel env db st" and keys: "keys_ok st"
    and fresh: "je_id (jc_entry c) \<notin> je_id ` set (entries st)" and ser: "serializable env (jc_events c)"
  shows "\<exists>db'. pg_commit env no_faults sr topic now c db = (fst (commit (pe_uuid_show env) now c st), db')
    \<and> db_rel env db' (snd (commit (pe_uuid_show env) now c st))
    \<and> (fst (commit (pe_uuid_show env) now c st) = Inr Committed \<longrightarrow> t_postings db' = t_postings db @
          posting_rows (sr_posting sr) (transaction_uuid (je_id (jc_entry c))) 0 (je_postings (jc_entry c)))"
proof (cases "map_of (idempotency st) (record_key (jc_idempotency c))")
  case (Some r)
  then have "commit (pe_uuid_show env) now c st = (Inr DuplicateIdempotencyKey, st)"
    by (simp add: commit_def insert_idempotency_def)
  with Some rel insert_record_duplicate [OF rel, of "jc_idempotency c"] show ?thesis
    by (simp add: pg_commit_def transaction_run tx_bind_def tx_err_def)
next
  case None
  let ?sh = "pe_uuid_show env" and ?e = "jc_entry c" and ?r = "jc_idempotency c"
  let ?st1 = "st\<lparr>idempotency := idempotency st @ [(record_key ?r, ?r)]\<rparr>"
  define db1 where "db1 = db\<lparr>t_idempotency := t_idempotency db @ [record_to_row ?r],
      t_entries := t_entries db @ [entry_to_row ?e]\<rparr>"
  have ins: "insert_idempotency ?r st = (Committed, ?st1)"
    using None by (simp add: insert_idempotency_def alist_update_fresh map_of_eq_None_iff)
  have start: "tx_bind (tx_err (ledger_of_storage env) (pg_insert_idempotency no_faults ?r)) (\<lambda>outcome.
        if outcome = DuplicateIdempotencyKey then tx_done (Inr (Rollback DuplicateIdempotencyKey))
        else tx_bind (tx_err (ledger_err env) (sql no_faults (entry_insert ?e))) (\<lambda>_. k)) (db, Suc 0)
      = k (db1, 3)" for k :: "(LedgerError, CommitOutcome tx_end) tx"
    using insert_record_sim [OF rel None, of "Suc 0"]
      entry_insert_fresh [of "db\<lparr>t_idempotency := t_idempotency db @ [record_to_row ?r]\<rparr>" st ?e] rel fresh
    by (simp add: tx_bind_def tx_err_def db_rel_def db1_def eval_nat_numeral)
  have sim: "case mut_fold (apply_posting ?sh now) (je_postings ?e) ?st1 of
      (Inl e, _) \<Rightarrow> \<exists>s'. pg_apply_postings env no_faults (sr_posting sr) now (transaction_uuid (je_id ?e)) 0
          (je_postings ?e) (db1, 3) = (Inl e, s')
    | (Inr _, st') \<Rightarrow> \<exists>n'. pg_apply_postings env no_faults (sr_posting sr) now (transaction_uuid (je_id ?e)) 0
          (je_postings ?e) (db1, 3) = (Inr (), db1\<lparr>t_balances := map (balance_to_row \<circ> snd) (balances st'),
            t_postings := t_postings db1 @
              posting_rows (sr_posting sr) (transaction_uuid (je_id ?e)) 0 (je_postings ?e)\<rparr>, n')"
    using rel keys by (intro pg_apply_postings_sim) (auto simp: db_rel_def db1_def keys_ok_def)
  obtain r st2 where fold: "mut_fold (apply_posting ?sh now) (je_postings ?e) ?st1 = (r, st2)"
    by fastforce
  show ?thesis
  proof (cases r)
    case (Inl err)
    have "commit ?sh now c st = (Inl err, st)"
      using commit_cases [of st c ?sh now] None fold Inl ins
      by (auto simp: commit_def apply_postings_def)
    moreover obtain s' where "pg_apply_postings env no_faults (sr_posting sr) now
        (transaction_uuid (je_id ?e)) 0 (je_postings ?e) (db1, 3) = (Inl err, s')"
      using sim fold Inl by auto
    ultimately show ?thesis
      using rel by (simp add: pg_commit_def transaction_run start)
  next
    case (Inr u)
    have "keeps_frame ?st1 st2"
      using apply_postings_frame [of ?st1 ?sh now ?e] fold by (simp add: apply_postings_def)
    note frame = keeps_frame_fields [OF this]
    let ?st3 = "st2\<lparr>entries := entries st2 @ [?e]\<rparr>"
    have mem: "commit ?sh now c st = (Inr Committed, record_events (jc_events c) ?st3)"
      using fold Inr ins by (simp add: commit_def apply_postings_def)
    define db2 where "db2 = db1\<lparr>t_balances := map (balance_to_row \<circ> snd) (balances st2),
            t_postings := t_postings db1 @
              posting_rows (sr_posting sr) (transaction_uuid (je_id ?e)) 0 (je_postings ?e)\<rparr>"
    obtain n' where n': "pg_apply_postings env no_faults (sr_posting sr) now (transaction_uuid (je_id ?e)) 0
          (je_postings ?e) (db1, 3) = (Inr (), db2, n')"
      using sim fold Inr by (auto simp: db2_def)
    have evs: "list_all2 (event_row env) (t_outbox db2) (events ?st3)"
      using rel frame(4) by (simp add: db_rel_def db2_def db1_def events_def)
    obtain rows n'' where out: "pg_insert_outbox env no_faults (sr_outbox sr) topic 0 (jc_events c) (db2, n')
          = (Inr (), db2\<lparr>t_outbox := rows\<rparr>, n'')"
        "list_all2 (event_row env) rows (events (record_events (jc_events c) ?st3))"
      using pg_insert_outbox_sim [OF evs ser [unfolded serializable_def], of "sr_outbox sr" topic 0 n'] by blast
    have "pg_commit env no_faults sr topic now c db = (Inr Committed, db2\<lparr>t_outbox := rows\<rparr>)"
      using n' out(1) by (simp add: pg_commit_def transaction_run start)
    moreover have "db_rel env (db2\<lparr>t_outbox := rows\<rparr>) (record_events (jc_events c) ?st3)"
      using rel out(2) frame
      by (auto simp: db_rel_def db2_def db1_def record_events_frame records_keyed_def posting_rows_core
          entry_postings_def)
    moreover have "t_postings (db2\<lparr>t_outbox := rows\<rparr>) = t_postings db @
        posting_rows (sr_posting sr) (transaction_uuid (je_id ?e)) 0 (je_postings ?e)"
      by (simp add: db2_def db1_def)
    ultimately show ?thesis
      using mem by simp
  qed
qed

text \<open>An entry id that exists already fails the primary key and changes nothing.\<close>

lemma pg_commit_known_id:
  assumes "db_rel env db st" and "je_id (jc_entry c) \<in> je_id ` set (entries st)"
  shows "\<exists>r. pg_commit env no_faults sr topic now c db = (r, db) \<and> r \<noteq> Inr Committed"
proof (cases "map_of (idempotency st) (record_key (jc_idempotency c))")
  case (Some r)
  then show ?thesis
    using insert_record_duplicate [OF assms(1), of "jc_idempotency c"]
    by (simp add: pg_commit_def transaction_run tx_bind_def tx_err_def)
next
  case None
  have "list_ex (\<lambda>row. er_id row = transaction_uuid (je_id (jc_entry c))) (t_entries db)"
    using assms by (auto simp: db_rel_def list_ex_iff entry_to_row_def)
  then show ?thesis
    using insert_record_sim [OF assms(1) None]
    by (simp add: pg_commit_def transaction_run tx_bind_def tx_err_def entry_insert_def)
qed

text \<open>
  Account creation: the same answer as the in-memory store.  On a name conflict the tables keep
  nothing, where the in-memory store keeps the idempotency record.
\<close>

lemma account_rows:
  assumes "t_accounts db = map (account_to_row \<circ> snd) (accounts st)"
    and "\<forall>(u, account) \<in> set (accounts st). account_uuid (acc_id account) = u"
  shows "list_ex (\<lambda>row. ar_id row = u) (t_accounts db) \<longleftrightarrow> u \<in> fst ` set (accounts st)"
    and "list_ex (\<lambda>row. ar_name row = n) (t_accounts db)
      \<longleftrightarrow> list_ex (\<lambda>(_, account). acc_name account = n) (accounts st)"
  using assms by (force simp: list_ex_iff account_to_row_def)+

lemma pg_create_sim:
  assumes rel: "db_rel env db st" and keys: "keys_ok st"
    and fresh: "account_uuid (acc_id (ac_account c)) \<notin> fst ` set (accounts st)"
    and ser: "serializable env (ac_events c)"
  shows "\<exists>db'. pg_create env no_faults sr topic c db = (fst (create c st), db')
    \<and> (db' = db \<or> db_rel env db' (snd (create c st)))"
proof (cases "map_of (idempotency st) (record_key (ac_idempotency c))")
  case (Some r)
  then have "create c st = (Inr DuplicateIdempotencyKey, st)"
    by (simp add: create_def insert_idempotency_def)
  with Some rel insert_record_duplicate [OF rel, of "ac_idempotency c"] show ?thesis
    by (simp add: pg_create_def transaction_run tx_bind_def tx_err_def)
next
  case None
  let ?a = "ac_account c" and ?r = "ac_idempotency c"
  let ?st1 = "st\<lparr>idempotency := idempotency st @ [(record_key ?r, ?r)]\<rparr>"
  have ins: "insert_idempotency ?r st = (Committed, ?st1)"
    using None by (simp add: insert_idempotency_def alist_update_fresh map_of_eq_None_iff)
  define db1 where "db1 = db\<lparr>t_idempotency := t_idempotency db @ [record_to_row ?r]\<rparr>"
  have rows: "list_ex (\<lambda>row. ar_id row = account_uuid (acc_id ?a)) (t_accounts db1) \<longleftrightarrow> False"
    "list_ex (\<lambda>row. ar_name row = acc_name ?a) (t_accounts db1)
      \<longleftrightarrow> list_ex (\<lambda>(_, account). acc_name account = acc_name ?a) (accounts st)"
    using account_rows [of db st] rel keys fresh by (auto simp: db_rel_def keys_ok_def db1_def)
  note run = pg_create_def transaction_run tx_bind_def tx_err_def insert_record_sim [OF rel None] db1_def [symmetric]
    account_insert_def rows
  show ?thesis
  proof (cases "list_ex (\<lambda>(_, account). acc_name account = acc_name ?a) (accounts st)")
    case True
    then show ?thesis
      using ins by (simp add: run create_def create_error_def)
  next
    case False
    let ?st2 = "seed_account ?a ?st1"
    define db2 where "db2 = db1\<lparr>t_accounts := t_accounts db1 @ [account_to_row ?a]\<rparr>"
    have mem: "create c st = (Inr Committed, record_events (ac_events c) ?st2)"
      using False ins by (simp add: create_def)
    have evs: "list_all2 (event_row env) (t_outbox db2) (events ?st2)"
      using rel by (simp add: db_rel_def db2_def db1_def events_def)
    obtain orows n' where out: "pg_insert_outbox env no_faults (sr_outbox sr) topic 0 (ac_events c)
          (db2, Suc (Suc (Suc 0))) = (Inr (), db2\<lparr>t_outbox := orows\<rparr>, n')"
        "list_all2 (event_row env) orows (events (record_events (ac_events c) ?st2))"
      using pg_insert_outbox_sim [OF evs ser [unfolded serializable_def], of "sr_outbox sr" topic 0] by blast
    have "pg_create env no_faults sr topic c db = (Inr Committed, db2\<lparr>t_outbox := orows\<rparr>)"
      using False out(1) by (simp add: run db2_def [symmetric])
    moreover have "db_rel env (db2\<lparr>t_outbox := orows\<rparr>) (record_events (ac_events c) ?st2)"
      using rel out(2) alist_update_fresh [OF fresh, of ?a]
      by (auto simp: db_rel_def db2_def db1_def record_events_frame records_keyed_def seed_account_def)
    ultimately show ?thesis
      using mem by simp
  qed
qed

lemma pg_create_known_id:
  assumes "db_rel env db st" and "keys_ok st" and "account_uuid (acc_id (ac_account c)) \<in> fst ` set (accounts st)"
  shows "snd (pg_create env no_faults sr topic c db) = db"
proof (cases "map_of (idempotency st) (record_key (ac_idempotency c))")
  case (Some r)
  then show ?thesis
    using insert_record_duplicate [OF assms(1), of "ac_idempotency c"]
    by (simp add: pg_create_def transaction_run tx_bind_def tx_err_def)
next
  case None
  have "list_ex (\<lambda>row. ar_id row = account_uuid (acc_id (ac_account c))) (t_accounts db)"
    using account_rows(1) [of db st] assms by (simp add: db_rel_def keys_ok_def)
  then show ?thesis
    using insert_record_sim [OF assms(1) None]
    by (simp add: pg_create_def transaction_run tx_bind_def tx_err_def account_insert_def)
qed

end
