(* ===== verification/Postgres_Projection.thy ===== *)
theory Postgres_Projection
  imports Postgres
begin

text \<open>
  \<open>crates/storage-postgres/src/projection.rs\<close> and \<open>history.rs\<close>: the projection store, the event source
  over the outbox table, and the readers the reconciler uses.
\<close>

abbreviation proj_err :: "pg_env \<Rightarrow> SqlxError \<Rightarrow> ProjectorError" where
  "proj_err env e \<equiv> projector_of_storage env (Database e)"

abbreviation rec_err :: "pg_env \<Rightarrow> SqlxError \<Rightarrow> ReconcileError" where
  "rec_err env e \<equiv> reconcile_of_storage env (Database e)"

section \<open>ProjectionStore\<close>

definition processed_insert :: "string \<Rightarrow> uuid \<Rightarrow> datetime \<Rightarrow> Db \<Rightarrow> (SqlxError + nat) \<times> Db" where
  "processed_insert consumer u now db =
     (if list_ex (\<lambda>row. pr_consumer row = consumer \<and> pr_event_id row = u) (t_processed db)
      then (Inr 0, db)
      else (Inr 1, db\<lparr>t_processed := t_processed db @
             [\<lparr>pr_consumer = consumer, pr_event_id = u, pr_processed_at = timestamptz now\<rparr>]\<rparr>))"

definition at_projection :: "string \<Rightarrow> uuid \<Rightarrow> string \<Rightarrow> ProjectionRow \<Rightarrow> bool" where
  "at_projection consumer uid asset row \<longleftrightarrow>
     pv_consumer row = consumer \<and> pv_account_id row = uid \<and> pv_asset row = asset"

definition update_projection :: "string \<Rightarrow> uuid \<Rightarrow> string \<Rightarrow> string \<Rightarrow> datetime \<Rightarrow> Db \<Rightarrow> Db" where
  "update_projection consumer uid asset amount now db =
     db\<lparr>t_projection := map (\<lambda>row. if at_projection consumer uid asset row
          then row\<lparr>pv_amount_atomic := amount, pv_updated_at := timestamptz now\<rparr> else row) (t_projection db)\<rparr>"

definition insert_projection :: "string \<Rightarrow> uuid \<Rightarrow> string \<Rightarrow> string \<Rightarrow> datetime \<Rightarrow> Db \<Rightarrow> Db" where
  "insert_projection consumer uid asset amount now db =
     db\<lparr>t_projection := t_projection db @
       [\<lparr>pv_consumer = consumer, pv_account_id = uid, pv_asset = asset, pv_amount_atomic = amount,
         pv_updated_at = timestamptz now\<rparr>]\<rparr>"

definition pg_project_posting ::
    "pg_env \<Rightarrow> faults \<Rightarrow> datetime \<Rightarrow> string \<Rightarrow> Posting \<Rightarrow> (ProjectorError, unit) tx" where
  "pg_project_posting env ft now consumer posting =
     (let uid = account_uuid (p_account_id posting);
          asset = code_str (p_asset posting)
      in tx_bind (tx_err (proj_err env)
             (query ft (\<lambda>db. find (at_projection consumer uid asset) (t_projection db)))) (\<lambda>row.
         tx_bind (tx_done (case row of
             None \<Rightarrow> Inr ZERO
           | Some row \<Rightarrow> map_err (projector_of_storage env) (column_amount (pv_amount_atomic row)))) (\<lambda>current.
         tx_bind (tx_done (map_err ProjDomain (checked_add current (p_amount posting)))) (\<lambda>updated.
         tx_err (proj_err env) (sql ft (\<lambda>db. (Inr (),
           if row \<noteq> None then update_projection consumer uid asset (amount_to_str updated) now db
           else insert_projection consumer uid asset (amount_to_str updated) now db)))))))"

fun pg_project_postings ::
    "pg_env \<Rightarrow> faults \<Rightarrow> datetime \<Rightarrow> string \<Rightarrow> Posting list \<Rightarrow> (ProjectorError, unit) tx" where
  "pg_project_postings env ft now consumer [] = tx_done (Inr ())"
| "pg_project_postings env ft now consumer (posting # postings) =
     tx_bind (pg_project_posting env ft now consumer posting) (\<lambda>_.
       pg_project_postings env ft now consumer postings)"

definition pg_apply_journal ::
    "pg_env \<Rightarrow> faults \<Rightarrow> datetime \<Rightarrow> string \<Rightarrow> EventId \<Rightarrow> JournalEntry \<Rightarrow> Db
      \<Rightarrow> (ProjectorError + ApplyOutcome) \<times> Db" where
  "pg_apply_journal env ft now consumer event_id entry =
     transaction (proj_err env) ft
       (tx_bind (tx_err (proj_err env) (sql ft (processed_insert consumer (event_uuid event_id) now)))
         (\<lambda>inserted.
            if inserted = 0 then tx_done (Inr (Commit Duplicate))
            else tx_bind (pg_project_postings env ft now consumer (je_postings entry)) (\<lambda>_.
              tx_done (Inr (Commit Applied)))))"

definition at_offset :: "string \<Rightarrow> string \<Rightarrow> i32 \<Rightarrow> OffsetRow \<Rightarrow> bool" where
  "at_offset consumer topic part row \<longleftrightarrow>
     of_consumer row = consumer \<and> of_topic row = topic \<and> of_partition row = part"

definition pg_record_position ::
    "pg_env \<Rightarrow> faults \<Rightarrow> datetime \<Rightarrow> string \<Rightarrow> StreamPosition \<Rightarrow> Db \<Rightarrow> (ProjectorError + unit) \<times> Db" where
  "pg_record_position env ft now consumer position =
     on_pool (tx_err (proj_err env) (sql ft (\<lambda>db.
       (Inr (),
        if list_ex (at_offset consumer (sp_topic position) (sp_partition position)) (t_offsets db)
        then db\<lparr>t_offsets := map (\<lambda>row.
               if at_offset consumer (sp_topic position) (sp_partition position) row
               then row\<lparr>of_offset := sp_offset position, of_updated_at := timestamptz now\<rparr> else row) (t_offsets db)\<rparr>
        else db\<lparr>t_offsets := t_offsets db @
               [\<lparr>of_consumer = consumer, of_topic = sp_topic position, of_partition = sp_partition position,
                 of_offset = sp_offset position, of_updated_at = timestamptz now\<rparr>]\<rparr>))))"

definition pg_load_position ::
    "pg_env \<Rightarrow> faults \<Rightarrow> string \<Rightarrow> string \<Rightarrow> i32 \<Rightarrow> Db \<Rightarrow> ProjectorError + i64 option" where
  "pg_load_position env ft consumer topic part db =
     fst (on_pool (tx_err (proj_err env) (query ft (\<lambda>db.
       map_option of_offset (find (at_offset consumer topic part) (t_offsets db))))) db)"

definition pg_reset :: "pg_env \<Rightarrow> faults \<Rightarrow> string \<Rightarrow> Db \<Rightarrow> (ProjectorError + unit) \<times> Db" where
  "pg_reset env ft consumer =
     transaction (proj_err env) ft
       (tx_bind (tx_err (proj_err env) (sql ft (\<lambda>db. (Inr (),
           db\<lparr>t_projection := filter (\<lambda>row. pv_consumer row \<noteq> consumer) (t_projection db)\<rparr>)))) (\<lambda>_.
        tx_bind (tx_err (proj_err env) (sql ft (\<lambda>db. (Inr (),
           db\<lparr>t_processed := filter (\<lambda>row. pr_consumer row \<noteq> consumer) (t_processed db)\<rparr>)))) (\<lambda>_.
        tx_bind (tx_err (proj_err env) (sql ft (\<lambda>db. (Inr (),
           db\<lparr>t_offsets := filter (\<lambda>row. of_consumer row \<noteq> consumer) (t_offsets db)\<rparr>)))) (\<lambda>_.
        tx_done (Inr (Commit ()))))))"

section \<open>EventSource\<close>

definition sourced_from_row :: "pg_env \<Rightarrow> PgOutboxRow \<Rightarrow> StorageError + SourcedEvent" where
  "sourced_from_row env row =
     and_then (event_from_payload env (ob_event_id row) (ob_payload row) (ob_created_at row)) (\<lambda>event.
       Inr \<lparr>se_cursor = ob_id row, se_event = event\<rparr>)"

definition pg_fetch_after ::
    "pg_env \<Rightarrow> faults \<Rightarrow> i64 \<Rightarrow> u32 \<Rightarrow> Db \<Rightarrow> ProjectorError + SourcedEvent list" where
  "pg_fetch_after env ft after limit db =
     fst (on_pool (tx_bind (tx_err (proj_err env) (query ft (\<lambda>db. take (unat limit)
         (sort_key (\<lambda>row. sint (ob_id row)) (filter (\<lambda>row. sint (ob_id row) > sint after) (t_outbox db))))))
       (\<lambda>rows. tx_done (map_err (projector_of_storage env)
          (collect_results (map (sourced_from_row env) rows))))) db)"

definition pg_projection :: "pg_env \<Rightarrow> faults \<Rightarrow> datetime \<Rightarrow> Db projection_ports" where
  "pg_projection env ft now =
     \<lparr>pp_apply_journal = pg_apply_journal env ft now, pp_record_position = pg_record_position env ft now,
      pp_load_position = pg_load_position env ft, pp_reset = pg_reset env ft,
      pp_fetch_after = pg_fetch_after env ft\<rparr>"

section \<open>PostingHistory and BalanceView\<close>

fun pg_load_entries :: "pg_env \<Rightarrow> faults \<Rightarrow> uuid list \<Rightarrow> (ReconcileError, JournalEntry list) tx" where
  "pg_load_entries env ft [] = tx_done (Inr [])"
| "pg_load_entries env ft (i # ids) =
     tx_bind (tx_err (reconcile_of_storage env) (pg_load_entry env ft (TransactionId i))) (\<lambda>entry.
     tx_bind (pg_load_entries env ft ids) (\<lambda>rest.
       tx_done (Inr (case entry of None \<Rightarrow> rest | Some e \<Rightarrow> e # rest))))"

definition pg_all_entries :: "pg_env \<Rightarrow> faults \<Rightarrow> Db \<Rightarrow> ReconcileError + JournalEntry list" where
  "pg_all_entries env ft db =
     fst (on_pool (tx_bind (tx_err (rec_err env) (query ft (\<lambda>db.
         map er_id (sort_key (\<lambda>row. (er_created_at row, er_id row)) (t_entries db)))))
       (pg_load_entries env ft)) db)"

definition pg_view_snapshot ::
    "pg_env \<Rightarrow> (string \<Rightarrow> string) \<Rightarrow> faults \<Rightarrow> Db \<Rightarrow> ReconcileError + BalanceRecord list" where
  "pg_view_snapshot env collate ft db =
     fst (on_pool (tx_bind (tx_err (rec_err env) (query ft (\<lambda>db. balance_order collate (t_balances db))))
       (\<lambda>rows. tx_done (map_err (reconcile_of_storage env)
          (collect_results (map balance_from_row rows))))) db)"

definition projection_to_balance :: "ProjectionRow \<Rightarrow> BalanceRow" where
  "projection_to_balance row =
     \<lparr>ba_account_id = pv_account_id row, ba_asset = pv_asset row,
      ba_amount_atomic = pv_amount_atomic row, ba_updated_at = pv_updated_at row\<rparr>"

definition pg_projection_snapshot ::
    "pg_env \<Rightarrow> (string \<Rightarrow> string) \<Rightarrow> faults \<Rightarrow> Db \<Rightarrow> string \<Rightarrow> ReconcileError + BalanceRecord list" where
  "pg_projection_snapshot env collate ft db consumer =
     fst (on_pool (tx_bind (tx_err (rec_err env) (query ft (\<lambda>db. balance_order collate
         (map projection_to_balance (filter (\<lambda>row. pv_consumer row = consumer) (t_projection db))))))
       (\<lambda>rows. tx_done (map_err (reconcile_of_storage env)
          (collect_results (map balance_from_row rows))))) db)"

end
