(* ===== verification/Postgres_Reach.thy ===== *)
theory Postgres_Reach
  imports Postgres_Laws Postgres_Projection
begin

text \<open>
  The PostgreSQL adapter as a state machine: any sequence of port calls, each under any fault
  plan.  Every reachable database represents a reachable state of the in-memory store, so its
  tables satisfy the invariants of the ledger.
\<close>

section \<open>Calls that leave the ledger tables alone\<close>

definition outbox_core :: "PgOutboxRow \<Rightarrow> uuid \<times> string \<times> datetime \<times> Value" where
  "outbox_core row = (ob_event_id row, ob_partition_key row, ob_created_at row, ob_payload row)"

definition same_ledger :: "Db \<Rightarrow> Db \<Rightarrow> bool" where
  "same_ledger db db' \<longleftrightarrow>
     t_accounts db' = t_accounts db \<and> t_entries db' = t_entries db \<and> t_postings db' = t_postings db
     \<and> t_balances db' = t_balances db \<and> t_idempotency db' = t_idempotency db
     \<and> map outbox_core (t_outbox db') = map outbox_core (t_outbox db)"

interpretation ledger_tables: table_frame same_ledger
  by unfold_locales (simp_all add: same_ledger_def)

lemma map_outbox_core: "(\<And>row. outbox_core (f row) = outbox_core row) \<Longrightarrow> same_ledger db (db\<lparr>t_outbox := map f (t_outbox db)\<rparr>)"
  by (simp add: same_ledger_def)

lemma outbox_calls_keep:
  "same_ledger db (snd (pg_claim env ft now locked limit secs db))"
  "same_ledger db (snd (pg_mark_published env ft now ids db))"
  "same_ledger db (snd (pg_mark_failed env ft i err db))"
proof -
  have "tx_keeps same_ledger (pg_claim_rows env ft until rows)" for until rows
    by (induction rows)
      (auto simp: lease_row_def outbox_core_def intro!: keeps_intros map_outbox_core)
  then show "same_ledger db (snd (pg_claim env ft now locked limit secs db))"
    unfolding pg_claim_def by (intro ledger_tables.transaction_keeps keeps_intros)
  show "same_ledger db (snd (pg_mark_published env ft now ids db))"
    "same_ledger db (snd (pg_mark_failed env ft i err db))"
    unfolding pg_mark_published_def pg_mark_failed_def
    by (auto simp: outbox_core_def intro!: ledger_tables.on_pool_keeps keeps_intros map_outbox_core)
qed

lemma same_ledger_projection:
  "same_ledger db (update_projection consumer u a v now db)"
  "same_ledger db (insert_projection consumer u a v now db)"
  by (simp_all add: same_ledger_def update_projection_def insert_projection_def)

lemma projection_calls_keep:
  "same_ledger db (snd (pg_apply_journal env ft now consumer i e db))"
  "same_ledger db (snd (pg_record_position env ft now consumer pos db))"
  "same_ledger db (snd (pg_reset env ft consumer db))"
proof -
  have "tx_keeps same_ledger (pg_project_postings env ft now consumer ps)" for ps
    by (induction ps)
      (auto simp: pg_project_posting_def Let_def intro!: keeps_intros same_ledger_projection)
  then show "same_ledger db (snd (pg_apply_journal env ft now consumer i e db))"
    unfolding pg_apply_journal_def
    by (intro ledger_tables.transaction_keeps keeps_intros) (auto simp: processed_insert_def same_ledger_def)
  show "same_ledger db (snd (pg_record_position env ft now consumer pos db))"
    "same_ledger db (snd (pg_reset env ft consumer db))"
    unfolding pg_record_position_def pg_reset_def
    by (intro ledger_tables.on_pool_keeps ledger_tables.transaction_keeps keeps_intros; simp add: same_ledger_def)+
qed

lemma db_rel_same_ledger:
  assumes "db_rel env db st" and "same_ledger db db'"
  shows "db_rel env db' st"
proof -
  define E where "E = (\<lambda>(i, k, t, v) ev. i = event_uuid (ev_event_id ev) \<and> k = ev_aggregate_id ev
      \<and> t = timestamptz (ev_created_at ev) \<and> pe_to_value env ev = Inr v)"
  have E: "event_row env = (\<lambda>row. E (outbox_core row))"
    by (simp add: fun_eq_iff event_row_def outbox_core_def E_def)
  have "list_all2 (event_row env) rows evs \<longleftrightarrow> list_all2 E (map outbox_core rows) evs" for rows evs
    by (simp only: list_all2_map1 E)
  then have "list_all2 (event_row env) (t_outbox db') (events st)"
    using assms by (simp add: db_rel_def same_ledger_def)
  with assms show ?thesis
    by (simp add: db_rel_def same_ledger_def)
qed

section \<open>The state machine\<close>

definition fresh_rows :: "Db \<Rightarrow> LedgerEvent list \<Rightarrow> bool" where
  "fresh_rows db evs \<longleftrightarrow>
     distinct (map ev_event_id evs) \<and> event_uuid ` ev_event_id ` set evs \<inter> ob_event_id ` set (t_outbox db) = {}"

text \<open>The calls of the ledger service and of the projector, then those of the outbox relay.\<close>

inductive pg_call :: "pg_env \<Rightarrow> Db \<Rightarrow> Db \<Rightarrow> bool" for env where
  pg_call_create: "fresh_rows db (ac_events c) \<Longrightarrow> posted (ac_events c) = [] \<Longrightarrow> serializable env (ac_events c)
    \<Longrightarrow> pg_call env db (snd (pg_create env ft sr topic c db))"
| pg_call_commit: "validate_balanced (je_postings (jc_entry c)) = Inr () \<Longrightarrow> posted (jc_events c) = [jc_entry c]
    \<Longrightarrow> fresh_rows db (jc_events c) \<Longrightarrow> serializable env (jc_events c)
    \<Longrightarrow> pg_call env db (snd (pg_commit env ft sr topic now c db))"
| pg_call_purge: "pg_call env db (snd (pg_purge_created_before env ft cutoff db))"
| pg_call_apply: "pg_call env db (snd (pg_apply_journal env ft now consumer eid e db))"
| pg_call_position: "pg_call env db (snd (pg_record_position env ft now consumer pos db))"
| pg_call_reset: "pg_call env db (snd (pg_reset env ft consumer db))"

inductive pg_step :: "pg_env \<Rightarrow> Db \<Rightarrow> Db \<Rightarrow> bool" for env where
  pg_step_call: "pg_call env db db' \<Longrightarrow> pg_step env db db'"
| pg_step_claim: "pg_step env db (snd (pg_claim env ft now locked limit secs db))"
| pg_step_publish: "pg_step env db (snd (pg_mark_published env ft now ids db))"
| pg_step_fail: "pg_step env db (snd (pg_mark_failed env ft i err db))"

lemmas pg_step_create = pg_step_call [OF pg_call_create]

lemmas pg_step_commit = pg_step_call [OF pg_call_commit]

inductive pg_reach :: "pg_env \<Rightarrow> Db \<Rightarrow> bool" for env where
  pg_reach_init: "pg_reach env Db_empty"
| pg_reach_step: "pg_reach env db \<Longrightarrow> pg_step env db db' \<Longrightarrow> pg_reach env db'"

section \<open>Simulation\<close>

lemma fresh_rows_rel:
  assumes "db_rel env db st" and "fresh_rows db evs"
  shows "fresh_events st evs"
proof -
  have "ob_event_id ` set (t_outbox db) = event_uuid ` ev_event_id ` set (events st)"
  proof -
    have "list_all2 (event_row env) (t_outbox db) (events st)"
      using assms(1) by (simp add: db_rel_def)
    then have "map ob_event_id (t_outbox db) = map (event_uuid \<circ> ev_event_id) (events st)"
      by (induction rule: list_all2_induct) (simp_all add: event_row_def)
    then show ?thesis
      by (metis image_comp list.set_map)
  qed
  with assms(2) show ?thesis
    by (auto simp: fresh_rows_def fresh_events_def)
qed

lemma pg_commit_step:
  assumes rel: "db_rel env db st" and reach: "mem_reach (pe_uuid_show env) st"
    and wf: "validate_balanced (je_postings (jc_entry c)) = Inr ()" "posted (jc_events c) = [jc_entry c]"
      "fresh_rows db (jc_events c)" "serializable env (jc_events c)"
  shows "\<exists>st'. mem_reach (pe_uuid_show env) st' \<and> db_rel env (snd (pg_commit env ft sr topic now c db)) st'"
proof -
  let ?sh = "pe_uuid_show env"
  obtain r db' where run: "pg_commit env ft sr topic now c db = (r, db')"
    by fastforce
  have nf: "db' = db \<or> snd (pg_commit env no_faults sr topic now c db) = db'"
    using transaction_atomic [OF _ run [unfolded pg_commit_def]] unfolding pg_commit_def
    by (force intro!: no_fault_intros)
  have "journal_commit_wf st c"
    using wf fresh_rows_rel [OF rel] by (simp add: journal_commit_wf_def)
  from reach_step [OF reach step_commit [OF this]]
  have "mem_reach ?sh (snd (commit ?sh now c st))" .
  moreover have "db' = db \<or> db_rel env db' (snd (commit ?sh now c st))"
  proof (cases "je_id (jc_entry c) \<in> je_id ` set (entries st)")
    case True
    with nf pg_commit_known_id [OF rel True, of sr topic now] show ?thesis
      by auto
  next
    case False
    with nf pg_commit_sim [OF rel _ False wf(4), of sr topic now] mem_reach_inv [OF reach] show ?thesis
      by (auto simp: mem_inv_def)
  qed
  ultimately show ?thesis
    using rel reach run by auto
qed

lemma pg_create_step:
  assumes rel: "db_rel env db st" and reach: "mem_reach (pe_uuid_show env) st"
    and wf: "fresh_rows db (ac_events c)" "posted (ac_events c) = []" "serializable env (ac_events c)"
  shows "\<exists>st'. mem_reach (pe_uuid_show env) st' \<and> db_rel env (snd (pg_create env ft sr topic c db)) st'"
proof -
  obtain r db' where run: "pg_create env ft sr topic c db = (r, db')"
    by fastforce
  have nf: "db' = db \<or> snd (pg_create env no_faults sr topic c db) = db'"
    using transaction_atomic [OF _ run [unfolded pg_create_def]] unfolding pg_create_def
    by (force intro!: no_fault_intros)
  have keys: "keys_ok st"
    using mem_reach_inv [OF reach] by (simp add: mem_inv_def)
  show ?thesis
  proof (cases "account_uuid (acc_id (ac_account c)) \<in> fst ` set (accounts st)")
    case True
    with nf pg_create_known_id [OF rel keys] rel reach run show ?thesis
      by auto
  next
    case False
    then have "account_commit_wf st c"
      using wf fresh_rows_rel [OF rel] by (simp add: account_commit_wf_def)
    from reach_step [OF reach step_create [OF this]]
    have "mem_reach (pe_uuid_show env) (snd (create c st))" .
    with nf pg_create_sim [OF rel keys False wf(3), of sr topic] rel reach run show ?thesis
      by auto
  qed
qed

lemma pg_purge_step:
  assumes rel: "db_rel env db st" and reach: "mem_reach sh st"
  shows "\<exists>st'. mem_reach sh st' \<and> db_rel env (snd (pg_purge_created_before env ft cutoff db)) st'"
proof -
  let ?db = "db\<lparr>t_idempotency := filter (\<lambda>row. \<not> ik_created_at row < timestamptz cutoff) (t_idempotency db)\<rparr>"
  have "snd (pg_purge_created_before env ft cutoff db) = db \<or> snd (pg_purge_created_before env ft cutoff db) = ?db"
    by (auto simp: pg_purge_created_before_def on_pool_def tx_err_def sql_def split: option.splits fault.splits)
  moreover have "db_rel env ?db (snd (purge_created_before (timestamptz cutoff) st))"
    using rel
    by (auto simp: db_rel_def purge_created_before_def Let_def filter_map o_def record_to_row_def
        records_keyed_def events_def not_less [symmetric] timestamptz_less split_def)
  ultimately show ?thesis
    using rel reach reach_step [OF reach step_purge] by metis
qed

lemma pg_call_sim:
  assumes "pg_call env db db'" and "mem_reach (pe_uuid_show env) st" and "db_rel env db st"
  shows "\<exists>st. mem_reach (pe_uuid_show env) st \<and> db_rel env db' st"
  using assms(1)
proof cases
  case (pg_call_create c ft sr topic)
  with assms(2,3) show ?thesis
    by (simp add: pg_create_step)
next
  case (pg_call_commit c ft sr topic now)
  with assms(2,3) show ?thesis
    by (simp add: pg_commit_step)
next
  case (pg_call_purge ft cutoff)
  with assms(2,3) show ?thesis
    by (simp add: pg_purge_step)
qed (use assms(2,3) db_rel_same_ledger projection_calls_keep in metis)+

lemma pg_reach_sim: "pg_reach env db \<Longrightarrow> \<exists>st. mem_reach (pe_uuid_show env) st \<and> db_rel env db st"
proof (induction rule: pg_reach.induct)
  case pg_reach_init
  have "db_rel env Db_empty State_default"
    by (simp add: db_rel_def Db_empty_def State_default_def events_def records_keyed_def)
  then show ?case
    using reach_init by blast
next
  case (pg_reach_step db db')
  then obtain st where st: "mem_reach (pe_uuid_show env) st" "db_rel env db st"
    by blast
  from pg_reach_step(2) show ?case
  proof cases
    case pg_step_call
    from pg_call_sim [OF this st] show ?thesis .
  qed (use st db_rel_same_ledger outbox_calls_keep in metis)+
qed

end
