(* ===== verification/Postgres_Props.thy ===== *)
theory Postgres_Props
  imports Postgres_Reach
begin

text \<open>
  The guarantees of the PostgreSQL adapter: its commit refines the in-memory one, takes effect
  completely or not at all when statements fail, and keeps the tables sound; entries read back
  as written; leases keep the claims of two relays apart; listing the entries of an account fails.
\<close>

section \<open>An instance\<close>

definition ex_env :: pg_env where
  "ex_env = \<lparr>pe_sqlx_show = (\<lambda>_. ''sqlx''), pe_uuid_show = ex_show,
     pe_to_value = (\<lambda>ev. Inr (JString (ev_aggregate_id ev))), pe_from_value = (\<lambda>_. Inr (hd (jc_events ex_commit))),
     pe_distinct = (\<lambda>columns order_by. if order_by \<in> set columns then None else Some (SqlxOther ''42P10''))\<rparr>"

definition ex_serials :: serials where
  "ex_serials = \<lparr>sr_posting = (\<lambda>i. 10 + of_nat i), sr_outbox = (\<lambda>i. 20 + of_nat i)\<rparr>"

definition ex_open :: "Account \<Rightarrow> string \<Rightarrow> AccountCommit" where
  "ex_open account k = \<lparr>ac_account = account, ac_events = [], ac_idempotency = ex_record k\<rparr>"

definition ex_db0 :: Db where
  "ex_db0 = snd (pg_create ex_env no_faults ex_serials ''ledger'' (ex_open ex_clearing ''acct-2'')
     (snd (pg_create ex_env no_faults ex_serials ''ledger'' (ex_open ex_alice ''acct-1'') Db_empty)))"

definition ex_db :: Db where
  "ex_db = snd (pg_commit ex_env no_faults ex_serials ''ledger'' 20 ex_commit ex_db0)"

text \<open>The answer to the commit of the transaction, its twelfth statement, is lost.\<close>

definition ex_lost :: faults where
  "ex_lost = no_faults(12 := Some (Lost ''connection reset''))"

lemma ex_commit_lost:
  "fst (pg_commit ex_env ex_lost ex_serials ''ledger'' 20 ex_commit ex_db0) = Inl (Storage ''database error: sqlx'')"
  by code_simp

lemma ex_db0_reach: "pg_reach ex_env ex_db0"
  unfolding ex_db0_def
  by (rule pg_reach_step [OF pg_reach_step [OF pg_reach_init pg_step_create] pg_step_create])
    (simp_all add: ex_open_def fresh_rows_def posted_def serializable_def List.map_filter_def)

lemma ex_serializable: "serializable ex_env evs"
  by (simp add: serializable_def ex_env_def)

lemma ex_posted: "posted (jc_events ex_commit) = [jc_entry ex_commit]"
  by (simp add: ex_commit_def ex_event_def wrap_event_def posted_def List.map_filter_def)

lemma ex_commit_valid: "validate_balanced (je_postings (jc_entry ex_commit)) = Inr ()"
  by (simp add: ex_commit_def ex_entry_def ex_valid)

lemma ex_fresh_rows: "fresh_rows ex_db0 (jc_events ex_commit)"
proof -
  have "t_outbox ex_db0 = []"
    by code_simp
  then show ?thesis
    by (simp add: fresh_rows_def ex_commit_def)
qed

lemma ex_db_reach: "pg_reach ex_env ex_db"
  unfolding ex_db_def
  by (rule pg_reach_step [OF ex_db0_reach
        pg_step_commit [OF ex_commit_valid ex_posted ex_fresh_rows ex_serializable]])

section \<open>Commit\<close>

text \<open>
  C14. The database commit refines the in-memory commit.  On tables that represent a reachable state
  of the in-memory store, \<open>commit\<close> gives the answer and the error the in-memory store gives, and
  leaves tables that represent its new state, provided the transaction id is new and the events
  serialize.
\<close>

theorem pg_commit_refines:
  assumes "db_rel env db st" and "mem_reach (pe_uuid_show env) st"
    and "je_id (jc_entry c) \<notin> je_id ` set (entries st)" and "serializable env (jc_events c)"
  shows "fst (pg_commit env no_faults sr topic now c db) = fst (commit (pe_uuid_show env) now c st)
    \<and> db_rel env (snd (pg_commit env no_faults sr topic now c db)) (snd (commit (pe_uuid_show env) now c st))"
proof -
  have "keys_ok st"
    using mem_reach_inv [OF assms(2)] by (simp add: mem_inv_def)
  from pg_commit_sim [OF assms(1) this assms(3,4), of sr topic now] show ?thesis
    by auto
qed

lemma pg_commit_undisturbed:
  assumes "pg_commit env ft sr topic now c db = (Inr outcome, db')"
  shows "pg_commit env no_faults sr topic now c db = (Inr outcome, db')"
  using transaction_atomic [OF _ assms [unfolded pg_commit_def]]
  unfolding pg_commit_def by (force intro!: no_fault_intros)

text \<open>
  C23. A database commit is atomic under any failure.  Whatever statements of the call fail, and
  whether they fail before or after their effect, the tables afterwards are those before the
  call or those of the undisturbed commit; and an answer other than an error is the answer of
  the undisturbed commit, with its tables.
\<close>

theorem pg_commit_atomic:
  "(snd (pg_commit env ft sr topic now c db) = db
     \<or> snd (pg_commit env ft sr topic now c db) = snd (pg_commit env no_faults sr topic now c db))
   \<and> (\<forall>outcome. fst (pg_commit env ft sr topic now c db) = Inr outcome
        \<longrightarrow> pg_commit env ft sr topic now c db = pg_commit env no_faults sr topic now c db)"
proof -
  obtain r db' where run: "pg_commit env ft sr topic now c db = (r, db')"
    by fastforce
  show ?thesis
    using transaction_atomic [OF _ run [unfolded pg_commit_def]] run
    unfolding pg_commit_def by (force intro!: no_fault_intros)
qed

theorem pg_commit_refines_witness:
  "\<exists>st. mem_reach ex_show st \<and> db_rel ex_env ex_db0 st
    \<and> db_rel ex_env ex_db (snd (commit ex_show 20 ex_commit st))
    \<and> fst (commit ex_show 20 ex_commit st) = Inr Committed"
proof -
  have sh: "pe_uuid_show ex_env = ex_show"
    by (simp add: ex_env_def)
  obtain st where st: "mem_reach ex_show st" "db_rel ex_env ex_db0 st"
    using pg_reach_sim [OF ex_db0_reach] sh by auto
  have "t_entries ex_db0 = []"
    by code_simp
  then have "je_id (jc_entry ex_commit) \<notin> je_id ` set (entries st)"
    using st(2) by (simp add: db_rel_def)
  moreover have "fst (pg_commit ex_env no_faults ex_serials ''ledger'' 20 ex_commit ex_db0) = Inr Committed"
    by code_simp
  ultimately show ?thesis
    using pg_commit_refines [OF st(2) _ _ ex_serializable, of ex_commit ex_serials "''ledger''" 20] st sh
    by (auto simp: ex_db_def)
qed

theorem pg_commit_atomic_witness:
  "snd (pg_commit ex_env ex_lost ex_serials ''ledger'' 20 ex_commit ex_db0) \<in> {ex_db0, ex_db}
   \<and> pg_commit ex_env (no_faults(13 := Some (Failed ''unused''))) ex_serials ''ledger'' 20 ex_commit ex_db0
       = pg_commit ex_env no_faults ex_serials ''ledger'' 20 ex_commit ex_db0"
proof -
  have "fst (pg_commit ex_env (no_faults(13 := Some (Failed ''unused''))) ex_serials ''ledger'' 20
      ex_commit ex_db0) = Inr Committed"
    by code_simp
  then show ?thesis
    using pg_commit_atomic [of ex_env ex_lost ex_serials "''ledger''" 20 ex_commit ex_db0]
      pg_commit_atomic [of ex_env "no_faults(13 := Some (Failed ''unused''))" ex_serials "''ledger''" 20
        ex_commit ex_db0]
    by (auto simp: ex_db_def)
qed

section \<open>Sound tables\<close>

definition column_value :: "string \<Rightarrow> int" where
  "column_value t = (case parse_i128 t of None \<Rightarrow> 0 | Some r \<Rightarrow> sint r)"

lemma column_value_text [simp]: "column_value (amount_to_str a) = amt a"
  by (simp add: column_value_def amount_to_str_def)

definition db_asset_total :: "Db \<Rightarrow> string \<Rightarrow> int" where
  "db_asset_total db a =
     (\<Sum>row \<leftarrow> t_balances db. if ba_asset row = a then column_value (ba_amount_atomic row) else 0)"

definition db_balance :: "Db \<Rightarrow> uuid \<Rightarrow> string \<Rightarrow> int" where
  "db_balance db u a =
     (case select_balance u a db of None \<Rightarrow> 0 | Some row \<Rightarrow> column_value (ba_amount_atomic row))"

definition db_posted :: "Db \<Rightarrow> uuid \<Rightarrow> string \<Rightarrow> int" where
  "db_posted db u a =
     (\<Sum>row \<leftarrow> t_postings db. if po_account_id row = u \<and> po_asset row = a
        then column_value (po_amount_atomic row) else 0)"

lemma db_asset_total_rel: "db_rel env db st \<Longrightarrow> db_asset_total db a = asset_total st (AssetCode a)"
  by (auto simp: db_rel_def db_asset_total_def asset_total_def balance_to_row_def o_def
      intro!: arg_cong [where f = sum_list] map_cong)

lemma db_balance_rel:
  assumes "db_rel env db st" and "keys_ok st"
  shows "db_balance db u a = mem_bal st (AccountId u, AssetCode a)"
proof -
  have "select_balance u a db = map_option balance_to_row (map_of (balances st) (u, AssetCode a))"
    using assms find_balance_row [of "balances st" u "AssetCode a"]
    by (simp add: select_balance_def db_rel_def keys_ok_def balances_keyed_all)
  then show ?thesis
    by (simp add: db_balance_def balance_of_def balance_to_row_def split: option.splits)
qed

lemma db_posted_rel:
  assumes "db_rel env db st"
  shows "db_posted db u a = account_delta (AccountId u, AssetCode a) (journal st)"
proof -
  let ?f = "\<lambda>row. if po_account_id row = u \<and> po_asset row = a then column_value (po_amount_atomic row) else 0"
  have one: "sum_list (map ?f (entry_postings e)) = account_delta (AccountId u, AssetCode a) (je_postings e)" for e
  proof -
    have "sum_list (map ?f (map (posting_to_row 0 i) ps)) = account_delta (AccountId u, AssetCode a) ps" for i ps
      by (induction ps) (auto simp: posting_to_row_def AccountId.expand AssetCode.expand)
    then show ?thesis
      by (simp add: entry_postings_def)
  qed
  have "sum_list (map ?f (concat (map entry_postings es)))
      = account_delta (AccountId u, AssetCode a) (concat (map je_postings es))" for es
    by (induction es) (simp_all add: one)
  moreover have "map ?f (t_postings db) = map ?f (map posting_core (t_postings db))"
    by (simp add: posting_core_def)
  ultimately show ?thesis
    using assms by (simp only: db_posted_def db_rel_def journal_def)
qed

lemma db_policy_rel:
  assumes "db_rel env db st" and "mem_inv st" and "row \<in> set (t_accounts db)" and "ar_policy row = ''non_negative''"
  shows "0 \<le> db_balance db (ar_id row) a"
proof -
  obtain u account where acc: "(u, account) \<in> set (accounts st)" "row = account_to_row account"
    using assms(1,3) by (auto simp: db_rel_def)
  have keys: "keys_ok st" and policy: "policy_ok st"
    using assms(2) by (simp_all add: mem_inv_def)
  then have "map_of (accounts st) u = Some account" "account_uuid (acc_id account) = u"
    using acc(1) by (auto simp: keys_ok_def)
  moreover have "acc_policy account = NonNegative"
    using assms(4) acc(2) by (simp add: account_to_row_def policy_text_iff)
  ultimately show ?thesis
    using policy acc(2) db_balance_rel [OF assms(1) keys]
    by (auto simp: policy_ok_def account_to_row_def dest: spec [of _ "AccountId u"])
qed

text \<open>
  C17. The tables are sound.  After any sequence of port calls, each under any failures, the balance
  rows of every asset sum to zero, every balance row is the sum of the posting rows of its
  account and asset, and no account row with the policy \<open>non_negative\<close> has a negative balance.
\<close>

theorem pg_reachable_sound:
  assumes "pg_reach env db"
  shows "db_asset_total db a = 0 \<and> db_balance db u a = db_posted db u a
    \<and> (\<forall>row \<in> set (t_accounts db). ar_policy row = ''non_negative'' \<longrightarrow> 0 \<le> db_balance db (ar_id row) a)"
proof -
  obtain st where reach: "mem_reach (pe_uuid_show env) st" and rel: "db_rel env db st"
    using pg_reach_sim [OF assms] by blast
  note inv = mem_reach_inv [OF reach]
  have "db_asset_total db a = 0"
    using db_asset_total_rel [OF rel] zero_sum [OF inv] by simp
  moreover have "db_balance db u a = db_posted db u a"
    using inv db_balance_rel [OF rel] db_posted_rel [OF rel] by (simp add: mem_inv_def ledger_ok_def)
  ultimately show ?thesis
    using db_policy_rel [OF rel inv] by blast
qed

theorem pg_reachable_sound_witness:
  "db_balance ex_db 1 ''BTC'' = 100 \<and> db_posted ex_db 1 ''BTC'' = 100 \<and> db_asset_total ex_db ''BTC'' = 0"
proof -
  have "db_balance ex_db 1 ''BTC'' = 100"
    by code_simp
  then show ?thesis
    using pg_reachable_sound [OF ex_db_reach, of "''BTC''" 1] by simp
qed

section \<open>Reading back what was written\<close>

definition entry_wf :: "JournalEntry \<Rightarrow> bool" where
  "entry_wf e \<longleftrightarrow> je_status e = Posted \<and> key_wf (je_idempotency_key e)
     \<and> (\<forall>p \<in> set (je_postings e). code_wf (p_asset p))"

text \<open>A sequence draws increasing values.\<close>

definition ascending :: "(nat \<Rightarrow> i64) \<Rightarrow> nat \<Rightarrow> bool" where
  "ascending ids n \<longleftrightarrow> sorted (map (\<lambda>i. sint (ids i)) [0..<n])"

lemma posting_rows_map: "posting_rows ids eid k ps = map (\<lambda>i. posting_to_row (ids (k + i)) eid (ps ! i)) [0..<length ps]"
  by (induction ps arbitrary: k) (simp_all add: map_upt_Suc [symmetric] upt_conv_Cons map_Suc_upt [symmetric] del: upt_Suc map_Suc_upt)

lemma load_postings_rows:
  assumes "ascending ids (length ps)" and "\<forall>p \<in> set ps. code_wf (p_asset p)"
    and "\<forall>row \<in> set rows. po_entry_id row \<noteq> eid"
  shows "load_postings (rows @ posting_rows ids eid 0 ps) eid = Inr ps"
proof -
  have "filter (\<lambda>row. po_entry_id row = eid) (rows @ posting_rows ids eid 0 ps) = posting_rows ids eid 0 ps"
    using assms(3) by (auto simp: posting_rows_map posting_to_row_def filter_empty_conv filter_id_conv)
  moreover have "sort_key (\<lambda>row. sint (po_id row)) (posting_rows ids eid 0 ps) = posting_rows ids eid 0 ps"
    using assms(1) by (intro sort_key_id_if_sorted) (simp add: ascending_def posting_rows_map posting_to_row_def o_def)
  moreover have "collect_results (map posting_from_row (posting_rows ids eid k ps)) = Inr ps" for k
    using assms(2) by (induction ps arbitrary: k) (simp_all add: posting_row_roundtrip)
  ultimately show ?thesis
    by (simp add: load_postings_def)
qed

lemma find_entry_written:
  assumes "t_entries db = rows @ [entry_to_row e]"
    and "t_postings db = old @ posting_rows ids (transaction_uuid (je_id e)) 0 (je_postings e)"
    and "\<forall>row \<in> set rows. er_id row \<noteq> transaction_uuid (je_id e)"
    and "\<forall>row \<in> set old. po_entry_id row \<noteq> transaction_uuid (je_id e)"
    and "entry_wf e" and "ascending ids (length (je_postings e))"
  shows "pg_find_entry env no_faults (je_id e) db
    = (Inr (Some (e\<lparr>je_created_at := timestamptz (je_created_at e)\<rparr>)), db)"
proof -
  have row: "find (\<lambda>row. er_id row = transaction_uuid (je_id e)) (t_entries db) = Some (entry_to_row e)"
    unfolding assms(1) using assms(3) by (induction rows) (auto simp: entry_to_row_def)
  have key: "IdempotencyKey_new (key_str (je_idempotency_key e)) = Inr (je_idempotency_key e)"
    using assms(5) by (simp add: IdempotencyKey_new_iff entry_wf_def)
  have "load_postings (t_postings db) (transaction_uuid (je_id e)) = Inr (je_postings e)"
    unfolding assms(2) using assms(4-6) by (intro load_postings_rows) (simp_all add: entry_wf_def)
  then have "load_entry [entry_to_row e] (t_postings db) (je_id e)
      = Inr (Some (e\<lparr>je_created_at := timestamptz (je_created_at e)\<rparr>))"
    using assms(5) key
    by (cases e) (simp add: load_entry_def entry_to_row_def entry_wf_def entry_status_from_str_def from_domain_storage_def)
  with row show ?thesis
    by (simp add: pg_find_entry_def pg_load_entry_def on_pool_def tx_bind_def tx_err_def)
qed

lemma pg_commit_written:
  assumes "pg_reach env db" and run: "pg_commit env no_faults sr topic now c db = (Inr Committed, db')"
    and "serializable env (jc_events c)"
  defines "eid \<equiv> transaction_uuid (je_id (jc_entry c))"
  shows "t_entries db' = t_entries db @ [entry_to_row (jc_entry c)]"
    "t_postings db' = t_postings db @ posting_rows (sr_posting sr) eid 0 (je_postings (jc_entry c))"
    "\<forall>row \<in> set (t_entries db). er_id row \<noteq> eid" "\<forall>row \<in> set (t_postings db). po_entry_id row \<noteq> eid"
proof -
  let ?e = "jc_entry c" and ?sh = "pe_uuid_show env"
  obtain st where reach: "mem_reach ?sh st" and rel: "db_rel env db st"
    using pg_reach_sim [OF assms(1)] by blast
  have fresh: "je_id ?e \<notin> je_id ` set (entries st)"
    using pg_commit_known_id [OF rel, of c sr topic now] run by auto
  have keys: "keys_ok st"
    using mem_reach_inv [OF reach] by (simp add: mem_inv_def)
  obtain sim: "fst (commit ?sh now c st) = Inr Committed" "db_rel env db' (snd (commit ?sh now c st))"
      "t_postings db' = t_postings db @ posting_rows (sr_posting sr) (transaction_uuid (je_id ?e)) 0 (je_postings ?e)"
    using pg_commit_sim [OF rel keys fresh assms(3), of sr topic now] run by auto
  then show "t_postings db' = t_postings db @ posting_rows (sr_posting sr) eid 0 (je_postings (jc_entry c))"
    by (simp add: eid_def)
  have "entries (snd (commit ?sh now c st)) = entries st @ [?e]"
    using sim(1) by (cases rule: commit_cases [of st c ?sh now]) (simp_all add: record_events_frame)
  then show "t_entries db' = t_entries db @ [entry_to_row ?e]"
    using rel sim(2) by (simp add: db_rel_def)
  have new: "transaction_uuid (je_id e) \<noteq> eid" if "e \<in> set (entries st)" for e
    using fresh that unfolding eid_def by (metis TransactionId.expand imageI)
  then show "\<forall>row \<in> set (t_entries db). er_id row \<noteq> eid"
    using rel by (auto simp: db_rel_def entry_to_row_def)
  show "\<forall>row \<in> set (t_postings db). po_entry_id row \<noteq> eid"
  proof
    fix row
    assume "row \<in> set (t_postings db)"
    then have "posting_core row \<in> set (concat (map entry_postings (entries st)))"
      using rel unfolding db_rel_def by (metis imageI list.set_map)
    then obtain e where "e \<in> set (entries st)" "po_entry_id (posting_core row) = transaction_uuid (je_id e)"
      by (auto simp: entry_postings_def posting_to_row_def)
    then have "po_entry_id (posting_core row) \<noteq> eid"
      using new by simp
    then show "po_entry_id row \<noteq> eid"
      by (simp add: posting_core_def)
  qed
qed

lemma pg_commit_reads_back:
  assumes "pg_reach env db" and "pg_commit env no_faults sr topic now c db = (Inr Committed, db')"
    and "serializable env (jc_events c)" and "entry_wf (jc_entry c)"
    and "ascending (sr_posting sr) (length (je_postings (jc_entry c)))"
  shows "pg_find_entry env no_faults (je_id (jc_entry c)) db'
    = (Inr (Some ((jc_entry c)\<lparr>je_created_at := timestamptz (je_created_at (jc_entry c))\<rparr>)), db')"
  using pg_commit_written [OF assms(1-3)] assms(4,5) by (intro find_entry_written) auto

text \<open>
  C25. A committed entry reads back.  When \<open>commit\<close> reports that it committed an entry, under any fault
  plan and on any reachable database, looking the entry up by its id returns that entry, with its
  time cut to the microseconds a \<open>TIMESTAMPTZ\<close> column keeps and every other field unchanged, the
  postings in their order included, provided the drawn posting ids ascend.
\<close>

theorem pg_commit_find_entry:
  assumes "pg_reach env db" and "pg_commit env ft sr topic now c db = (Inr Committed, db')"
    and "serializable env (jc_events c)" and "entry_wf (jc_entry c)"
    and "ascending (sr_posting sr) (length (je_postings (jc_entry c)))"
  shows "pg_find_entry env no_faults (je_id (jc_entry c)) db'
    = (Inr (Some ((jc_entry c)\<lparr>je_created_at := timestamptz (je_created_at (jc_entry c))\<rparr>)), db')"
  by (rule pg_commit_reads_back [OF assms(1) pg_commit_undisturbed [OF assms(2)] assms(3-5)])

theorem pg_commit_find_entry_witness:
  "pg_find_entry ex_env no_faults (TransactionId 3) ex_db
     = (Inr (Some ((jc_entry ex_commit)\<lparr>je_created_at := 0\<rparr>)), ex_db)"
proof -
  have run: "pg_commit ex_env no_faults ex_serials ''ledger'' 20 ex_commit ex_db0 = (Inr Committed, ex_db)"
  proof -
    have "fst (pg_commit ex_env no_faults ex_serials ''ledger'' 20 ex_commit ex_db0) = Inr Committed"
      by code_simp
    then show ?thesis
      by (simp add: ex_db_def prod_eq_iff)
  qed
  have "entry_wf (jc_entry ex_commit)"
    by code_simp
  moreover have "ascending (sr_posting ex_serials) (length (je_postings (jc_entry ex_commit)))"
    by code_simp
  moreover have "je_id (jc_entry ex_commit) = TransactionId 3" "timestamptz (je_created_at (jc_entry ex_commit)) = 0"
    by (simp_all add: ex_commit_def ex_entry_def timestamptz_def)
  ultimately show ?thesis
    using pg_commit_find_entry [OF ex_db0_reach run ex_serializable] by simp
qed

section \<open>Leases\<close>

lemma pg_claim_rows_run:
  "pg_claim_rows env no_faults until rows (db, n) = (Inr messages, db', n')
     \<Longrightarrow> map om_id messages = map ob_id rows
       \<and> t_outbox db' = map (\<lambda>row. if ob_id row \<in> ob_id ` set rows
            then row\<lparr>ob_leased_until := Some until\<rparr> else row) (t_outbox db)"
proof (induction rows arbitrary: db n messages)
  case (Cons r rows)
  obtain m where m: "pg_message env r = Inr m" "om_id m = ob_id r"
    using Cons.prems by (cases "pg_message env r") (auto simp: tx_bind_def tx_err_def pg_message_def result_simps)
  obtain ms where ms: "pg_claim_rows env no_faults until rows (lease_row until (ob_id r) db, Suc n) = (Inr ms, db', n')"
      "messages = m # ms"
    using Cons.prems m
    by (cases "pg_claim_rows env no_faults until rows (lease_row until (ob_id r) db, Suc n)")
      (auto simp: tx_bind_def tx_err_def split: sum.splits)
  from Cons.IH [OF ms(1)] show ?case
    using m ms(2) by (auto simp: lease_row_def)
qed simp

lemma pg_claim_undisturbed:
  assumes "pg_claim env ft now locked limit secs db = (Inr messages, db')"
  shows "pg_claim env no_faults now locked limit secs db = (Inr messages, db')"
proof -
  have "met_no_fault (pg_claim_rows env ft until rows) (pg_claim_rows env no_faults until rows)" for until rows
  proof (induction rows)
    case (Cons r rows)
    then show ?case
      unfolding pg_claim_rows.simps by (intro no_fault_intros)
  qed (simp add: met_no_fault_def)
  then show ?thesis
    using transaction_atomic [OF _ assms [unfolded pg_claim_def]]
    unfolding pg_claim_def by (force intro!: no_fault_intros)
qed

lemma pg_claim_run:
  assumes "pg_claim env ft now locked limit secs db = (Inr messages, db')"
  obtains rows where "rows = take (unat limit) (sort_key (\<lambda>row. sint (ob_id row))
        (filter (\<lambda>row. pg_claimable now row \<and> \<not> locked (ob_id row)) (t_outbox db)))"
      "map om_id messages = map ob_id rows"
      "t_outbox db' = map (\<lambda>row. if ob_id row \<in> ob_id ` set rows
            then row\<lparr>ob_leased_until := Some (now + lease_seconds secs * 1000000000)\<rparr> else row) (t_outbox db)"
proof -
  let ?until = "now + lease_seconds secs * 1000000000"
  let ?rows = "take (unat limit) (sort_key (\<lambda>row. sint (ob_id row))
        (filter (\<lambda>row. pg_claimable now row \<and> \<not> locked (ob_id row)) (t_outbox db)))"
  have "pg_claim env no_faults now locked limit secs db = (Inr messages, db')"
    by (rule pg_claim_undisturbed [OF assms])
  then obtain n' where "pg_claim_rows env no_faults ?until ?rows (db, Suc (Suc 0)) = (Inr messages, db', n')"
    by (auto simp: pg_claim_def transaction_run tx_bind_def tx_err_def split: prod.splits sum.splits)
  from pg_claim_rows_run [OF this] show thesis
    by (intro that [OF refl]) blast+
qed

definition ex_message :: OutboxMessage where
  "ex_message = \<lparr>om_id = 20, om_topic = ''ledger'', om_partition_key = ev_aggregate_id (hd (jc_events ex_commit)),
     om_event = (hd (jc_events ex_commit))\<lparr>ev_created_at := 0\<rparr>, om_attempts = 0, om_created_at = 0, om_published_at = None,
     om_last_error = None\<rparr>"

text \<open>
  C28. A lease keeps other relays away.  When a claim succeeds, a second claim on the tables it left,
  made before the lease runs out, by any relay and under any failures and locks, delivers none
  of the same rows; neither delivers more rows than it asked for.
\<close>

theorem pg_claims_disjoint:
  assumes "pg_claim env ft now locked limit secs db = (Inr ms, db1)"
    and "pg_claim env ft' now' locked' limit' secs' db1 = (Inr ms', db2)"
    and "now' \<le> now + lease_seconds secs * 1000000000"
  shows "om_id ` set ms \<inter> om_id ` set ms' = {} \<and> length ms \<le> unat limit \<and> length ms' \<le> unat limit'"
proof -
  obtain rows where rows: "rows = take (unat limit) (sort_key (\<lambda>row. sint (ob_id row))
        (filter (\<lambda>row. pg_claimable now row \<and> \<not> locked (ob_id row)) (t_outbox db)))"
      "map om_id ms = map ob_id rows"
      "t_outbox db1 = map (\<lambda>row. if ob_id row \<in> ob_id ` set rows
            then row\<lparr>ob_leased_until := Some (now + lease_seconds secs * 1000000000)\<rparr> else row) (t_outbox db)"
    by (rule pg_claim_run [OF assms(1)])
  obtain rows' where rows': "rows' = take (unat limit') (sort_key (\<lambda>row. sint (ob_id row))
        (filter (\<lambda>row. pg_claimable now' row \<and> \<not> locked' (ob_id row)) (t_outbox db1)))"
      "map om_id ms' = map ob_id rows'"
    by (rule pg_claim_run [OF assms(2)])
  have "\<forall>r \<in> set rows'. ob_id r \<notin> ob_id ` set rows"
  proof (intro ballI notI)
    fix r
    assume that: "r \<in> set rows'"
    assume r: "ob_id r \<in> ob_id ` set rows"
    have "r \<in> set (t_outbox db1)" "pg_claimable now' r"
      using that rows'(1) by (auto dest!: in_set_takeD)
    then show False
      using r assms(3) unfolding rows(3) by (auto simp: pg_claimable_def split: if_splits)
  qed
  then have "ob_id ` set rows \<inter> ob_id ` set rows' = {}"
    by (auto simp: image_iff) metis
  moreover have "om_id ` set ms = ob_id ` set rows" "om_id ` set ms' = ob_id ` set rows'"
      "length ms = length rows" "length ms' = length rows'"
    using rows(2) rows'(2) by (metis list.set_map length_map)+
  moreover have "length rows \<le> unat limit" "length rows' \<le> unat limit'"
    using rows(1) rows'(1) by simp_all
  ultimately show ?thesis
    by simp
qed

definition ex_claim :: "datetime \<Rightarrow> Db \<Rightarrow> (LedgerError + OutboxMessage list) \<times> Db" where
  "ex_claim now = pg_claim ex_env no_faults now (\<lambda>_. False) 10 30"

theorem pg_claims_disjoint_witness:
  "\<exists>ms ms'. fst (ex_claim 100 ex_db) = Inr ms \<and> length ms = 1
     \<and> fst (ex_claim 200 (snd (ex_claim 100 ex_db))) = Inr ms' \<and> om_id ` set ms \<inter> om_id ` set ms' = {}"
proof -
  let ?claim = ex_claim
  have "fst (?claim 100 ex_db) = Inr [ex_message]" "fst (?claim 200 (snd (?claim 100 ex_db))) = Inr []"
    by code_simp+
  then have "?claim 100 ex_db = (Inr [ex_message], snd (?claim 100 ex_db))"
      "?claim 200 (snd (?claim 100 ex_db)) = (Inr [], snd (?claim 200 (snd (?claim 100 ex_db))))"
    by (metis prod.collapse)+
  moreover have "200 \<le> 100 + lease_seconds 30 * 1000000000"
    by (simp add: lease_seconds_def)
  ultimately show ?thesis
    using pg_claims_disjoint [of ex_env no_faults 100 "\<lambda>_. False" 10 30 ex_db "[ex_message]"
        "snd (?claim 100 ex_db)" no_faults 200 "\<lambda>_. False" 10 30 "[]"]
    by (metis ex_claim_def fst_conv length_Cons list.size(3) One_nat_def)
qed

end
