(* ===== verification/Postgres_Service.thy ===== *)
theory Postgres_Service
  imports Postgres_Props Service_Props
begin

text \<open>
  The command handlers over the PostgreSQL adapter.  The adapter satisfies the interface
  \<open>ledger_ports\<close> when no statement fails, so failed commands have no effect and retries replay the
  stored answer here as they do over the in-memory store.
\<close>

section \<open>The adapter satisfies the contract of the ports\<close>

definition record_of_row :: "IdempotencyRow \<Rightarrow> IdempotencyRecord" where
  "record_of_row row =
     \<lparr>ir_scope = ik_scope row, ir_key = IdempotencyKey (ik_key row),
      ir_request_hash = RequestHash (ik_request_hash row), ir_response = ik_response row,
      ir_created_at = ik_created_at row\<rparr>"

definition pg_answers :: "Db \<Rightarrow> string \<times> string \<Rightarrow> IdempotencyRecord option" where
  "pg_answers db k =
     map_option record_of_row (find (\<lambda>row. ik_scope row = fst k \<and> ik_key row = snd k) (t_idempotency db))"

lemma record_of_row_to_row [simp]:
  "record_of_row (record_to_row r) = r\<lparr>ir_created_at := timestamptz (ir_created_at r)\<rparr>"
  by (cases r; cases "ir_key r"; cases "ir_request_hash r") (simp add: record_of_row_def record_to_row_def)

lemma idempotency_from_row_wf:
  "key_wf (IdempotencyKey (ik_key row)) \<Longrightarrow> idempotency_from_row row = Inr (record_of_row row)"
  by (auto simp: idempotency_from_row_def record_of_row_def from_domain_storage_def IdempotencyKey_new_iff result_simps)

text \<open>The later statements of a commit touch neither the keys nor the entries.\<close>

definition same_keys :: "Db \<Rightarrow> Db \<Rightarrow> bool" where
  "same_keys db db' \<longleftrightarrow> t_idempotency db' = t_idempotency db \<and> t_entries db' = t_entries db"

interpretation keys_table: table_frame same_keys
  by unfold_locales (simp_all add: same_keys_def)

lemma rest_keeps_keys:
  "tx_keeps same_keys (pg_apply_postings env ft ids now eid k ps)"
  "tx_keeps same_keys (pg_insert_outbox env ft ids topic k evs)"
proof -
  have "tx_keeps same_keys (pg_apply_posting env ft i now eid p)" for i p
    unfolding pg_apply_posting_def Let_def
    by (intro keeps_intros) (simp_all add: update_balance_def insert_balance_def same_keys_def)
  then show "tx_keeps same_keys (pg_apply_postings env ft ids now eid k ps)"
    by (induction ps arbitrary: k) (simp_all add: keeps_intros)
  show "tx_keeps same_keys (pg_insert_outbox env ft ids topic k evs)"
    by (induction evs arbitrary: k) (auto simp: outbox_insert_def same_keys_def intro!: keeps_intros)
qed

lemma keepsD:
  "tx_keeps same m \<Longrightarrow> m (db, n) = (r, db', n') \<Longrightarrow> same db db'"
  by (metis fst_conv snd_conv tx_keeps_def)

lemma tx_bind_Inr:
  "tx_bind m f s = (Inr b, s') \<longleftrightarrow> (\<exists>a s1. m s = (Inr a, s1) \<and> f a s1 = (Inr b, s'))"
  by (auto simp: tx_bind_def split: prod.splits sum.splits)

lemma tx_err_Inr: "tx_err g m s = (Inr a, s') \<longleftrightarrow> m s = (Inr a, s')"
  by (auto simp: tx_err_def result_simps split: prod.splits)

text \<open>The statements of a commit that went through.\<close>

lemma pg_commit_steps:
  assumes "pg_commit env no_faults sr topic now c db = (Inr outcome, db')"
    and "\<not> list_ex (\<lambda>row. ik_scope row = ir_scope (jc_idempotency c)
      \<and> ik_key row = key_str (ir_key (jc_idempotency c))) (t_idempotency db)"
  obtains db2 n2 db3 n3 n4 where "outcome = Committed"
    "db2 = db\<lparr>t_idempotency := t_idempotency db @ [record_to_row (jc_idempotency c)],
       t_entries := t_entries db @ [entry_to_row (jc_entry c)]\<rparr>"
    "pg_apply_postings env no_faults (sr_posting sr) now (transaction_uuid (je_id (jc_entry c))) 0
       (je_postings (jc_entry c)) (db2, n2) = (Inr (), db3, n3)"
    "pg_insert_outbox env no_faults (sr_outbox sr) topic 0 (jc_events c) (db3, n3) = (Inr (), db', n4)"
proof -
  let ?db1 = "db\<lparr>t_idempotency := t_idempotency db @ [record_to_row (jc_idempotency c)]\<rparr>"
  obtain a s2 where s2: "tx_bind (tx_err (ledger_err env) (sql no_faults (entry_insert (jc_entry c)))) (\<lambda>_.
          tx_bind (pg_apply_postings env no_faults (sr_posting sr) now (transaction_uuid (je_id (jc_entry c))) 0
              (je_postings (jc_entry c))) (\<lambda>_.
          tx_bind (tx_err (ledger_of_storage env)
              (pg_insert_outbox env no_faults (sr_outbox sr) topic 0 (jc_events c))) (\<lambda>_.
          tx_done (Inr (Commit Committed))))) (?db1, Suc (Suc 0)) = (Inr a, s2)"
      and out: "a = Commit outcome" "db' = fst s2"
    using assms
    by (auto simp: pg_commit_def transaction_run pg_insert_idempotency_def tx_err_def
        tx_bind_Inr split: prod.splits sum.splits tx_end.splits)
  then obtain db2 n2 db3 n3 where steps:
      "sql no_faults (entry_insert (jc_entry c)) (?db1, Suc (Suc 0)) = (Inr (), db2, n2)"
      "pg_apply_postings env no_faults (sr_posting sr) now (transaction_uuid (je_id (jc_entry c))) 0
         (je_postings (jc_entry c)) (db2, n2) = (Inr (), db3, n3)"
      "pg_insert_outbox env no_faults (sr_outbox sr) topic 0 (jc_events c) (db3, n3) = (Inr (), s2)"
      "a = Commit Committed"
    unfolding tx_bind_Inr tx_err_Inr by (auto simp: tx_done_def)
  have "db2 = ?db1\<lparr>t_entries := t_entries db @ [entry_to_row (jc_entry c)]\<rparr>"
    using steps(1) by (auto simp: entry_insert_def split: if_splits)
  with steps out that show thesis
    by (cases s2) simp
qed

lemma pg_commit_answers:
  assumes "pg_commit env no_faults sr topic now c db = (Inr outcome, db')"
  shows "outcome = DuplicateIdempotencyKey \<and> db' = db \<and> pg_answers db (record_key (jc_idempotency c)) \<noteq> None
    \<or> outcome = Committed \<and> pg_answers db (record_key (jc_idempotency c)) = None
       \<and> t_idempotency db' = t_idempotency db @ [record_to_row (jc_idempotency c)]
       \<and> t_entries db' = t_entries db @ [entry_to_row (jc_entry c)]"
proof (cases "list_ex (\<lambda>row. ik_scope row = ir_scope (jc_idempotency c)
      \<and> ik_key row = key_str (ir_key (jc_idempotency c))) (t_idempotency db)")
  case True
  then have "pg_answers db (record_key (jc_idempotency c)) \<noteq> None"
    by (auto simp: pg_answers_def record_key_def find_None_iff list_ex_iff)
  with True assms show ?thesis
    by (auto simp: pg_commit_def transaction_run pg_insert_idempotency_def tx_bind_def tx_err_def)
next
  case False
  have none: "pg_answers db (record_key (jc_idempotency c)) = None"
    using False by (auto simp: pg_answers_def record_key_def find_None_iff list_ex_iff)
  show ?thesis
  proof (rule pg_commit_steps [OF assms False])
    fix db2 n2 db3 n3 n4
    assume steps: "outcome = Committed"
      "db2 = db\<lparr>t_idempotency := t_idempotency db @ [record_to_row (jc_idempotency c)],
         t_entries := t_entries db @ [entry_to_row (jc_entry c)]\<rparr>"
      "pg_apply_postings env no_faults (sr_posting sr) now (transaction_uuid (je_id (jc_entry c))) 0
         (je_postings (jc_entry c)) (db2, n2) = (Inr (), db3, n3)"
      "pg_insert_outbox env no_faults (sr_outbox sr) topic 0 (jc_events c) (db3, n3) = (Inr (), db', n4)"
    have "same_keys db2 db3" "same_keys db3 db'"
      using keepsD [OF rest_keeps_keys(1) steps(3)] keepsD [OF rest_keeps_keys(2) steps(4)] by blast+
    with none steps(1,2) show ?thesis
      by (simp add: same_keys_def)
  qed
qed

lemma pg_answers_stored:
  assumes "pg_answers db (record_key r) = None" and "t_idempotency db' = t_idempotency db @ [record_to_row r]"
  shows "pg_answers db' = (pg_answers db)(record_key r \<mapsto> r\<lparr>ir_created_at := timestamptz (ir_created_at r)\<rparr>)"
proof
  have f: "find Q (xs @ [x]) = (case find Q xs of None \<Rightarrow> if Q x then Some x else None | Some y \<Rightarrow> Some y)"
    for Q xs and x :: IdempotencyRow
    by (induction xs) auto
  show "pg_answers db' k
      = ((pg_answers db)(record_key r \<mapsto> r\<lparr>ir_created_at := timestamptz (ir_created_at r)\<rparr>)) k" for k
    using assms(1) unfolding pg_answers_def assms(2) f
    by (cases k) (auto simp: record_key_def record_to_row_def record_of_row_def split: option.splits)
qed

text \<open>A commit that changed the tables is the undisturbed one, even when it answered with an error.\<close>

lemma pg_commit_effect:
  assumes "pg_commit env ft sr topic now c db = (r, db')" and "db' \<noteq> db"
  shows "\<exists>outcome. pg_commit env no_faults sr topic now c db = (Inr outcome, db')"
  using transaction_atomic [OF _ assms(1) [unfolded pg_commit_def]] assms(2)
  unfolding pg_commit_def by (force intro!: no_fault_intros)

lemma pg_commit_error: "pg_commit env no_faults sr topic now c db = (Inl e, db') \<Longrightarrow> db' = db"
  by (auto simp: pg_commit_def transaction_run split: prod.splits sum.splits tx_end.splits)

lemma pg_reads_keep:
  "snd (pg_find_idempotency env ft scope key db) = db"
  "snd (pg_load_many env ft ids db) = db" "snd (pg_get_balance env ft i a db) = db"
  "snd (pg_find_by_name env ft n db) = db"
  by (auto simp: pg_find_idempotency_def pg_load_many_def pg_get_balance_def pg_find_by_name_def on_pool_def tx_bind_def tx_err_def query_def sql_def
      tx_done_def split: option.splits fault.splits sum.splits)

lemma keeps_ex: "snd x = s \<Longrightarrow> \<exists>r. x = (r, s)"
  by (cases x) auto

interpretation pg_reads: quiet_reads "pg_calls env collate ns fts srs topic nows"
  for env collate ns fts srs topic nows
  by unfold_locales (rule keeps_ex, simp add: pg_calls_def pg_ports_def pg_reads_keep)+

interpretation pg_store: ledger_ports "pg_calls env collate ns (\<lambda>_. no_faults) srs topic nows" pg_answers key_wf
  for env collate ns srs topic nows
proof
  let ?P = "pg_calls env collate ns (\<lambda>_. no_faults) srs topic nows"
  have commit: "pt_commit (?P m) = pg_commit env no_faults (srs m) topic (nows m)" for m
    by (simp add: pg_calls_def pg_ports_def)
  show "pt_idem_find (?P m) scope key s = (Inr (pg_answers s (scope, key_str key)), s)" if "key_wf key"
    for m scope key s
  proof -
    have "idempotency_from_row row = Inr (record_of_row row)" if "ik_key row = key_str key" for row
      using \<open>key_wf key\<close> that by (intro idempotency_from_row_wf) simp
    moreover have "ik_key row = key_str key"
      if "find (\<lambda>row. ik_scope row = scope \<and> ik_key row = key_str key) (t_idempotency s) = Some row" for row
      using that by (auto simp: find_Some_iff)
    ultimately show ?thesis
      by (auto simp: pg_calls_def pg_ports_def pg_find_idempotency_def pg_answers_def on_pool_def tx_bind_def tx_err_def
          split: option.splits)
  qed
  show "s' = s" if "pt_commit (?P m) c s = (Inl e, s')" for m c s e s'
    using that unfolding commit by (rule pg_commit_error)
  show "s' = s \<and> pg_answers s (record_key (jc_idempotency c)) \<noteq> None"
    if "pt_commit (?P m) c s = (Inr DuplicateIdempotencyKey, s')" for m c s s'
    using pg_commit_answers [OF that [unfolded commit]] by simp
  show "pg_answers s (record_key (jc_idempotency c)) = None
      \<and> (\<exists>at. pg_answers s'
            = (pg_answers s)(record_key (jc_idempotency c) \<mapsto> (jc_idempotency c)\<lparr>ir_created_at := at\<rparr>))"
    if "pt_commit (?P m) c s = (Inr Committed, s')" for m c s s'
    using pg_commit_answers [OF that [unfolded commit]] by (auto simp: pg_answers_stored)
qed

section \<open>Retries\<close>

lemma pg_stored_replays:
  assumes "key_wf (cm_idempotency_key (command_meta cmd))" and "codec_roundtrip cx" and "skips_meta (cx_ser_command cx)"
    and "cm_idempotency_key m = cm_idempotency_key (command_meta cmd)"
    and "fingerprint (cx_hash cx) (cx_ser_command cx) cmd = Inr hash"
    and "IdempotencyRecord_new at (cx_ser_posted cx) (command_scope cmd)
         (cm_idempotency_key (command_meta cmd)) hash v = Inr r"
    and "pg_answers db (command_scope cmd, key_str (cm_idempotency_key (command_meta cmd))) = Some r"
  shows "exec_at (pg_calls env collate ns (\<lambda>_. no_faults) srs topic nows) j
      (post_entry cx dr (with_meta m cmd) build) db
    = (Inr (outcome_replayed v), db)"
proof -
  have "replay (cx_de_posted cx) r hash = Inr v"
    using assms(2,6) by (intro replay_new(1)) (auto simp: codec_roundtrip_def)
  moreover have "fingerprint (cx_hash cx) (cx_ser_command cx) (with_meta m cmd) = Inr hash"
    using assms(5) fingerprint_with_meta [OF assms(3)] by simp
  ultimately show ?thesis
    using pg_store.post_again [of "with_meta m cmd" cx hash db r env collate ns srs topic nows j dr build]
      assms(1,4,7) by simp
qed

text \<open>
  C15. A lost answer is recovered by a retry.  Run a posting command over PostgreSQL with any faults
  in any of its port calls, each under a plan of its own.  If it answers with an error, either the tables are as before
  or the entry was committed and only the answer was lost; then an undisturbed retry of the
  same business request with the same key, at any later time and with fresh tracing ids,
  returns the response of the committed entry, marked as replayed, and commits nothing more.
\<close>

theorem pg_lost_answer_recovered:
  assumes "exec_at (pg_calls env collate ns fts srs topic nows) 0 (post_entry cx dr cmd build) db = (Inl e, db')"
    and "db' \<noteq> db" and "key_wf (cm_idempotency_key (command_meta cmd))"
    and "codec_roundtrip cx" and "skips_meta (cx_ser_command cx)"
    and "cm_idempotency_key m = cm_idempotency_key (command_meta cmd)"
  shows "\<exists>entry extra. build = Inr (entry, extra)
    \<and> exec_at (pg_calls env collate ns (\<lambda>_. no_faults) srs' topic nows') 0
          (post_entry cx dr' (with_meta m cmd) build') db'
        = (Inr (outcome_replayed (entry_response entry)), db')"
proof -
  obtain hash entry extra r j out where h: "fingerprint (cx_hash cx) (cx_ser_command cx) cmd = Inr hash"
      and build: "build = Inr (entry, extra)"
      and r: "IdempotencyRecord_new (dr_record_now dr) (cx_ser_posted cx) (command_scope cmd)
          (cm_idempotency_key (command_meta cmd)) hash (entry_response entry) = Inr r"
      and c: "pg_commit env (fts j) (srs j) topic (nows j)
          \<lparr>jc_entry = entry, jc_events = entry_events cx dr entry extra, jc_idempotency = r\<rparr> db = (out, db')"
    using pg_reads.post_entry_commits [OF assms(1)] assms(2) by (auto simp: pg_calls_def pg_ports_def)
  let ?c = "\<lparr>jc_entry = entry, jc_events = entry_events cx dr entry extra, jc_idempotency = r\<rparr>"
  let ?r = "r\<lparr>ir_created_at := timestamptz (ir_created_at r)\<rparr>"
  obtain outcome where "pg_commit env no_faults (srs j) topic (nows j) ?c db = (Inr outcome, db')"
    using pg_commit_effect [OF c assms(2)] by blast
  from pg_commit_answers [OF this] assms(2)
  have "pg_answers db' (record_key r) = Some ?r"
    using pg_answers_stored by auto
  then have "pg_answers db' (command_scope cmd, key_str (cm_idempotency_key (command_meta cmd))) = Some ?r"
    using pg_store.record_new_key [OF r] by simp
  then have "exec_at (pg_calls env collate ns (\<lambda>_. no_faults) srs' topic nows') 0
      (post_entry cx dr' (with_meta m cmd) build') db' = (Inr (outcome_replayed (entry_response entry)), db')"
    by (rule pg_stored_replays [OF assms(3-6) h pg_store.record_new_at [OF r]])
  with build show ?thesis
    by simp
qed

text \<open>The third port call of the command, its commit, loses its answer.\<close>

definition ex_lost_calls :: "nat \<Rightarrow> Db ports" where
  "ex_lost_calls = pg_calls ex_env id of_int ((\<lambda>_. no_faults)(2 := ex_lost)) (\<lambda>_. ex_serials) ''ledger'' (\<lambda>_. 60)"

definition ex_lost_run :: "(LedgerError + EntryPosted Outcome) \<times> Db" where
  "ex_lost_run = exec_at ex_lost_calls 0
     (record_deposit ex_codec (ex_draws 40) (ex_deposit 7 100)) ex_db0"

theorem pg_lost_answer_recovered_witness:
  "fst ex_lost_run = Inl (Storage ''database error: sqlx'') \<and> snd ex_lost_run \<noteq> ex_db0
   \<and> exec_at (pg_calls ex_env id of_int (\<lambda>_. no_faults) (\<lambda>_. ex_serials) ''ledger'' (\<lambda>_. 99)) 0
       (record_deposit ex_codec (ex_draws 80) (ex_deposit 8 100)) (snd ex_lost_run)
     = (Inr (outcome_replayed ex_response), snd ex_lost_run)"
proof -
  have lost: "fst ex_lost_run = Inl (Storage ''database error: sqlx'')"
    by code_simp
  have "t_entries ex_db0 = []" "t_entries (snd ex_lost_run) \<noteq> []"
    by code_simp+
  then have changed: "snd ex_lost_run \<noteq> ex_db0"
    by metis
  have run: "exec_at ex_lost_calls 0
      (post_entry ex_codec (ex_draws 40) (RecordDeposit (ex_deposit 7 100))
        (build_deposit (ex_draws 40) (ex_deposit 7 100))) ex_db0
      = (Inl (Storage ''database error: sqlx''), snd ex_lost_run)"
    using lost by (simp add: ex_lost_run_def record_deposit_def prod_eq_iff)
  have wf: "key_wf (cm_idempotency_key (command_meta (RecordDeposit (ex_deposit 7 100))))"
    by code_simp
  have same: "cm_idempotency_key (ex_meta 8) = cm_idempotency_key (command_meta (RecordDeposit (ex_deposit 7 100)))"
    "with_meta (ex_meta 8) (RecordDeposit (ex_deposit 7 100)) = RecordDeposit (ex_deposit 8 100)"
    by (simp_all add: ex_deposit_def ex_meta_def)
  obtain entry extra where e: "build_deposit (ex_draws 40) (ex_deposit 7 100) = Inr (entry, extra)"
      "exec_at (pg_calls ex_env id of_int (\<lambda>_. no_faults) (\<lambda>_. ex_serials) ''ledger'' (\<lambda>_. 99)) 0
         (post_entry ex_codec (ex_draws 80) (RecordDeposit (ex_deposit 8 100))
           (build_deposit (ex_draws 80) (ex_deposit 8 100))) (snd ex_lost_run)
       = (Inr (outcome_replayed (entry_response entry)), snd ex_lost_run)"
    using pg_lost_answer_recovered [OF run [unfolded ex_lost_calls_def] changed wf ex_codec_roundtrip ex_codec_skips_meta same(1),
        of "\<lambda>_. ex_serials" "\<lambda>_. 99" "ex_draws 80" "build_deposit (ex_draws 80) (ex_deposit 8 100)"] same(2) by auto
  have "map_sum id (entry_response \<circ> fst) (build_deposit (ex_draws 40) (ex_deposit 7 100)) = Inr ex_response"
    by code_simp
  with e lost changed show ?thesis
    by (simp add: record_deposit_def)
qed

end
