(* ===== verification/Event_Bus.thy ===== *)
theory Event_Bus
  imports Postgres Projector
begin

text \<open>
  \<open>crates/event-bus\<close>: configuration and errors, the backoff, the Kafka publisher and consumer, and
  the outbox relay.

  The broker is a log of records.  A send is answered by the client library, which is outside the
  sources: \<open>faults\<close> says which sends fail, \<open>Failed\<close> before the record reached the log and \<open>Lost\<close> after.
  The JSON codec of events is a pair of arguments, as in \<open>event_to_bytes\<close>.  The outbox of the relay
  and the handler of the consumer are functions on a state \<open>'s\<close>.

  Metrics, logging and sleeping are left out.
\<close>

section \<open>Errors and configuration\<close>

datatype BusError = Config string | Publish string | Consume string | Encode string

fun display_bus_error :: "BusError \<Rightarrow> string" where
  "display_bus_error (Config e) = ''invalid configuration: '' @ e"
| "display_bus_error (Publish e) = ''publish failed: '' @ e"
| "display_bus_error (Consume e) = ''consume failed: '' @ e"
| "display_bus_error (Encode e) = ''encode failed: '' @ e"

fun display_projector_error :: "ProjectorError \<Rightarrow> string" where
  "display_projector_error (ProjDomain e) = display_domain_error e"
| "display_projector_error (ProjStore e) = ''projection store failure: '' @ e"
| "display_projector_error (MalformedEvent e) = ''malformed event: '' @ e"
| "display_projector_error (UnknownAccount account_id event_id) =
     ''unknown account '' @ [CHR 0x27] @ account_id @ [CHR 0x27] @ '' referenced by event '' @ event_id"

record BusConfig =
  bc_brokers :: string
  bc_ledger_topic :: string
  bc_dead_letter_topic :: string
  bc_consumer_group :: string

text \<open>\<open>env\<close> is \<open>std::env::var\<close> with its error dropped.\<close>

definition BusConfig_from_env :: "(string \<Rightarrow> string option) \<Rightarrow> BusError + BusConfig" where
  "BusConfig_from_env env =
     (let var = (\<lambda>n d. case env n of None \<Rightarrow> d | Some v \<Rightarrow> v)
      in Inr \<lparr>bc_brokers = var ''KAFKA_BROKERS'' ''127.0.0.1:19092'',
              bc_ledger_topic = var ''KAFKA_TOPIC_LEDGER_EVENTS'' ''ledger.events'',
              bc_dead_letter_topic = var ''KAFKA_TOPIC_DEAD_LETTER'' ''ledger.events.dlq'',
              bc_consumer_group = var ''KAFKA_CONSUMER_GROUP'' ''ironledger''\<rparr>)"

section \<open>Backoff\<close>

text \<open>\<open>std::time::Duration\<close>: whole seconds and the nanoseconds below a second.\<close>

record Duration =
  du_secs :: u64
  du_nanos :: u32

definition as_secs :: "Duration \<Rightarrow> u64" where
  "as_secs d = du_secs d"

definition as_millis :: "Duration \<Rightarrow> nat" where
  "as_millis d = unat (du_secs d) * 1000 + unat (du_nanos d div 1000000)"

definition from_millis :: "u64 \<Rightarrow> Duration" where
  "from_millis m = \<lparr>du_secs = m div 1000, du_nanos = ucast (m mod 1000) * 1000000\<rparr>"

text \<open>The \<open>u32\<close> and \<open>u128\<close> arithmetic of \<open>backoff_delay\<close> saturates.\<close>

definition saturate :: "nat \<Rightarrow> nat \<Rightarrow> nat" where
  "saturate width n = min n (2 ^ width - 1)"

definition backoff_delay :: "u32 \<Rightarrow> Duration \<Rightarrow> Duration \<Rightarrow> Duration" where
  "backoff_delay attempt base max_delay =
     (let e = saturate 32 (2 ^ min (unat attempt) 12);
          millis = saturate 128 (as_millis base * e);
          capped = min millis (as_millis max_delay);
          jitter = saturate 128 (unat attempt mod 7 * 13);
          total = saturate 128 (capped + jitter)
      in from_millis (if total < 2 ^ 64 then of_nat total else as_secs max_delay))"

section \<open>The broker and the publisher\<close>

record Message =
  ms_topic :: string
  ms_key :: string
  ms_payload :: string

record Broker =
  bk_log :: "Message list"
  bk_sends :: nat

definition publish_bytes :: "faults \<Rightarrow> string \<Rightarrow> string \<Rightarrow> string \<Rightarrow> Broker \<Rightarrow> (BusError + unit) \<times> Broker" where
  "publish_bytes ft topic key payload b =
     (let m = \<lparr>ms_topic = topic, ms_key = key, ms_payload = payload\<rparr>;
          b1 = b\<lparr>bk_sends := Suc (bk_sends b)\<rparr>;
          b2 = b1\<lparr>bk_log := bk_log b1 @ [m]\<rparr>
      in case ft (bk_sends b) of
           None \<Rightarrow> (Inr (), b2)
         | Some (Failed e) \<Rightarrow> (Inl (Publish e), b1)
         | Some (Lost e) \<Rightarrow> (Inl (Publish e), b2))"

definition publish ::
    "(LedgerEvent \<Rightarrow> string + string) \<Rightarrow> faults \<Rightarrow> string \<Rightarrow> string \<Rightarrow> LedgerEvent \<Rightarrow> Broker
      \<Rightarrow> (BusError + unit) \<times> Broker" where
  "publish to_vec ft topic key event b =
     (case event_to_bytes to_vec event of
        Inl err \<Rightarrow> (Inl (Encode (display_domain_error err)), b)
      | Inr payload \<Rightarrow> publish_bytes ft topic key payload b)"

section \<open>The outbox relay\<close>

record 's outbox_ports =
  op_claim :: "u32 \<Rightarrow> Duration \<Rightarrow> 's \<Rightarrow> (LedgerError + OutboxMessage list) \<times> 's"
  op_mark_published :: "i64 list \<Rightarrow> 's \<Rightarrow> (LedgerError + u64) \<times> 's"
  op_mark_failed :: "i64 \<Rightarrow> string \<Rightarrow> 's \<Rightarrow> (LedgerError + unit) \<times> 's"

text \<open>The \<open>for\<close> loop of \<open>tick\<close>; the answer of \<open>mark_failed\<close> is ignored.\<close>

fun publish_loop ::
    "(LedgerEvent \<Rightarrow> string + string) \<Rightarrow> 's outbox_ports \<Rightarrow> faults \<Rightarrow> string \<Rightarrow> OutboxMessage list
      \<Rightarrow> 's \<Rightarrow> Broker \<Rightarrow> i64 list \<times> 's \<times> Broker" where
  "publish_loop to_vec R ft topic [] s b = ([], s, b)"
| "publish_loop to_vec R ft topic (message # messages) s b =
     (case publish to_vec ft topic (om_partition_key message) (om_event message) b of
        (Inr _, b') \<Rightarrow>
          (case publish_loop to_vec R ft topic messages s b' of
             (published_ids, r) \<Rightarrow> (om_id message # published_ids, r))
      | (Inl err, b') \<Rightarrow>
          publish_loop to_vec R ft topic messages
            (snd (op_mark_failed R (om_id message) (display_bus_error err) s)) b')"

definition tick ::
    "(LedgerEvent \<Rightarrow> string + string) \<Rightarrow> 's outbox_ports \<Rightarrow> faults \<Rightarrow> string \<Rightarrow> u32 \<Rightarrow> Duration
      \<Rightarrow> 's \<Rightarrow> Broker \<Rightarrow> (BusError + u64) \<times> 's \<times> Broker" where
  "tick to_vec R ft topic batch_size lease s b =
     (case op_claim R batch_size lease s of
        (Inl err, s1) \<Rightarrow> (Inl (Publish (display_ledger_error err)), s1, b)
      | (Inr messages, s1) \<Rightarrow>
          if messages = [] then (Inr 0, s1, b)
          else
            (case publish_loop to_vec R ft topic messages s1 b of
               (published_ids, s2, b2) \<Rightarrow>
                 if published_ids = [] then (Inr 0, s2, b2)
                 else
                   (case op_mark_published R published_ids s2 of
                      (r, s3) \<Rightarrow> (map_err (\<lambda>err. Publish (display_ledger_error err)) r, s3, b2))))"

text \<open>
  \<open>run\<close>: ticks until the relay is cancelled; the list holds the outbox, the broker and the clock of
  each tick.  Its answer only decides how long the relay sleeps.
\<close>

fun relay_run ::
    "(LedgerEvent \<Rightarrow> string + string) \<Rightarrow> string \<Rightarrow> u32 \<Rightarrow> Duration \<Rightarrow> ('s outbox_ports \<times> faults) list
      \<Rightarrow> 's \<Rightarrow> Broker \<Rightarrow> 's \<times> Broker" where
  "relay_run to_vec topic batch_size lease [] s b = (s, b)"
| "relay_run to_vec topic batch_size lease ((R, ft) # ticks) s b =
     (case tick to_vec R ft topic batch_size lease s b of
        (_, s', b') \<Rightarrow> relay_run to_vec topic batch_size lease ticks s' b')"

section \<open>The consumer\<close>

definition send_dlq ::
    "(LedgerEvent \<Rightarrow> string + string) \<Rightarrow> faults \<Rightarrow> string \<Rightarrow> LedgerEvent \<Rightarrow> Broker \<Rightarrow> (BusError + unit) \<times> Broker" where
  "send_dlq to_vec ft dlq event b =
     (case event_to_bytes to_vec event of
        Inl err \<Rightarrow> (Inl (Encode (display_domain_error err)), b)
      | Inr payload \<Rightarrow> publish_bytes ft dlq (ev_aggregate_id event) payload b)"

text \<open>
  The loop \<open>for attempt in 0..6\<close>; the result says whether the event was handled.  The branch that
  tests for attempt five inside the arm for attempts below five never sends.
\<close>

function handle_attempts ::
    "(LedgerEvent \<Rightarrow> 's \<Rightarrow> (BusError + unit) \<times> 's) \<Rightarrow> (LedgerEvent \<Rightarrow> string + string) \<Rightarrow> faults \<Rightarrow> string
      \<Rightarrow> LedgerEvent \<Rightarrow> nat \<Rightarrow> 's \<Rightarrow> Broker \<Rightarrow> (BusError + bool) \<times> 's \<times> Broker" where
  "handle_attempts handler to_vec ft dlq event attempt s b =
     (if attempt \<ge> 6 then (Inr False, s, b)
      else
        (case handler event s of
           (Inr _, s') \<Rightarrow> (Inr True, s', b)
         | (Inl err, s') \<Rightarrow>
             if attempt < 5 then
               (if attempt = 5 then
                  (case send_dlq to_vec ft dlq event b of
                     (Inl e, b') \<Rightarrow> (Inl e, s', b')
                   | (Inr _, b') \<Rightarrow> handle_attempts handler to_vec ft dlq event (Suc attempt) s' b')
                else handle_attempts handler to_vec ft dlq event (Suc attempt) s' b)
             else
               (case send_dlq to_vec ft dlq event b of
                  (Inl e, b') \<Rightarrow> (Inl e, s', b')
                | (Inr _, b') \<Rightarrow> (Inr False, s', b'))))"
  by pat_completeness auto
termination
  by (relation "measure (\<lambda>(_, _, _, _, _, attempt, _, _). 6 - attempt)") auto

declare handle_attempts.simps [simp del]

text \<open>
  A received message carries an optional payload and its offset; \<open>rv_store_error\<close> is the error with
  which the client library would answer a call of \<open>store_offset_from_message\<close> for it, if any.
  \<open>cn_stores\<close> are these calls with their answers; \<open>stored_offsets\<close> are the offsets that were stored.
\<close>

record Received =
  rv_payload :: "string option"
  rv_offset :: i64
  rv_store_error :: "string option"

record 's Consumer =
  cn_app :: 's
  cn_broker :: Broker
  cn_stores :: "(i64 \<times> string option) list"

definition stored_offsets :: "'s Consumer \<Rightarrow> i64 list" where
  "stored_offsets c = map fst (filter (\<lambda>(_, err). err = None) (cn_stores c))"

definition consume_message ::
    "(LedgerEvent \<Rightarrow> 's \<Rightarrow> (BusError + unit) \<times> 's) \<Rightarrow> (LedgerEvent \<Rightarrow> string + string)
      \<Rightarrow> (string \<Rightarrow> string + LedgerEvent) \<Rightarrow> faults \<Rightarrow> string \<Rightarrow> Received \<Rightarrow> 's Consumer
      \<Rightarrow> (BusError + unit) \<times> 's Consumer" where
  "consume_message handler to_vec from_slice ft dlq message c =
     (let payload = (case rv_payload message of None \<Rightarrow> [] | Some p \<Rightarrow> p)
      in case event_from_bytes from_slice payload of
           Inl _ \<Rightarrow> (Inr (), c)
         | Inr event \<Rightarrow>
             (case handle_attempts handler to_vec ft dlq event 0 (cn_app c) (cn_broker c) of
                (Inl e, s', b') \<Rightarrow> (Inl e, c\<lparr>cn_app := s', cn_broker := b'\<rparr>)
              | (Inr handled, s', b') \<Rightarrow>
                  (Inr (), c\<lparr>cn_app := s', cn_broker := b',
                     cn_stores := (if handled then cn_stores c @ [(rv_offset message, rv_store_error message)]
                                   else cn_stores c)\<rparr>)))"

text \<open>\<open>run\<close> over what \<open>recv\<close> returns until the consumer is cancelled; an error ends the run.\<close>

fun consumer_run ::
    "(LedgerEvent \<Rightarrow> 's \<Rightarrow> (BusError + unit) \<times> 's) \<Rightarrow> (LedgerEvent \<Rightarrow> string + string)
      \<Rightarrow> (string \<Rightarrow> string + LedgerEvent) \<Rightarrow> faults \<Rightarrow> string \<Rightarrow> (string + Received) list \<Rightarrow> 's Consumer
      \<Rightarrow> (BusError + unit) \<times> 's Consumer" where
  "consumer_run handler to_vec from_slice ft dlq [] c = (Inr (), c)"
| "consumer_run handler to_vec from_slice ft dlq (r # rs) c =
     (case r of
        Inl err \<Rightarrow> (Inl (Consume err), c)
      | Inr message \<Rightarrow>
          (case consume_message handler to_vec from_slice ft dlq message c of
             (Inl e, c') \<Rightarrow> (Inl e, c')
           | (Inr _, c') \<Rightarrow> consumer_run handler to_vec from_slice ft dlq rs c'))"

text \<open>The handler of \<open>services/projector-service\<close>.\<close>

definition projector_handler ::
    "'s projection_ports \<Rightarrow> string \<Rightarrow> LedgerEvent \<Rightarrow> 's \<Rightarrow> (BusError + unit) \<times> 's" where
  "projector_handler P consumer event s =
     (case project_event P consumer event s of
        (Inl err, s') \<Rightarrow> (Inl (Consume (display_projector_error err)), s')
      | (Inr _, s') \<Rightarrow> (Inr (), s'))"

section \<open>The outboxes of the two stores\<close>

text \<open>
  \<open>from_std\<close> is \<open>chrono::Duration::from_std\<close>; the claim and the later marks of a tick read the clock
  separately.  Over PostgreSQL every call of a tick has a fault plan of its own: the claim, the
  mark of the published messages, and the mark of each message whose send failed.
\<close>

record relay_faults =
  rl_claim :: faults
  rl_published :: faults
  rl_failed :: "i64 \<Rightarrow> faults"

definition no_relay_faults :: relay_faults where
  "no_relay_faults = \<lparr>rl_claim = no_faults, rl_published = no_faults, rl_failed = (\<lambda>_. no_faults)\<rparr>"

definition mem_outbox :: "(Duration \<Rightarrow> string + int) \<Rightarrow> datetime \<Rightarrow> datetime \<Rightarrow> State outbox_ports" where
  "mem_outbox from_std now now' =
     \<lparr>op_claim = claim from_std now,
      op_mark_published = (\<lambda>ids st. case mark_published now' ids st of (n, st') \<Rightarrow> (Inr n, st')),
      op_mark_failed = (\<lambda>i err st. (Inr (), mark_failed i err st))\<rparr>"

definition pg_outbox ::
    "pg_env \<Rightarrow> relay_faults \<Rightarrow> (i64 \<Rightarrow> bool) \<Rightarrow> datetime \<Rightarrow> datetime \<Rightarrow> Db outbox_ports" where
  "pg_outbox env ft locked now now' =
     \<lparr>op_claim = (\<lambda>limit lease. pg_claim env (rl_claim ft) now locked limit (as_secs lease)),
      op_mark_published = pg_mark_published env (rl_published ft) now',
      op_mark_failed = (\<lambda>i. pg_mark_failed env (rl_failed ft i) i)\<rparr>"

end
