(* ===== verification/Postgres_Replay.thy ===== *)
theory Postgres_Replay
  imports Postgres_Props Projector_Props
begin

text \<open>
  The projector over the PostgreSQL projection store: the adapter keeps the contract
  \<open>projection_store\<close>, its deliveries count once under any failures, and a replay of the outbox
  rebuilds the balance table.
\<close>

section \<open>Projecting one posting\<close>

definition pg_proj_bal :: "string \<Rightarrow> Db \<Rightarrow> AccountId \<times> AssetCode \<Rightarrow> int" where
  "pg_proj_bal consumer db k =
     (case find (at_projection consumer (account_uuid (fst k)) (code_str (snd k))) (t_projection db) of
        None \<Rightarrow> 0
      | Some row \<Rightarrow> column_value (pv_amount_atomic row))"

definition decodes :: "string \<Rightarrow> Db \<Rightarrow> AccountId \<times> AssetCode \<Rightarrow> bool" where
  "decodes consumer db k \<longleftrightarrow>
     (case find (at_projection consumer (account_uuid (fst k)) (code_str (snd k))) (t_projection db) of
        None \<Rightarrow> True
      | Some row \<Rightarrow> parse_i128 (pv_amount_atomic row) \<noteq> None)"

definition project_step :: "pg_env \<Rightarrow> datetime \<Rightarrow> string \<Rightarrow> Posting \<Rightarrow> Db \<Rightarrow> ProjectorError + Db" where
  "project_step env now consumer p db =
     (let uid = account_uuid (p_account_id p); asset = code_str (p_asset p);
          row = find (at_projection consumer uid asset) (t_projection db)
      in and_then (case row of None \<Rightarrow> Inr ZERO
             | Some row \<Rightarrow> map_err (projector_of_storage env) (column_amount (pv_amount_atomic row))) (\<lambda>current.
         and_then (map_err ProjDomain (checked_add current (p_amount p))) (\<lambda>updated.
           Inr (if row \<noteq> None then update_projection consumer uid asset (amount_to_str updated) now db
                else insert_projection consumer uid asset (amount_to_str updated) now db))))"

lemma find_updated:
  "find (at_projection c u' a') (map (\<lambda>row. if at_projection c u a row then row\<lparr>pv_amount_atomic := v, pv_updated_at := now\<rparr> else row) rows)
   = map_option (\<lambda>row. if u' = u \<and> a' = a then row\<lparr>pv_amount_atomic := v, pv_updated_at := now\<rparr> else row)
       (find (at_projection c u' a') rows)"
  by (induction rows) (auto simp: at_projection_def)

lemma find_inserted:
  "find (at_projection c u' a') (rows @ [\<lparr>pv_consumer = c, pv_account_id = u, pv_asset = a, pv_amount_atomic = v, pv_updated_at = now\<rparr>])
   = (case find (at_projection c u' a') rows of
        None \<Rightarrow> if u' = u \<and> a' = a then Some \<lparr>pv_consumer = c, pv_account_id = u, pv_asset = a, pv_amount_atomic = v, pv_updated_at = now\<rparr> else None
      | Some row \<Rightarrow> Some row)"
  by (induction rows) (auto simp: at_projection_def)

lemma parse_amount_text [simp]: "parse_i128 (amount_to_str v) = Some (raw v)"
  by (simp add: amount_to_str_def)

text \<open>What the row of a key reads after a step.\<close>

lemma project_step_rows:
  assumes "project_step env now consumer p db = Inr db'"
  obtains v where "amt v = pg_proj_bal consumer db (p_key p) + p_delta p" "decodes consumer db (p_key p)"
    "\<And>k. pg_proj_bal consumer db' k = (if p_key p = k then amt v else pg_proj_bal consumer db k)"
    "\<And>k. decodes consumer db' k = decodes consumer db k"
    "db' = db\<lparr>t_projection := t_projection db'\<rparr>"
proof -
  let ?u = "account_uuid (p_account_id p)" and ?a = "code_str (p_asset p)"
  have key: "p_key p = k \<longleftrightarrow> account_uuid (fst k) = ?u \<and> code_str (snd k) = ?a" for k
    by (cases k) (auto simp: AccountId.expand AssetCode.expand)
  show thesis
  proof (cases "find (at_projection consumer ?u ?a) (t_projection db)")
    case None
    then obtain v where v: "checked_add ZERO (p_amount p) = Inr v"
        "db' = insert_projection consumer ?u ?a (amount_to_str v) now db"
      using assms by (auto simp: project_step_def Let_def result_simps)
    show thesis
      by (rule that [of v])
        (use None v in \<open>auto simp: insert_projection_def find_inserted pg_proj_bal_def decodes_def key amt_simps split: option.splits\<close>)
  next
    case (Some row)
    then obtain c v where v: "column_amount (pv_amount_atomic row) = Inr c" "checked_add c (p_amount p) = Inr v"
        "db' = update_projection consumer ?u ?a (amount_to_str v) now db"
      using assms by (auto simp: project_step_def Let_def result_simps)
    have c: "parse_i128 (pv_amount_atomic row) = Some (raw c)" "column_value (pv_amount_atomic row) = amt c"
      using v(1) by (auto simp: column_amount_def column_value_def split: option.splits)
    show thesis
      by (rule that [of v])
        (use Some v c in \<open>auto simp: update_projection_def find_updated pg_proj_bal_def decodes_def key amt_simps split: option.splits\<close>)
  qed
qed

interpretation pg_proj_fold: gated_posting_fold "project_step env now consumer" "pg_proj_bal consumer" p_key p_delta
  "\<lambda>db p v. decodes consumer db (p_key p) \<and> in_i128 v" for env now consumer
proof
  fix p s s' k
  assume step: "project_step env now consumer p s = Inr s'"
  show "pg_proj_bal consumer s' k = pg_proj_bal consumer s k + (if p_key p = k then p_delta p else 0)"
    by (rule project_step_rows [OF step]) simp
  show "(\<lambda>p v. decodes consumer s' (p_key p) \<and> in_i128 v) = (\<lambda>p v. decodes consumer s (p_key p) \<and> in_i128 v)"
    by (rule project_step_rows [OF step]) simp
next
  fix p s
  show "(\<exists>s'. project_step env now consumer p s = Inr s')
      \<longleftrightarrow> decodes consumer s (p_key p) \<and> in_i128 (pg_proj_bal consumer s (p_key p) + p_delta p)"
  proof (cases "find (at_projection consumer (account_uuid (p_account_id p)) (code_str (p_asset p))) (t_projection s)")
    case None
    then show ?thesis
      by (cases ZERO "p_amount p" rule: checked_add_cases)
        (auto simp: project_step_def Let_def decodes_def pg_proj_bal_def)
  next
    case (Some row)
    show ?thesis
    proof (cases "parse_i128 (pv_amount_atomic row)")
      case (Some c)
      then show ?thesis
        using \<open>find _ _ = Some row\<close>
        by (cases "AtomicAmount c" "p_amount p" rule: checked_add_cases)
          (auto simp: project_step_def Let_def decodes_def pg_proj_bal_def column_amount_def column_value_def)
    qed (use Some in \<open>simp add: project_step_def Let_def decodes_def column_amount_def\<close>)
  qed
qed

lemma pg_project_postings_run:
  "case try_fold (project_step env now consumer) ps db of
     Inl e \<Rightarrow> \<exists>s'. pg_project_postings env no_faults now consumer ps (db, n) = (Inl e, s')
   | Inr db' \<Rightarrow> \<exists>n'. pg_project_postings env no_faults now consumer ps (db, n) = (Inr (), db', n')"
proof (induction ps arbitrary: db n)
  case (Cons p ps)
  have step: "pg_project_posting env no_faults now consumer p (db, n)
      = (case project_step env now consumer p db of Inl e \<Rightarrow> (Inl e, db, Suc n) | Inr db' \<Rightarrow> (Inr (), db', Suc (Suc n)))"
    by (auto simp: pg_project_posting_def project_step_def Let_def tx_bind_def tx_err_def split: option.splits sum.splits)
  show ?case
  proof (cases "project_step env now consumer p db")
    case (Inr db')
    then show ?thesis
      using step Cons.IH [of db' "Suc (Suc n)"] by (auto split: sum.splits)
  qed (use step in simp)
qed simp

lemma project_fold_frame:
  "try_fold (project_step env now consumer) ps db = Inr db' \<Longrightarrow> db' = db\<lparr>t_projection := t_projection db'\<rparr>"
proof (induction ps arbitrary: db)
  case (Cons p ps)
  then obtain db1 where db1: "project_step env now consumer p db = Inr db1"
      "try_fold (project_step env now consumer) ps db1 = Inr db'"
    by (auto simp: result_simps)
  have "db1 = db\<lparr>t_projection := t_projection db1\<rparr>"
    by (rule project_step_rows [OF db1(1)])
  with Cons.IH [OF db1(2)] show ?case
    by (metis Db.surjective Db.update_convs(9))
qed simp

lemma project_fold_decodes:
  assumes "try_fold (project_step env now consumer) ps db = Inr db'"
  shows "decodes consumer db' k = decodes consumer db k"
proof (rule try_fold_invariant [OF assms, where I = "\<lambda>s. decodes consumer s k = decodes consumer db k"])
  fix p s s'
  assume step: "project_step env now consumer p s = Inr s'" and same: "decodes consumer s k = decodes consumer db k"
  show "decodes consumer s' k = decodes consumer db k"
    by (rule project_step_rows [OF step]) (simp add: same)
qed simp

section \<open>The store keeps the contract of the projector\<close>

definition pg_seen :: "string \<Rightarrow> Db \<Rightarrow> uuid set" where
  "pg_seen consumer db = {u. list_ex (\<lambda>row. pr_consumer row = consumer \<and> pr_event_id row = u) (t_processed db)}"

definition pg_log :: "pg_env \<Rightarrow> Db \<Rightarrow> SourcedEvent list" where
  "pg_log env db = map (projr \<circ> sourced_from_row env) (sort_key (\<lambda>row. sint (ob_id row)) (t_outbox db))"

definition pg_good :: "pg_env \<Rightarrow> string \<Rightarrow> Db \<Rightarrow> bool" where
  "pg_good env consumer db \<longleftrightarrow>
     (\<forall>k. decodes consumer db k) \<and> (\<forall>row \<in> set (t_outbox db). \<exists>e. sourced_from_row env row = Inr e)"

lemma proj_cong:
  assumes "t_projection db = t_projection db'"
  shows "pg_proj_bal consumer db = pg_proj_bal consumer db'" "decodes consumer db = decodes consumer db'"
  using assms by (auto simp: pg_proj_bal_def decodes_def fun_eq_iff)

lemma pg_apply_cases:
  obtains (seen) "event_uuid i \<in> pg_seen consumer db"
      "pg_apply_journal env no_faults now consumer i e db = (Inr Duplicate, db)"
    | (new) db' where "event_uuid i \<notin> pg_seen consumer db"
      "pg_apply_journal env no_faults now consumer i e db = (Inr Applied, db')"
      "pg_seen consumer db' = insert (event_uuid i) (pg_seen consumer db)"
      "\<And>k. pg_proj_bal consumer db' k = pg_proj_bal consumer db k + account_delta k (je_postings e)"
      "\<And>k. decodes consumer db' k = decodes consumer db k"
      "db' = db\<lparr>t_processed := t_processed db', t_projection := t_projection db'\<rparr>"
    | (failed) err where "event_uuid i \<notin> pg_seen consumer db"
      "pg_apply_journal env no_faults now consumer i e db = (Inl err, db)"
      "\<not> running (\<lambda>p v. decodes consumer db (p_key p) \<and> in_i128 v) p_key p_delta (pg_proj_bal consumer db) (je_postings e)"
proof (cases "event_uuid i \<in> pg_seen consumer db")
  case True
  then have "list_ex (\<lambda>row. pr_consumer row = consumer \<and> pr_event_id row = event_uuid i) (t_processed db)"
    by (simp add: pg_seen_def)
  with True show thesis
    by (intro seen) (simp_all add: pg_apply_journal_def transaction_run tx_bind_def tx_err_def processed_insert_def)
next
  case False
  then have none: "\<not> list_ex (\<lambda>row. pr_consumer row = consumer \<and> pr_event_id row = event_uuid i) (t_processed db)"
    by (simp add: pg_seen_def)
  define db1 where "db1 = db\<lparr>t_processed := t_processed db @
      [\<lparr>pr_consumer = consumer, pr_event_id = event_uuid i, pr_processed_at = timestamptz now\<rparr>]\<rparr>"
  have start: "pg_apply_journal env no_faults now consumer i e db
      = (case pg_project_postings env no_faults now consumer (je_postings e) (db1, Suc (Suc 0)) of
           (Inl err, _) \<Rightarrow> (Inl err, db) | (Inr _, db', _) \<Rightarrow> (Inr Applied, db'))"
    using none
    by (auto simp: pg_apply_journal_def transaction_run tx_bind_def tx_err_def processed_insert_def db1_def
        split: prod.splits sum.splits)
  have db1: "t_projection db1 = t_projection db"
    by (simp add: db1_def)
  show thesis
  proof (cases "try_fold (project_step env now consumer) (je_postings e) db1")
    case (Inl err)
    then have "pg_apply_journal env no_faults now consumer i e db = (Inl err, db)"
      using pg_project_postings_run [of env now consumer "je_postings e" db1 "Suc (Suc 0)"] start by auto
    with False Inl pg_proj_fold.fold_gate [of env now consumer "je_postings e" db1] proj_cong [OF db1] show thesis
      by (intro failed) auto
  next
    case (Inr db')
    then have run: "pg_apply_journal env no_faults now consumer i e db = (Inr Applied, db')"
      using pg_project_postings_run [of env now consumer "je_postings e" db1 "Suc (Suc 0)"] start by auto
    have frame: "db' = db1\<lparr>t_projection := t_projection db'\<rparr>"
      by (rule project_fold_frame [OF Inr])
    then have rows: "t_processed db' = t_processed db1"
      by (metis Db.select_convs(7) Db.surjective Db.update_convs(9))
    show thesis
    proof (rule new [OF False run])
      show "pg_seen consumer db' = insert (event_uuid i) (pg_seen consumer db)"
        by (auto simp: pg_seen_def rows db1_def)
      show "pg_proj_bal consumer db' k = pg_proj_bal consumer db k + account_delta k (je_postings e)" for k
        using pg_proj_fold.fold_bal [OF Inr, of k] proj_cong(1) [OF db1] by simp
      show "decodes consumer db' k = decodes consumer db k" for k
        using project_fold_decodes [OF Inr, of k] proj_cong(2) [OF db1] by simp
      show "db' = db\<lparr>t_processed := t_processed db', t_projection := t_projection db'\<rparr>"
        using frame rows by (simp add: db1_def)
    qed
  qed
qed

lemma collect_Inr: "(\<forall>x \<in> set xs. \<exists>y. f x = Inr y) \<Longrightarrow> collect_results (map f xs) = Inr (map (projr \<circ> f) xs)"
  by (induction xs) auto

lemma pg_fetch_run:
  assumes "\<forall>row \<in> set (t_outbox db). \<exists>e. sourced_from_row env row = Inr e"
  shows "pg_fetch_after env no_faults after limit db
    = Inr (take (unat limit) (filter (\<lambda>e. sint (se_cursor e) > sint after) (pg_log env db)))"
proof -
  let ?s = "sort_key (\<lambda>row. sint (ob_id row))"
  have cursor: "se_cursor (projr (sourced_from_row env row)) = ob_id row" if "row \<in> set (t_outbox db)" for row
  proof -
    show ?thesis
      using assms that
      by (cases "event_from_payload env (ob_event_id row) (ob_payload row) (ob_created_at row)")
        (force simp: sourced_from_row_def)+
  qed
  have "filter (\<lambda>e. sint (se_cursor e) > sint after) (pg_log env db)
      = map (projr \<circ> sourced_from_row env) (filter (\<lambda>row. sint (ob_id row) > sint after) (?s (t_outbox db)))"
    unfolding pg_log_def filter_map by (rule arg_cong [where f = "map _"], rule filter_cong) (auto simp: cursor)
  moreover have "pg_fetch_after env no_faults after limit db
      = Inr (map (projr \<circ> sourced_from_row env)
          (take (unat limit) (?s (filter (\<lambda>row. sint (ob_id row) > sint after) (t_outbox db)))))"
    using assms
    by (simp add: pg_fetch_after_def on_pool_def tx_bind_def tx_err_def)
      (subst collect_Inr, auto dest!: in_set_takeD)
  ultimately show ?thesis
    by (simp add: take_map filter_sort)
qed

interpretation pg_proj: projection_store "pg_projection env no_faults now" consumer "pg_good env consumer"
    "pg_proj_bal consumer" "pg_seen consumer" "pg_log env" for env now consumer
proof
  fix s i out s' r and e :: JournalEntry
  have apply_def: "pp_apply_journal (pg_projection env no_faults now) = pg_apply_journal env no_faults now"
    by (simp add: pg_projection_def)
  note cases = pg_apply_cases [of i consumer s env now e]
  show "pp_apply_journal (pg_projection env no_faults now) consumer i e s = (Inr Duplicate, s)"
    if "event_uuid i \<in> pg_seen consumer s"
    unfolding apply_def by (cases rule: cases) (use that in simp_all)
  show "out = Applied \<and> pg_seen consumer s' = insert (event_uuid i) (pg_seen consumer s)
      \<and> (\<forall>k. pg_proj_bal consumer s' k = pg_proj_bal consumer s k + account_delta k (je_postings e))"
    if "event_uuid i \<notin> pg_seen consumer s"
      "pp_apply_journal (pg_projection env no_faults now) consumer i e s = (Inr out, s')"
    using that unfolding apply_def by (cases rule: cases) simp_all
  show "\<exists>s'. pp_apply_journal (pg_projection env no_faults now) consumer i e s = (Inr Applied, s')"
    if "pg_good env consumer s" "event_uuid i \<notin> pg_seen consumer s"
      "running_ok p_key p_delta (pg_proj_bal consumer s) (je_postings e)"
  proof (cases rule: cases)
    case (failed err)
    then show ?thesis
      using that running_mono [OF that(3), of "\<lambda>p v. decodes consumer s (p_key p) \<and> in_i128 v"]
      by (simp add: pg_good_def)
  qed (use that in \<open>simp_all add: apply_def\<close>)
  show "pg_good env consumer s' \<and> pg_log env s' = pg_log env s"
    if "pg_good env consumer s" "pp_apply_journal (pg_projection env no_faults now) consumer i e s = (r, s')"
  proof (cases rule: cases)
    case (new db')
    then have "t_outbox s' = t_outbox s"
      using that(2) unfolding apply_def
      by (metis Db.select_convs(6) Db.surjective Db.update_convs(7,9) prod.inject)
    then show ?thesis
      using new that unfolding apply_def by (auto simp: pg_good_def pg_log_def)
  qed (use that in \<open>simp_all add: apply_def\<close>)
next
  fix s after limit
  assume "pg_good env consumer s"
  then show "pp_fetch_after (pg_projection env no_faults now) after limit s
      = Inr (take (unat limit) (filter (\<lambda>e. sint (se_cursor e) > sint after) (pg_log env s)))"
    by (simp add: pg_projection_def pg_good_def pg_fetch_run)
qed

section \<open>Deliveries under failures\<close>

definition pg_deliver_all :: "pg_env \<Rightarrow> string \<Rightarrow> (faults \<times> datetime \<times> LedgerEvent) list \<Rightarrow> Db \<Rightarrow> Db" where
  "pg_deliver_all env consumer =
     fold (\<lambda>(ft, now, ev) db. snd (project_event (pg_projection env ft now) consumer ev db))"

lemma no_fault_project_postings:
  "met_no_fault (pg_project_postings env ft now consumer ps) (pg_project_postings env no_faults now consumer ps)"
proof (induction ps)
  case (Cons p ps)
  then show ?case
    unfolding pg_project_postings.simps pg_project_posting_def Let_def by (intro no_fault_intros)
qed (simp add: met_no_fault_def)

text \<open>One delivery, disturbed or not, has no effect or applies a new event completely.\<close>

lemma pg_delivery_cases:
  assumes "db' = snd (project_event (pg_projection env ft now) consumer ev db)"
  obtains (none) "db' = db"
    | (applied) "event_uuid (ev_event_id ev) \<notin> pg_seen consumer db"
      "pg_seen consumer db' = insert (event_uuid (ev_event_id ev)) (pg_seen consumer db)"
      "\<And>k. pg_proj_bal consumer db' k = pg_proj_bal consumer db k + account_delta k (event_postings ev)"
proof (cases rule: project_event_cases [of ev "pg_projection env ft now" consumer db])
  case (journal e)
  obtain r where run: "pg_apply_journal env ft now consumer (ev_event_id ev) e db = (r, db')"
    using assms journal(3) by (cases "pg_apply_journal env ft now consumer (ev_event_id ev) e db")
      (auto simp: pg_projection_def)
  have "db' = db \<or> (\<exists>out. pg_apply_journal env no_faults now consumer (ev_event_id ev) e db = (Inr out, db'))"
    using transaction_atomic [OF _ run [unfolded pg_apply_journal_def]] unfolding pg_apply_journal_def
    by (force intro!: no_fault_intros no_fault_project_postings)
  then show thesis
    by (cases rule: pg_apply_cases [of "ev_event_id ev" consumer db env now e])
      (use none applied journal(2) in auto)
qed (use assms none in simp)

lemma pg_deliveries:
  assumes "inj_on ev_event_id (set (map (snd \<circ> snd) ds))"
    and "pg_seen consumer db = {}" and "pg_proj_bal consumer db = (\<lambda>_. 0)"
    and "db' = pg_deliver_all env consumer ds db"
  shows "pg_seen consumer db' \<subseteq> (event_uuid \<circ> ev_event_id) ` set (map (snd \<circ> snd) ds)
    \<and> pg_proj_bal consumer db' k
      = (\<Sum>ev \<in> {ev \<in> set (map (snd \<circ> snd) ds). event_uuid (ev_event_id ev) \<in> pg_seen consumer db'}.
           account_delta k (event_postings ev))"
  using assms(1,4)
proof (induction ds arbitrary: db' rule: rev_induct)
  case Nil
  then show ?case
    using assms(2,3) by (simp add: pg_deliver_all_def)
next
  case (snoc d ds)
  obtain ft now ev where d: "d = (ft, now, ev)"
    by (cases d)
  let ?evs = "\<lambda>ds. set (map (snd \<circ> snd) ds)" and ?id = "\<lambda>ev. event_uuid (ev_event_id ev)"
  let ?S = "\<lambda>ds db. {ev \<in> ?evs ds. ?id ev \<in> pg_seen consumer db}"
  define db1 where "db1 = pg_deliver_all env consumer ds db"
  have step: "db' = snd (project_event (pg_projection env ft now) consumer ev db1)"
    using snoc.prems(2) by (simp add: pg_deliver_all_def db1_def d)
  have IH: "pg_seen consumer db1 \<subseteq> ?id ` ?evs ds"
      "pg_proj_bal consumer db1 k = (\<Sum>ev \<in> ?S ds db1. account_delta k (event_postings ev))"
    using snoc.IH [OF _ db1_def] snoc.prems(1) by (auto simp: inj_on_def)
  have evs: "?evs (ds @ [d]) = insert ev (?evs ds)"
    by (simp add: d)
  have same: "x = y" if "?id x = ?id y" "x \<in> insert ev (?evs ds)" "y \<in> insert ev (?evs ds)" for x y
    by (rule inj_onD [OF snoc.prems(1), unfolded evs]) (use that EventId.expand in simp_all)
  have old: "ev \<in> ?evs ds" if seen: "?id ev \<in> pg_seen consumer db1"
  proof -
    from seen IH(1) have "?id ev \<in> ?id ` ?evs ds"
      by (rule rev_subsetD)
    then obtain y where y: "y \<in> ?evs ds" "?id ev = ?id y"
      by (rule imageE)
    then have "ev = y"
      by (intro same) simp_all
    with y(1) show ?thesis
      by simp
  qed
  show ?case
    using step
  proof (cases rule: pg_delivery_cases)
    case none
    have "?S (ds @ [d]) db1 = ?S ds db1"
      unfolding evs using old by blast
    with none IH show ?thesis
      unfolding evs by auto
  next
    case applied
    have "x = ev" if "x \<in> ?evs ds" "?id x = ?id ev" for x
      using that by (intro same) simp_all
    then have S: "?S (ds @ [d]) db' = insert ev (?S ds db1)"
      unfolding evs applied(2) by blast
    have new: "ev \<notin> ?S ds db1" "finite (?S ds db1)"
      using applied(1) by simp_all
    have "pg_proj_bal consumer db' k = (\<Sum>ev \<in> ?S (ds @ [d]) db'. account_delta k (event_postings ev))"
      unfolding S sum.insert [OF new(2,1)] using applied(3) [of k] IH(2) by simp
    moreover have "pg_seen consumer db' \<subseteq> (event_uuid \<circ> ev_event_id) ` ?evs (ds @ [d])"
      unfolding evs applied(2) using IH(1) by auto
    ultimately show ?thesis
      by blast
  qed
qed

text \<open>
  C24. Deliveries count once under any failures.  Deliver events to a consumer any number of times and
  in any order, each delivery under its own faults, ignoring the errors: from a fresh
  projection, every balance is at every moment exactly the sum of the postings of the events
  recorded as processed, each counted once.
\<close>

theorem pg_deliveries_exact:
  assumes "inj_on ev_event_id (set (map (snd \<circ> snd) ds))"
    and "pg_seen consumer db = {}" and "pg_proj_bal consumer db = (\<lambda>_. 0)"
    and "db' = pg_deliver_all env consumer ds db"
  shows "pg_proj_bal consumer db' k
      = (\<Sum>ev \<in> {ev \<in> set (map (snd \<circ> snd) ds). event_uuid (ev_event_id ev) \<in> pg_seen consumer db'}.
           account_delta k (event_postings ev))"
  using pg_deliveries [OF assms] by blast

section \<open>Replay\<close>

definition event_codec :: "pg_env \<Rightarrow> bool" where
  "event_codec env \<longleftrightarrow> (\<forall>ev v. pe_to_value env ev = Inr v \<longrightarrow> pe_from_value env v = Inr ev)"

text \<open>An event comes out of the outbox with the time of its row, in microseconds.\<close>

definition stamped :: "LedgerEvent \<Rightarrow> LedgerEvent" where
  "stamped ev = ev\<lparr>ev_created_at := timestamptz (ev_created_at ev)\<rparr>"

lemma stamped_simps [simp]:
  "ev_event_id (stamped ev) = ev_event_id ev" "ev_schema_version (stamped ev) = ev_schema_version ev"
  "event_postings (stamped ev) = event_postings ev" "ev_event_id \<circ> stamped = ev_event_id"
  "event_postings \<circ> stamped = event_postings"
  by (simp_all add: stamped_def event_postings_def fun_eq_iff)

lemma sourced_event_row:
  assumes "event_codec env" and "event_row env row ev"
  shows "sourced_from_row env row = Inr \<lparr>se_cursor = ob_id row, se_event = stamped ev\<rparr>"
proof -
  have "EventId (ob_event_id row) = ev_event_id ev"
    using assms(2) by (simp add: event_row_def)
  moreover have "pe_from_value env (ob_payload row) = Inr ev" "ob_created_at row = timestamptz (ev_created_at ev)"
    using assms by (simp_all add: event_row_def event_codec_def)
  ultimately show ?thesis
    by (simp add: sourced_from_row_def event_from_payload_def stamped_def)
qed

lemma log_events:
  assumes "event_codec env" and "list_all2 (event_row env) rows evs"
    and "sorted (map (\<lambda>row. sint (ob_id row)) rows)" and "t_outbox db = rows"
  shows "map se_event (pg_log env db) = map stamped evs" "map se_cursor (pg_log env db) = map ob_id rows"
    "\<forall>row \<in> set rows. \<exists>e. sourced_from_row env row = Inr e"
proof -
  have log: "pg_log env db = map (projr \<circ> sourced_from_row env) rows"
    using assms(3,4) by (simp add: pg_log_def sort_key_id_if_sorted)
  show "map se_event (pg_log env db) = map stamped evs" "map se_cursor (pg_log env db) = map ob_id rows"
    "\<forall>row \<in> set rows. \<exists>e. sourced_from_row env row = Inr e"
    unfolding log using assms(2)
    by (induction rule: list_all2_induct) (auto simp: sourced_event_row [OF assms(1)])
qed

lemma reset_rows:
  assumes "db0 = snd (pg_reset env no_faults consumer db)"
  shows "pg_proj_bal consumer db0 = (\<lambda>_. 0)" "decodes consumer db0 k" "pg_seen consumer db0 = {}"
    "t_outbox db0 = t_outbox db"
proof -
  have db0: "db0 = db\<lparr>t_projection := filter (\<lambda>row. pv_consumer row \<noteq> consumer) (t_projection db),
      t_processed := filter (\<lambda>row. pr_consumer row \<noteq> consumer) (t_processed db),
      t_offsets := filter (\<lambda>row. of_consumer row \<noteq> consumer) (t_offsets db)\<rparr>"
    using assms by (simp add: pg_reset_def transaction_run tx_bind_def tx_err_def)
  have "find (at_projection consumer u a) (t_projection db0) = None" for u a
    by (auto simp: db0 find_None_iff at_projection_def)
  then show "pg_proj_bal consumer db0 = (\<lambda>_. 0)" "decodes consumer db0 k"
    by (auto simp: pg_proj_bal_def decodes_def)
  show "pg_seen consumer db0 = {}" "t_outbox db0 = t_outbox db"
    by (auto simp: db0 pg_seen_def list_ex_iff)
qed

text \<open>
  C19. Reset and replay rebuild the balance table.  On any reachable database whose outbox ids ascend
  in commit order, resetting a consumer and replaying the outbox from the beginning, with any
  batch size other than zero, succeeds, scans every outbox row once, and leaves projection rows
  that read exactly as the balance rows of the ledger.
\<close>

theorem pg_replay_rebuilds:
  assumes "pg_reach env db" and "event_codec env" and "batch_size \<noteq> 0"
    and "sorted_wrt (<) (map (\<lambda>row. sint (ob_id row)) (t_outbox db))"
    and "\<forall>row \<in> set (t_outbox db). sint (ob_id row) > 0"
  shows "\<exists>report db'. replay_events (pg_projection env no_faults now) consumer Beginning batch_size
             (snd (pg_reset env no_faults consumer db)) = Some (Inr report, db')
       \<and> rp_scanned report = of_nat (length (t_outbox db))
       \<and> (\<forall>u a. pg_proj_bal consumer db' (AccountId u, AssetCode a) = db_balance db u a)"
proof -
  obtain st where reach: "mem_reach (pe_uuid_show env) st" and rel: "db_rel env db st"
    using pg_reach_sim [OF assms(1)] by blast
  define db0 where "db0 = snd (pg_reset env no_faults consumer db)"
  note reset = reset_rows [OF db0_def] and ev = reachable_events [OF reach]
  have rows: "list_all2 (event_row env) (t_outbox db) (events st)"
    using rel by (simp add: db_rel_def)
  have sorted: "sorted (map (\<lambda>row. sint (ob_id row)) (t_outbox db))"
    using assms(4) by (simp add: strict_sorted_imp_sorted)
  note log = log_events [OF assms(2) rows sorted reset(4)]
  have cursors: "map (\<lambda>e. sint (se_cursor e)) (pg_log env db0) = map (\<lambda>row. sint (ob_id row)) (t_outbox db)"
    using arg_cong [OF log(2), of "map sint"] by (simp add: o_def)
  have "\<exists>report db'. replay_events (pg_projection env no_faults now) consumer Beginning batch_size db0
        = Some (Inr report, db')
      \<and> rp_scanned report = of_nat (length (map stamped (events st)))
      \<and> (\<forall>k. pg_proj_bal consumer db' k = account_delta k (concat (map event_postings (map stamped (events st)))))"
  proof (rule pg_proj.replay_from_reset)
    show "pg_good env consumer db0"
      using reset(2) log(3) by (simp add: pg_good_def reset(4))
    show "sorted_wrt (\<lambda>a b. sint (se_cursor a) < sint (se_cursor b)) (pg_log env db0)"
      using assms(4) cursors sorted_wrt_map [of "(<)" "\<lambda>e. sint (se_cursor e)"] by metis
    show "\<forall>e \<in> set (pg_log env db0). sint (se_cursor e) > 0"
    proof -
      have "\<forall>x \<in> set (map (\<lambda>e. sint (se_cursor e)) (pg_log env db0)). x > 0"
        unfolding cursors using assms(5) by simp
      then show ?thesis
        by simp
    qed
  qed (use reset log(1) ev assms(3) in simp_all)
  then show ?thesis
    using ev(1,4) db_balance_rel [OF rel] mem_reach_inv [OF reach] list_all2_lengthD [OF rows]
    by (auto simp: db0_def mem_inv_def)
qed

section \<open>Instances\<close>

text \<open>The second delivery commits but its answer is lost; the third one finds the event processed.\<close>

definition ex_deliveries :: "(faults \<times> datetime \<times> LedgerEvent) list" where
  "ex_deliveries = [(no_faults(2 := Some (Failed ''timeout'')), 30, ex_ev),
     (no_faults(6 := Some (Lost ''connection reset'')), 31, ex_ev), (no_faults, 32, ex_ev)]"

theorem pg_deliveries_exact_witness:
  "pg_proj_bal ''c'' (pg_deliver_all ex_env ''c'' ex_deliveries Db_empty) (AccountId 1, btc) = 100"
proof -
  define db' where "db' = pg_deliver_all ex_env ''c'' ex_deliveries Db_empty"
  have "list_ex (\<lambda>row. pr_consumer row = ''c'' \<and> pr_event_id row = event_uuid (ev_event_id ex_ev))
      (t_processed (pg_deliver_all ex_env ''c'' ex_deliveries Db_empty))"
    by code_simp
  then have "{ev \<in> set (map (snd \<circ> snd) ex_deliveries). event_uuid (ev_event_id ev) \<in> pg_seen ''c'' db'} = {ex_ev}"
    by (auto simp: pg_seen_def db'_def ex_deliveries_def)
  moreover have "pg_seen ''c'' Db_empty = {}" "pg_proj_bal ''c'' Db_empty = (\<lambda>_. 0)"
      "inj_on ev_event_id (set (map (snd \<circ> snd) ex_deliveries))"
    by (simp_all add: pg_seen_def pg_proj_bal_def Db_empty_def fun_eq_iff ex_deliveries_def)
  ultimately show ?thesis
    using pg_deliveries_exact [of ex_deliveries "''c''" Db_empty db' ex_env "(AccountId 1, btc)"]
    by (simp add: db'_def ex_ev_postings ex_postings_delta)
qed

definition ex_env1 :: pg_env where
  "ex_env1 = ex_env\<lparr>pe_to_value := (\<lambda>ev. if ev = ex_ev then Inr JNull else Inl ''unknown event''),
     pe_from_value := (\<lambda>_. Inr ex_ev)\<rparr>"

definition ex_db1 :: Db where
  "ex_db1 = snd (pg_commit ex_env1 no_faults ex_serials ''ledger'' 20 ex_commit ex_db0)"

lemma ex_db1_reach: "pg_reach ex_env1 ex_db1"
proof -
  have "snd (pg_create ex_env1 no_faults ex_serials ''ledger'' (ex_open ex_clearing ''acct-2'')
      (snd (pg_create ex_env1 no_faults ex_serials ''ledger'' (ex_open ex_alice ''acct-1'') Db_empty))) = ex_db0"
    by code_simp
  moreover have "pg_reach ex_env1 (snd (pg_create ex_env1 no_faults ex_serials ''ledger'' (ex_open ex_clearing ''acct-2'')
      (snd (pg_create ex_env1 no_faults ex_serials ''ledger'' (ex_open ex_alice ''acct-1'') Db_empty))))"
    by (rule pg_reach_step [OF pg_reach_step [OF pg_reach_init pg_step_create] pg_step_create])
      (simp_all add: ex_open_def fresh_rows_def posted_def serializable_def List.map_filter_def)
  ultimately have "pg_reach ex_env1 ex_db0"
    by simp
  moreover have "serializable ex_env1 (jc_events ex_commit)"
    by (simp add: serializable_def ex_env1_def ex_commit_def ex_ev_def)
  ultimately show ?thesis
    unfolding ex_db1_def
    by (intro pg_reach_step [OF _ pg_step_commit [OF ex_commit_valid ex_posted ex_fresh_rows]])
qed

theorem pg_replay_rebuilds_witness:
  "(case replay_events (pg_projection ex_env1 no_faults 40) ''c'' Beginning 5
        (snd (pg_reset ex_env1 no_faults ''c'' ex_db1)) of
      Some (Inr report, db') \<Rightarrow> rp_scanned report = 1 \<and> pg_proj_bal ''c'' db' (AccountId 1, AssetCode ''BTC'') = 100
    | _ \<Rightarrow> False)"
proof -
  have codec: "event_codec ex_env1"
    by (simp add: event_codec_def ex_env1_def)
  have "map (\<lambda>row. sint (ob_id row)) (t_outbox ex_db1) = [20]" "db_balance ex_db1 1 ''BTC'' = 100"
    by code_simp+
  moreover from this(1) have "length (t_outbox ex_db1) = 1" "\<forall>row \<in> set (t_outbox ex_db1). sint (ob_id row) > 0"
    by auto
  ultimately show ?thesis
    using pg_replay_rebuilds [OF ex_db1_reach codec, of 5 40 "''c''"] by auto
qed

end
