(* ===== verification/Event_Bus_Laws.thy ===== *)
theory Event_Bus_Laws
  imports Event_Bus Postgres_Replay Outbox_Props
begin

text \<open>
  What the relay relies on in an outbox and what it then guarantees.  The interface \<open>relay_outbox\<close>
  says that claimed messages are rows of the outbox, that marks publish only the rows they name,
  and that nothing else changes what rows carry; both stores satisfy it, PostgreSQL under any
  failures.
\<close>

section \<open>Publishing\<close>

lemma publish_cases:
  obtains (sent) p b' where "publish to_vec ft topic key event b = (Inr (), b')"
      "event_to_bytes to_vec event = Inr p"
      "bk_log b' = bk_log b @ [\<lparr>ms_topic = topic, ms_key = key, ms_payload = p\<rparr>]"
    | (lost) p err b' where "publish to_vec ft topic key event b = (Inl err, b')"
      "event_to_bytes to_vec event = Inr p"
      "bk_log b' = bk_log b @ [\<lparr>ms_topic = topic, ms_key = key, ms_payload = p\<rparr>]"
    | (failed) err b' where "publish to_vec ft topic key event b = (Inl err, b')" "bk_log b' = bk_log b"
proof (cases "event_to_bytes to_vec event")
  case (Inl err)
  then show thesis
    by (intro failed) (simp_all add: publish_def)
next
  case (Inr p)
  note run = publish_def publish_bytes_def Let_def Inr
  show thesis
  proof (cases "ft (bk_sends b)")
    case None
    then show thesis
      by (intro sent [OF _ Inr]) (simp add: run, simp)
  next
    case (Some flt)
    then show thesis
    proof (cases flt)
      case (Failed e)
      with Some show thesis
        by (intro failed) (simp add: run, simp)
    next
      case (Lost e)
      with Some show thesis
        by (intro lost [OF _ Inr]) (simp add: run, simp)
    qed
  qed
qed

lemma publish_loop_log: "publish_loop to_vec R ft topic ms s b = (ids, s', b') \<Longrightarrow> set (bk_log b) \<subseteq> set (bk_log b')"
proof (induction ms arbitrary: s b ids)
  case (Cons m ms)
  have tail: "set (bk_log b1) \<subseteq> set (bk_log b')"
    if "publish to_vec ft topic (om_partition_key m) (om_event m) b = (r, b1)" for r b1
    using Cons.prems that by (cases r) (auto split: prod.splits dest!: Cons.IH)
  show ?case
    by (cases rule: publish_cases [of to_vec ft topic "om_partition_key m" "om_event m" b]) (auto dest!: tail)
qed simp

section \<open>The contract of the outbox\<close>

text \<open>
  \<open>carries s i k e\<close>: row \<open>i\<close> of the outbox holds event \<open>e\<close> under key \<open>k\<close>.  A relayed outbox is one whose
  published rows all have their record in the log, and whose log holds records of its rows only.
\<close>

definition row_record ::
    "(i64 \<Rightarrow> string \<Rightarrow> LedgerEvent \<Rightarrow> bool) \<Rightarrow> (LedgerEvent \<Rightarrow> string + string) \<Rightarrow> string \<Rightarrow> i64 \<Rightarrow> Message \<Rightarrow> bool" where
  "row_record carries to_vec topic i m \<longleftrightarrow>
     (\<exists>k e p. carries i k e \<and> event_to_bytes to_vec e = Inr p
        \<and> m = \<lparr>ms_topic = topic, ms_key = k, ms_payload = p\<rparr>)"

definition relayed ::
    "(i64 \<Rightarrow> string \<Rightarrow> LedgerEvent \<Rightarrow> bool) \<Rightarrow> i64 set \<Rightarrow> (LedgerEvent \<Rightarrow> string + string) \<Rightarrow> string \<Rightarrow> Broker \<Rightarrow> bool" where
  "relayed carries published to_vec topic b \<longleftrightarrow>
     (\<forall>i \<in> published. \<exists>m \<in> set (bk_log b). row_record carries to_vec topic i m)
     \<and> (\<forall>m \<in> set (bk_log b). \<exists>i. row_record carries to_vec topic i m)"

lemma relayed_grow:
  "relayed carries published to_vec topic b \<Longrightarrow> set (bk_log b') = insert m (set (bk_log b))
     \<Longrightarrow> row_record carries to_vec topic i m \<Longrightarrow> relayed carries published to_vec topic b'"
  unfolding relayed_def by (simp only: ball_simps bex_simps insert_iff) auto

locale relay_outbox =
  fixes R :: "'s outbox_ports"
    and carries :: "'s \<Rightarrow> i64 \<Rightarrow> string \<Rightarrow> LedgerEvent \<Rightarrow> bool"
    and published :: "'s \<Rightarrow> i64 set"
  assumes claim_keeps: "op_claim R n l s = (r, s') \<Longrightarrow> carries s' = carries s \<and> published s' = published s"
    and claim_carries: "op_claim R n l s = (Inr ms, s') \<Longrightarrow> m \<in> set ms
      \<Longrightarrow> carries s (om_id m) (om_partition_key m) (om_event m)"
    and failed_keeps: "op_mark_failed R i err s = (r', s') \<Longrightarrow> carries s' = carries s \<and> published s' = published s"
    and published_adds: "op_mark_published R ids s = (r'', s')
      \<Longrightarrow> carries s' = carries s \<and> published s' \<subseteq> published s \<union> set ids"
begin

lemma publish_loop_relayed:
  assumes "publish_loop to_vec R ft topic ms s b = (ids, s', b')"
    and "relayed (carries s) (published s) to_vec topic b"
    and "\<And>m. m \<in> set ms \<Longrightarrow> carries s (om_id m) (om_partition_key m) (om_event m)"
  shows "carries s' = carries s \<and> published s' = published s
    \<and> relayed (carries s) (published s \<union> set ids) to_vec topic b'"
  using assms
proof (induction ms arbitrary: s b ids)
  case (Cons m ms)
  let ?rec = "\<lambda>p. \<lparr>ms_topic = topic, ms_key = om_partition_key m, ms_payload = p\<rparr>"
  have here: "row_record (carries s) to_vec topic (om_id m) (?rec p)"
    if "event_to_bytes to_vec (om_event m) = Inr p" for p
    using Cons.prems(3) [of m] that by (auto simp: row_record_def)
  show ?case
  proof (cases rule: publish_cases [of to_vec ft topic "om_partition_key m" "om_event m" b])
    case (sent p b1)
    obtain ids1 where rest: "publish_loop to_vec R ft topic ms s b1 = (ids1, s', b')" "ids = om_id m # ids1"
      using Cons.prems(1) sent(1) by (auto split: prod.splits)
    have "relayed (carries s) (published s) to_vec topic b1"
      by (rule relayed_grow [OF Cons.prems(2) _ here [OF sent(2)]]) (simp add: sent(3))
    from Cons.IH [OF rest(1) this] Cons.prems(3)
    have ih: "carries s' = carries s" "published s' = published s"
        "relayed (carries s) (published s \<union> set ids1) to_vec topic b'"
      by auto
    have "?rec p \<in> set (bk_log b')"
      using publish_loop_log [OF rest(1)] sent(3) by auto
    with ih here [OF sent(2)] rest(2) show ?thesis
      unfolding relayed_def by auto
  next
    case (lost p err b1)
    obtain r s1 where s1: "op_mark_failed R (om_id m) (display_bus_error err) s = (r, s1)"
      by fastforce
    have rest: "publish_loop to_vec R ft topic ms s1 b1 = (ids, s', b')"
      using Cons.prems(1) lost(1) s1 by simp
    have "relayed (carries s1) (published s1) to_vec topic b1"
      using relayed_grow [OF Cons.prems(2) _ here [OF lost(2)], of b1] failed_keeps [OF s1] by (simp add: lost(3))
    from Cons.IH [OF rest this] Cons.prems(3) failed_keeps [OF s1] show ?thesis
      by simp
  next
    case (failed err b1)
    obtain r s1 where s1: "op_mark_failed R (om_id m) (display_bus_error err) s = (r, s1)"
      by fastforce
    have rest: "publish_loop to_vec R ft topic ms s1 b1 = (ids, s', b')"
      using Cons.prems(1) failed(1) s1 by simp
    have "relayed (carries s1) (published s1) to_vec topic b1"
      using Cons.prems(2) failed_keeps [OF s1] by (simp add: relayed_def failed(2))
    from Cons.IH [OF rest this] Cons.prems(3) failed_keeps [OF s1] show ?thesis
      by simp
  qed
qed (auto simp: relayed_def)

lemma tick_relayed:
  assumes "tick to_vec R ft topic n l s b = (r, s', b')" and "relayed (carries s) (published s) to_vec topic b"
  shows "carries s' = carries s \<and> relayed (carries s') (published s') to_vec topic b'"
proof -
  obtain c s1 where claim: "op_claim R n l s = (c, s1)"
    by fastforce
  note keeps = claim_keeps [OF claim]
  show ?thesis
  proof (cases c)
    case (Inr ms)
    obtain ids s2 b2 where loop: "publish_loop to_vec R ft topic ms s1 b = (ids, s2, b2)"
      by (cases "publish_loop to_vec R ft topic ms s1 b")
    have pub: "carries s2 = carries s" "published s2 = published s"
        "relayed (carries s) (published s \<union> set ids) to_vec topic b2"
      using publish_loop_relayed [OF loop] assms(2) keeps claim_carries [of n l s ms s1] claim Inr by auto
    obtain r' s3 where mark: "op_mark_published R ids s2 = (r', s3)"
      by fastforce
    have "ms = [] \<and> s' = s1 \<and> b' = b \<or> ids = [] \<and> s' = s2 \<and> b' = b2 \<or> s' = s3 \<and> b' = b2"
      using assms(1) claim Inr loop mark by (auto simp: tick_def split: if_splits)
    then show ?thesis
      using keeps pub assms(2) published_adds [OF mark] by (auto simp: relayed_def)
  qed (use assms claim keeps in \<open>auto simp: tick_def\<close>)
qed

end

lemma relay_run_relayed:
  assumes "\<forall>(R, ft) \<in> set ticks. relay_outbox R carries published"
    and "relayed (carries s) (published s) to_vec topic b"
    and "relay_run to_vec topic n l ticks s b = (s', b')"
  shows "carries s' = carries s \<and> relayed (carries s') (published s') to_vec topic b'"
  using assms
proof (induction ticks arbitrary: s b)
  case (Cons t ticks)
  obtain R ft where t: "t = (R, ft)"
    by (cases t)
  have R: "relay_outbox R carries published"
    using Cons.prems(1) t by simp
  obtain r s1 b1 where tick: "tick to_vec R ft topic n l s b = (r, s1, b1)"
    by (cases "tick to_vec R ft topic n l s b")
  show ?case
    using Cons.IH [of s1 b1] Cons.prems relay_outbox.tick_relayed [OF R tick Cons.prems(2)] t tick by auto
qed simp

section \<open>The stores keep the contract\<close>

definition mem_core :: "OutboxRow \<Rightarrow> i64 \<times> string \<times> LedgerEvent \<times> datetime option" where
  "mem_core row = (om_id (row_message row), om_partition_key (row_message row), om_event (row_message row),
     om_published_at (row_message row))"

definition mem_carries :: "State \<Rightarrow> i64 \<Rightarrow> string \<Rightarrow> LedgerEvent \<Rightarrow> bool" where
  "mem_carries st i k e \<longleftrightarrow> (i, k, e) \<in> set (map (\<lambda>(i, k, e, _). (i, k, e)) (map mem_core (outbox st)))"

definition mem_published :: "State \<Rightarrow> i64 set" where
  "mem_published st = {i. \<exists>k e t. (i, k, e, Some t) \<in> set (map mem_core (outbox st))}"

lemma mem_rows_cong:
  "map mem_core (outbox st') = map mem_core (outbox st)
     \<Longrightarrow> mem_carries st' = mem_carries st \<and> mem_published st' = mem_published st"
  by (simp only: mem_carries_def mem_published_def fun_eq_iff) simp

lemma claim_rows_mem_core: "map mem_core (snd (claim_rows now until n rows)) = map mem_core rows"
  by (induction now until n rows rule: claim_rows.induct) (auto simp: mem_core_def Let_def split: prod.splits)

lemma fail_first_mem_core: "map mem_core (fail_first i err rows) = map mem_core rows"
  by (induction i err rows rule: fail_first.induct) (auto simp: mem_core_def)

interpretation mem_relay: relay_outbox "mem_outbox from_std now now'" mem_carries mem_published for from_std now now'
proof
  fix n l and s s' :: State and r
  assume "op_claim (mem_outbox from_std now now') n l s = (r, s')"
  then have "map mem_core (outbox s') = map mem_core (outbox s)"
    using claim_rows_mem_core [of now _ "unat n" "outbox s"]
    by (auto simp: mem_outbox_def claim_def Let_def split: sum.splits prod.splits) (metis snd_conv)
  then show "mem_carries s' = mem_carries s \<and> mem_published s' = mem_published s"
    by (rule mem_rows_cong)
next
  fix n l ms m and s s' :: State
  assume claim: "op_claim (mem_outbox from_std now now') n l s = (Inr ms, s')" and "m \<in> set ms"
  then have "m \<in> row_message ` set (outbox s)"
    using claim_shape [of from_std now n l s ms s'] by (auto simp: mem_outbox_def dest!: in_set_takeD)
  then show "mem_carries s (om_id m) (om_partition_key m) (om_event m)"
    by (force simp: mem_carries_def mem_core_def)
next
  fix i err r' and s s' :: State
  assume "op_mark_failed (mem_outbox from_std now now') i err s = (r', s')"
  then show "mem_carries s' = mem_carries s \<and> mem_published s' = mem_published s"
    by (intro mem_rows_cong) (auto simp: mem_outbox_def mark_failed_def fail_first_mem_core)
next
  fix ids r'' and s s' :: State
  assume "op_mark_published (mem_outbox from_std now now') ids s = (r'', s')"
  then have rows: "outbox s' = map (\<lambda>row. if publishes ids row then publish_row now' row else row) (outbox s)"
    by (auto simp: mem_outbox_def mark_published_def)
  have core: "mem_core (publish_row now' row) = (om_id (row_message row), om_partition_key (row_message row),
      om_event (row_message row), Some now')" for row
    by (simp add: mem_core_def publish_row_def)
  show "mem_carries s' = mem_carries s \<and> mem_published s' \<subseteq> mem_published s \<union> set ids"
  proof
    show "mem_carries s' = mem_carries s"
    proof -
      have "map (\<lambda>(i, k, e, _). (i, k, e)) (map mem_core (outbox s'))
          = map (\<lambda>(i, k, e, _). (i, k, e)) (map mem_core (outbox s))"
        unfolding rows by (simp add: mem_core_def publish_row_def)
      then show ?thesis
        unfolding mem_carries_def by (simp only:)
    qed
    show "mem_published s' \<subseteq> mem_published s \<union> set ids"
    proof
      fix i
      assume "i \<in> mem_published s'"
      then obtain k e t row where row: "row \<in> set (outbox s)"
          "(i, k, e, Some t) = mem_core (if publishes ids row then publish_row now' row else row)"
        unfolding mem_published_def rows by auto
      show "i \<in> mem_published s \<union> set ids"
      proof (cases "publishes ids row")
        case True
        with row(2) show ?thesis
          by (simp add: core publishes_def)
      next
        case False
        with row show ?thesis
          by (auto simp: mem_published_def image_iff)
      qed
    qed
  qed
qed

text \<open>The outbox table, under any failures of its statements.\<close>

definition relay_core :: "PgOutboxRow \<Rightarrow> i64 \<times> uuid \<times> string \<times> Value \<times> datetime \<times> datetime option" where
  "relay_core row = (ob_id row, ob_event_id row, ob_partition_key row, ob_payload row, ob_created_at row,
     ob_published_at row)"

definition pg_carries :: "pg_env \<Rightarrow> Db \<Rightarrow> i64 \<Rightarrow> string \<Rightarrow> LedgerEvent \<Rightarrow> bool" where
  "pg_carries env db i k e \<longleftrightarrow>
     (\<exists>row \<in> set (t_outbox db). ob_id row = i \<and> ob_partition_key row = k
        \<and> event_from_payload env (ob_event_id row) (ob_payload row) (ob_created_at row) = Inr e)"

definition pg_published :: "Db \<Rightarrow> i64 set" where
  "pg_published db = ob_id ` {row \<in> set (t_outbox db). ob_published_at row \<noteq> None}"

definition same_rows :: "Db \<Rightarrow> Db \<Rightarrow> bool" where
  "same_rows db db' \<longleftrightarrow> map relay_core (t_outbox db') = map relay_core (t_outbox db)"

interpretation outbox_rows: table_frame same_rows
  by unfold_locales (simp_all add: same_rows_def)

lemma same_rowsI: "(\<And>row. relay_core (f row) = relay_core row) \<Longrightarrow> same_rows db (db\<lparr>t_outbox := map f (t_outbox db)\<rparr>)"
  by (simp add: same_rows_def)

lemma carries_map:
  "pg_carries env db i k e \<longleftrightarrow> (\<exists>(i', u, k', v, c, _) \<in> set (map relay_core (t_outbox db)).
     i' = i \<and> k' = k \<and> event_from_payload env u v c = Inr e)"
  by (force simp: pg_carries_def relay_core_def)

lemma published_map:
  "pg_published db = {i. \<exists>(i', u, k, v, c, p) \<in> set (map relay_core (t_outbox db)). i' = i \<and> p \<noteq> None}"
  by (force simp: pg_published_def relay_core_def)

lemma same_rows_cong:
  "same_rows db db' \<Longrightarrow> pg_carries env db' = pg_carries env db \<and> pg_published db' = pg_published db"
  unfolding same_rows_def by (simp only: fun_eq_iff carries_map published_map) simp

lemma pg_claim_rows_messages:
  "pg_claim_rows env no_faults until rows (db, n) = (Inr ms, s') \<Longrightarrow> map (pg_message env) rows = map Inr ms"
proof (induction rows arbitrary: db n ms)
  case (Cons row rows)
  obtain m where m: "pg_message env row = Inr m"
    using Cons.prems by (cases "pg_message env row") (auto simp: tx_bind_def tx_err_def)
  obtain ms1 where "pg_claim_rows env no_faults until rows (lease_row until (ob_id row) db, Suc n) = (Inr ms1, s')"
      "ms = m # ms1"
    using Cons.prems m
    by (cases "pg_claim_rows env no_faults until rows (lease_row until (ob_id row) db, Suc n)")
      (auto simp: tx_bind_def tx_err_def split: sum.splits)
  with Cons.IH m show ?case
    by simp
qed simp

lemma pg_claim_messages:
  assumes "pg_claim env ft now locked limit secs db = (Inr ms, db')" and "m \<in> set ms"
  shows "\<exists>row \<in> set (t_outbox db). pg_message env row = Inr m"
proof -
  obtain rows where rows: "set rows \<subseteq> set (t_outbox db)" "map (pg_message env) rows = map Inr ms"
  proof -
    let ?rows = "take (unat limit) (sort_key (\<lambda>row. sint (ob_id row))
        (filter (\<lambda>row. pg_claimable now row \<and> \<not> locked (ob_id row)) (t_outbox db)))"
    have "pg_claim env no_faults now locked limit secs db = (Inr ms, db')"
      by (rule pg_claim_undisturbed [OF assms(1)])
    then obtain until s' where "pg_claim_rows env no_faults until ?rows (db, Suc (Suc 0)) = (Inr ms, s')"
      by (auto simp: pg_claim_def transaction_run tx_bind_def tx_err_def split: prod.splits sum.splits)
    from pg_claim_rows_messages [OF this] show thesis
      by (intro that [of ?rows]) (auto dest!: in_set_takeD)
  qed
  have "Inr m \<in> set (map (pg_message env) rows)"
    using assms(2) rows(2) by simp
  then obtain row where "row \<in> set rows" "pg_message env row = Inr m"
    by (metis imageE list.set_map)
  with rows(1) show ?thesis
    by blast
qed

interpretation pg_relay: relay_outbox "pg_outbox env ft locked now now'" "pg_carries env" pg_published
  for env ft locked now now'
proof
  fix n l r and s s' :: Db
  assume "op_claim (pg_outbox env ft locked now now') n l s = (r, s')"
  then have run: "pg_claim env (rl_claim ft) now locked n (as_secs l) s = (r, s')"
    by (simp add: pg_outbox_def)
  have "tx_keeps same_rows (pg_claim_rows env (rl_claim ft) until rows)" for until rows
    by (induction rows) (auto simp: lease_row_def relay_core_def intro!: keeps_intros same_rowsI)
  then have "same_rows s (snd (pg_claim env (rl_claim ft) now locked n (as_secs l) s))"
    unfolding pg_claim_def by (intro outbox_rows.transaction_keeps keeps_intros)
  then show "pg_carries env s' = pg_carries env s \<and> pg_published s' = pg_published s"
    using run by (intro same_rows_cong) simp
next
  fix n l ms m and s s' :: Db
  assume claim: "op_claim (pg_outbox env ft locked now now') n l s = (Inr ms, s')" and m: "m \<in> set ms"
  have "pg_claim env (rl_claim ft) now locked n (as_secs l) s = (Inr ms, s')"
    using claim by (simp add: pg_outbox_def)
  from pg_claim_messages [OF this m] obtain row where "row \<in> set (t_outbox s)" "pg_message env row = Inr m"
    by blast
  then show "pg_carries env s (om_id m) (om_partition_key m) (om_event m)"
    by (auto simp: pg_carries_def pg_message_def result_simps)
next
  fix i err r' and s s' :: Db
  assume "op_mark_failed (pg_outbox env ft locked now now') i err s = (r', s')"
  moreover have "same_rows s (snd (pg_mark_failed env (rl_failed ft i) i err s))"
    unfolding pg_mark_failed_def
    by (auto simp: relay_core_def intro!: outbox_rows.on_pool_keeps keeps_intros same_rowsI)
  ultimately show "pg_carries env s' = pg_carries env s \<and> pg_published s' = pg_published s"
    by (intro same_rows_cong) (simp add: pg_outbox_def)
next
  fix ids r'' and s s' :: Db
  assume "op_mark_published (pg_outbox env ft locked now now') ids s = (r'', s')"
  then have "s' = s \<or> s' = s\<lparr>t_outbox := map (\<lambda>row. if pg_publishes ids row
        then row\<lparr>ob_published_at := Some now', ob_leased_until := None, ob_last_error := None\<rparr> else row) (t_outbox s)\<rparr>"
    by (auto simp: pg_outbox_def pg_mark_published_def on_pool_def tx_err_def sql_def
        split: option.splits fault.splits)
  then obtain f where f: "t_outbox s' = map f (t_outbox s)"
      "\<And>row. f row = row \<or> ob_id row \<in> set ids \<and> f row = row\<lparr>ob_published_at := Some now', ob_leased_until := None, ob_last_error := None\<rparr>"
    by (elim disjE) (force intro: that [of id], force intro: that simp: pg_publishes_def)
  have same: "ob_id (f row) = ob_id row" "ob_partition_key (f row) = ob_partition_key row"
      "ob_event_id (f row) = ob_event_id row" "ob_payload (f row) = ob_payload row" "ob_created_at (f row) = ob_created_at row" for row
    using f(2) [of row] by auto
  have "ob_published_at row \<noteq> None \<or> ob_id row \<in> set ids" if "ob_published_at (f row) \<noteq> None" for row
    using that f(2) [of row] by auto
  then show "pg_carries env s' = pg_carries env s \<and> pg_published s' \<subseteq> pg_published s \<union> set ids"
    by (fastforce simp: pg_carries_def pg_published_def fun_eq_iff f(1) same)
qed

end
