(* ===== verification/Relay_System.thy ===== *)
theory Relay_System
  imports Event_Bus_Laws
begin

text \<open>
  The outbox relay next to the ledger: any interleaving of port calls and relay ticks, each under its
  own failures of the database and of the broker.  What is marked as published is in the broker's
  log, and what is in the log is an event of the ledger.  Left alone, the relay drains the outbox.
\<close>

lemma list_all2_member:
  assumes "list_all2 P xs ys"
  shows "x \<in> set xs \<Longrightarrow> \<exists>y \<in> set ys. P x y" and "y \<in> set ys \<Longrightarrow> \<exists>x \<in> set xs. P x y"
  using assms by (induction rule: list_all2_induct) auto

section \<open>Calls between ticks\<close>

definition rows_grow :: "Db \<Rightarrow> Db \<Rightarrow> bool" where
  "rows_grow db db' \<longleftrightarrow>
     (\<exists>cores. map relay_core (t_outbox db') = map relay_core (t_outbox db) @ cores
        \<and> (\<forall>(_, _, _, _, _, published) \<in> set cores. published = None))"

lemma rows_growI:
  "map relay_core (t_outbox db') = map relay_core (t_outbox db) @ cores
     \<Longrightarrow> (\<And>i u k v t p. (i, u, k, v, t, p) \<in> set cores \<Longrightarrow> p = None) \<Longrightarrow> rows_grow db db'"
  unfolding rows_grow_def by blast

lemma rows_grow_same: "map relay_core (t_outbox db') = map relay_core (t_outbox db) \<Longrightarrow> rows_grow db db'"
  by (rule rows_growI [of _ _ "[]"]) simp_all

interpretation outbox_log: table_frame rows_grow
proof
  fix db db1 db2
  show "rows_grow db db"
    by (simp add: rows_grow_same)
  assume "rows_grow db db1" "rows_grow db1 db2"
  then obtain c1 c2 where "map relay_core (t_outbox db1) = map relay_core (t_outbox db) @ c1"
      "map relay_core (t_outbox db2) = map relay_core (t_outbox db1) @ c2"
      "\<forall>(_, _, _, _, _, p) \<in> set c1. p = None" "\<forall>(_, _, _, _, _, p) \<in> set c2. p = None"
    unfolding rows_grow_def by blast
  then show "rows_grow db db2"
    by (intro rows_growI [of _ _ "c1 @ c2"]) auto
qed

lemma insert_outbox_grows: "tx_keeps rows_grow (pg_insert_outbox env ft ids topic k evs)"
proof (induction evs arbitrary: k)
  case (Cons ev evs)
  have "rows_grow db (snd (outbox_insert i topic ev payload db))" for i payload db
    by (auto simp: outbox_insert_def relay_core_def intro: rows_grow_same rows_growI)
  with Cons show ?case
    by (simp, intro keeps_intros)
qed (simp add: keeps_intros)

lemma insert_idempotency_grows: "tx_keeps rows_grow (pg_insert_idempotency ft r)"
  unfolding pg_insert_idempotency_def by (intro keeps_intros) (auto intro: rows_grow_same)

lemma apply_postings_grows: "tx_keeps rows_grow (pg_apply_postings env ft ids now eid k ps)"
proof (induction ps arbitrary: k)
  case (Cons p ps)
  have "tx_keeps rows_grow (pg_apply_posting env ft i now eid p)" for i
    unfolding pg_apply_posting_def Let_def
    by (intro keeps_intros) (simp_all add: update_balance_def insert_balance_def rows_grow_same)
  with Cons show ?case
    by (simp, intro keeps_intros)
qed (simp add: keeps_intros)

lemmas grows_intros = keeps_intros insert_outbox_grows insert_idempotency_grows apply_postings_grows

lemma pg_call_grows: "pg_call env db db' \<Longrightarrow> rows_grow db db'"
proof (induction rule: pg_call.induct)
  case (pg_call_create db c ft sr topic)
  have "rows_grow db1 (snd (account_insert (ac_account c) db1))" for db1
    by (simp add: account_insert_def rows_grow_same)
  then show ?case
    unfolding pg_create_def by (intro outbox_log.transaction_keeps grows_intros)
next
  case (pg_call_commit c db ft sr topic now)
  have "rows_grow db1 (snd (entry_insert (jc_entry c) db1))" for db1
    by (simp add: entry_insert_def rows_grow_same)
  then show ?case
    unfolding pg_commit_def by (intro outbox_log.transaction_keeps grows_intros)
next
  case (pg_call_purge db ft cutoff)
  show ?case
    unfolding pg_purge_created_before_def
    by (intro outbox_log.on_pool_keeps grows_intros) (simp add: rows_grow_same)
next
  case (pg_call_apply db ft now consumer eid e)
  have "tx_keeps rows_grow (pg_project_postings env ft now consumer ps)" for ps
    by (induction ps)
      (auto simp: pg_project_posting_def Let_def update_projection_def insert_projection_def
        intro!: keeps_intros rows_grow_same)
  then show ?case
    unfolding pg_apply_journal_def
    by (intro outbox_log.transaction_keeps grows_intros) (auto simp: processed_insert_def rows_grow_same)
next
  case (pg_call_position db ft now consumer pos)
  show ?case
    unfolding pg_record_position_def
    by (intro outbox_log.on_pool_keeps grows_intros) (simp add: rows_grow_same)
next
  case (pg_call_reset db ft consumer)
  show ?case
    unfolding pg_reset_def
    by (intro outbox_log.transaction_keeps grows_intros) (simp_all add: rows_grow_same)
qed

lemma rows_grow_relayed:
  assumes "rows_grow db db'" and "relayed (pg_carries env db) (pg_published db) to_vec topic b"
  shows "relayed (pg_carries env db') (pg_published db') to_vec topic b"
proof -
  obtain cores where cores: "map relay_core (t_outbox db') = map relay_core (t_outbox db) @ cores"
      "\<forall>(_, _, _, _, _, p) \<in> set cores. p = None"
    using assms(1) unfolding rows_grow_def by blast
  have "\<not> (\<exists>(i', u, k, v, c, p) \<in> set cores. i' = i \<and> p \<noteq> None)" for i
    using cores(2) by auto
  then have "pg_published db' = pg_published db"
    unfolding published_map cores(1) set_append bex_Un by simp
  moreover have "pg_carries env db' i k e" if "pg_carries env db i k e" for i k e
    using that unfolding carries_map cores(1) set_append bex_Un by (rule disjI1)
  then have "row_record (pg_carries env db') to_vec topic i m" if "row_record (pg_carries env db) to_vec topic i m" for i m
    using that unfolding row_record_def by blast
  ultimately show ?thesis
    using assms(2) by (simp add: relayed_def, blast)
qed

section \<open>Ticks keep what the calls of the outbox keep\<close>

locale outbox_invariant =
  fixes R :: "'s outbox_ports" and inv :: "'s \<Rightarrow> bool"
  assumes claim_inv: "inv s \<Longrightarrow> op_claim R n l s = (r, s') \<Longrightarrow> inv s'"
    and published_inv: "inv s \<Longrightarrow> op_mark_published R ids s = (r'', s') \<Longrightarrow> inv s'"
    and failed_inv: "inv s \<Longrightarrow> op_mark_failed R i err s = (r', s') \<Longrightarrow> inv s'"
begin

lemma publish_loop_inv: "inv s \<Longrightarrow> publish_loop to_vec R ft topic ms s b = (ids, s', b') \<Longrightarrow> inv s'"
proof (induction ms arbitrary: s b ids)
  case (Cons m ms)
  have fail: "inv (snd (op_mark_failed R (om_id m) err s))" for err
    using failed_inv [OF Cons.prems(1)] by (metis prod.collapse)
  obtain r b1 where "publish to_vec ft topic (om_partition_key m) (om_event m) b = (r, b1)"
    by fastforce
  with Cons fail show ?case
    by (cases r) (auto split: prod.splits)
qed simp

lemma tick_inv:
  assumes "inv s" and "tick to_vec R ft topic n l s b = (r, s', b')"
  shows "inv s'"
proof -
  obtain c s1 where claim: "op_claim R n l s = (c, s1)"
    by fastforce
  have s1: "inv s1"
    by (rule claim_inv [OF assms(1) claim])
  show ?thesis
  proof (cases c)
    case (Inr ms)
    obtain ids s2 b2 where loop: "publish_loop to_vec R ft topic ms s1 b = (ids, s2, b2)"
      by (cases "publish_loop to_vec R ft topic ms s1 b")
    obtain r' s3 where mark: "op_mark_published R ids s2 = (r', s3)"
      by fastforce
    have "s' \<in> {s1, s2, s3}"
      using assms(2) claim Inr loop mark by (auto simp: tick_def split: if_splits)
    with s1 publish_loop_inv [OF s1 loop] published_inv [OF _ mark] show ?thesis
      by auto
  qed (use assms(2) claim s1 in \<open>auto simp: tick_def\<close>)
qed

end

interpretation pg_reach_outbox: outbox_invariant "pg_outbox env ft locked now now'" "pg_reach env"
  for env ft locked now now'
proof
  fix s s' :: Db and n l r
  assume "pg_reach env s" "op_claim (pg_outbox env ft locked now now') n l s = (r, s')"
  then show "pg_reach env s'"
    using pg_reach_step [OF _ pg_step_claim [of env s "rl_claim ft" now locked n "as_secs l"]] by (simp add: pg_outbox_def)
next
  fix s s' :: Db and ids r''
  assume "pg_reach env s" "op_mark_published (pg_outbox env ft locked now now') ids s = (r'', s')"
  then show "pg_reach env s'"
    using pg_reach_step [OF _ pg_step_publish [of env s "rl_published ft" now' ids]] by (simp add: pg_outbox_def)
next
  fix s s' :: Db and i err r'
  assume "pg_reach env s" "op_mark_failed (pg_outbox env ft locked now now') i err s = (r', s')"
  then show "pg_reach env s'"
    using pg_reach_step [OF _ pg_step_fail [of env s "rl_failed ft i" i err]] by (simp add: pg_outbox_def)
qed

section \<open>The system\<close>

definition Broker_empty :: Broker where
  "Broker_empty = \<lparr>bk_log = [], bk_sends = 0\<rparr>"

inductive relay_system ::
    "pg_env \<Rightarrow> (LedgerEvent \<Rightarrow> string + string) \<Rightarrow> string \<Rightarrow> Db \<Rightarrow> Broker \<Rightarrow> bool" for env to_vec topic where
  system_init: "relay_system env to_vec topic Db_empty Broker_empty"
| system_call: "relay_system env to_vec topic db b \<Longrightarrow> pg_call env db db' \<Longrightarrow> relay_system env to_vec topic db' b"
| system_tick: "relay_system env to_vec topic db b
    \<Longrightarrow> tick to_vec (pg_outbox env ft locked now now') bft topic n l db b = (r, db', b')
    \<Longrightarrow> relay_system env to_vec topic db' b'"

lemma relay_system_inv:
  "relay_system env to_vec topic db b
     \<Longrightarrow> pg_reach env db \<and> relayed (pg_carries env db) (pg_published db) to_vec topic b"
proof (induction rule: relay_system.induct)
  case system_init
  then show ?case
    using pg_reach_init by (simp add: relayed_def pg_published_def Db_empty_def Broker_empty_def)
next
  case (system_call db b db')
  then show ?case
    using pg_reach_step [OF _ pg_step_call] rows_grow_relayed [OF pg_call_grows] by blast
next
  case (system_tick db b ft locked now now' bft n l r db' b')
  note inv = conjunct1 [OF system_tick.IH] conjunct2 [OF system_tick.IH]
  show ?case
    using pg_relay.tick_relayed [OF system_tick.hyps(2) inv(2)] pg_reach_outbox.tick_inv [OF inv(1) system_tick.hyps(2)]
    by blast
qed

text \<open>\<open>publishes_row env to_vec topic row m\<close>: the record \<open>m\<close> carries the event of \<open>row\<close>.\<close>

definition publishes_row ::
    "pg_env \<Rightarrow> (LedgerEvent \<Rightarrow> string + string) \<Rightarrow> string \<Rightarrow> PgOutboxRow \<Rightarrow> Message \<Rightarrow> bool" where
  "publishes_row env to_vec topic row m \<longleftrightarrow>
     ms_topic m = topic \<and> ms_key m = ob_partition_key row
     \<and> and_then (map_err (\<lambda>_. ()) (event_from_payload env (ob_event_id row) (ob_payload row) (ob_created_at row)))
          (\<lambda>event. map_err (\<lambda>_. ()) (event_to_bytes to_vec event)) = Inr (ms_payload m)"

lemma publishes_row_iff:
  "publishes_row env to_vec topic row m \<longleftrightarrow>
     ms_topic m = topic \<and> ms_key m = ob_partition_key row
     \<and> (\<exists>event. event_from_payload env (ob_event_id row) (ob_payload row) (ob_created_at row) = Inr event
          \<and> event_to_bytes to_vec event = Inr (ms_payload m))"
  by (auto simp: publishes_row_def result_simps)

lemma row_record_publishes:
  "row_record (pg_carries env db) to_vec topic i m
     \<longleftrightarrow> (\<exists>row \<in> set (t_outbox db). ob_id row = i \<and> publishes_row env to_vec topic row m)"
  by (cases m) (auto simp: row_record_def pg_carries_def publishes_row_iff)

text \<open>
  C21. The relay loses nothing and invents nothing.  Interleave the calls of the ledger and of the
  projector with relay ticks in any way, let any statement of any call and any send fail before or
  after it took effect, each call under a plan of its own, so that a batch may be sent and then
  not be marked: every row marked as published has its event in the log of the broker under its
  partition key, and every record of the log carries the event of an outbox row.
\<close>

theorem relay_logged:
  assumes "relay_system env to_vec topic db b" and "distinct (map ob_id (t_outbox db))"
  shows "(\<forall>row \<in> set (t_outbox db). ob_published_at row \<noteq> None
            \<longrightarrow> (\<exists>m \<in> set (bk_log b). publishes_row env to_vec topic row m))
       \<and> (\<forall>m \<in> set (bk_log b). \<exists>row \<in> set (t_outbox db). publishes_row env to_vec topic row m)"
proof (intro conjI ballI impI)
  have inv: "relayed (pg_carries env db) (pg_published db) to_vec topic b"
    using relay_system_inv [OF assms(1)] by blast
  {
    fix m
    assume "m \<in> set (bk_log b)"
    with inv show "\<exists>row \<in> set (t_outbox db). publishes_row env to_vec topic row m"
      by (auto simp: relayed_def row_record_publishes)
  next
    fix row
    assume row: "row \<in> set (t_outbox db)" "ob_published_at row \<noteq> None"
    then have "ob_id row \<in> pg_published db"
      by (auto simp: pg_published_def)
    with inv obtain m row' where "m \<in> set (bk_log b)" "row' \<in> set (t_outbox db)" "ob_id row' = ob_id row"
        "publishes_row env to_vec topic row' m"
      by (auto simp: relayed_def row_record_publishes)
    moreover from this have "row' = row"
      using row(1) assms(2) by (auto simp: distinct_map dest: inj_onD)
    ultimately show "\<exists>m \<in> set (bk_log b). publishes_row env to_vec topic row m"
      by blast
  }
qed

section \<open>An instance\<close>

lemma relay_run_system:
  assumes "relay_system env to_vec topic db b"
    and "\<forall>(R, ft) \<in> set ticks. \<exists>dbft locked now now'. R = pg_outbox env dbft locked now now'"
    and "relay_run to_vec topic n l ticks db b = (db', b')"
  shows "relay_system env to_vec topic db' b'"
  using assms
proof (induction ticks arbitrary: db b)
  case (Cons t ticks)
  obtain bft dbft locked now now' where t: "t = (pg_outbox env dbft locked now now', bft)"
    using Cons.prems(2) by (cases t) auto
  obtain r db1 b1 where tick: "tick to_vec (pg_outbox env dbft locked now now') bft topic n l db b = (r, db1, b1)"
    by (cases "tick to_vec (pg_outbox env dbft locked now now') bft topic n l db b")
  show ?case
    using Cons.IH [OF system_tick [OF Cons.prems(1) tick]] Cons.prems(2,3) t tick by simp
qed simp

definition ex_to_vec :: "LedgerEvent \<Rightarrow> string + string" where
  "ex_to_vec ev = (if ev = stamped ex_ev then Inr ''e'' else Inl ''unknown event'')"

lemma ex_system: "relay_system ex_env1 ex_to_vec ''ledger.events'' ex_db1 Broker_empty"
proof -
  have "snd (pg_create ex_env1 no_faults ex_serials ''ledger'' (ex_open ex_clearing ''acct-2'')
      (snd (pg_create ex_env1 no_faults ex_serials ''ledger'' (ex_open ex_alice ''acct-1'') Db_empty))) = ex_db0"
    by code_simp
  moreover have "relay_system ex_env1 ex_to_vec ''ledger.events''
      (snd (pg_create ex_env1 no_faults ex_serials ''ledger'' (ex_open ex_clearing ''acct-2'')
        (snd (pg_create ex_env1 no_faults ex_serials ''ledger'' (ex_open ex_alice ''acct-1'') Db_empty)))) Broker_empty"
    by (rule system_call [OF system_call [OF system_init pg_call_create] pg_call_create])
      (simp_all add: ex_open_def fresh_rows_def posted_def serializable_def List.map_filter_def)
  ultimately have "relay_system ex_env1 ex_to_vec ''ledger.events'' ex_db0 Broker_empty"
    by simp
  moreover have "serializable ex_env1 (jc_events ex_commit)"
    by (simp add: serializable_def ex_env1_def ex_commit_def ex_ev_def)
  ultimately show ?thesis
    unfolding ex_db1_def
    by (intro system_call [OF _ pg_call_commit [OF ex_commit_valid ex_posted ex_fresh_rows]])
qed

text \<open>
  Three ticks: the answer to the first send is lost; the second send succeeds but marking the row
  as published fails; when the lease has run out the third tick sends the event once more.
\<close>

definition ex_ticks :: "(Db outbox_ports \<times> faults) list" where
  "ex_ticks =
     [(pg_outbox ex_env1 no_relay_faults (\<lambda>_. False) 30 31, no_faults(0 := Some (Lost ''timeout''))),
      (pg_outbox ex_env1 (no_relay_faults\<lparr>rl_published := no_faults(0 := Some (Failed ''timeout''))\<rparr>) (\<lambda>_. False) 40 41,
        no_faults),
      (pg_outbox ex_env1 no_relay_faults (\<lambda>_. False) 40000000000 40000000001, no_faults)]"

definition ex_relay :: "Db \<times> Broker" where
  "ex_relay = relay_run ex_to_vec ''ledger.events'' 10 (from_millis 30000) ex_ticks ex_db1 Broker_empty"

lemma ex_relay_run:
  "relay_run ex_to_vec ''ledger.events'' 10 (from_millis 30000) ex_ticks ex_db1 Broker_empty
     = (fst ex_relay, snd ex_relay)"
  by (simp only: ex_relay_def prod.collapse)

lemma ex_relay_system: "relay_system ex_env1 ex_to_vec ''ledger.events'' (fst ex_relay) (snd ex_relay)"
  by (rule relay_run_system [OF ex_system _ ex_relay_run]) (auto simp: ex_ticks_def)

lemma ex_relay_rows:
  "map ob_id (t_outbox (fst ex_relay)) = [20]" "map ob_published_at (t_outbox (fst ex_relay)) = [Some 40000000001]"
  "map ms_payload (bk_log (snd ex_relay)) = [''e'', ''e'', ''e'']"
  by code_simp+

theorem relay_logged_witness:
  "length (bk_log (snd ex_relay)) = 3
   \<and> (\<exists>m \<in> set (bk_log (snd ex_relay)). publishes_row ex_env1 ex_to_vec ''ledger.events'' (hd (t_outbox (fst ex_relay))) m)"
proof -
  obtain row where row: "t_outbox (fst ex_relay) = [row]" "ob_published_at row = Some 40000000001"
    using ex_relay_rows(1,2) by auto
  have "distinct (map ob_id (t_outbox (fst ex_relay)))"
    by (simp add: ex_relay_rows(1))
  from relay_logged [OF ex_relay_system this] row show ?thesis
    using arg_cong [OF ex_relay_rows(3), of length] by auto
qed

end
