(* ===== verification/Relay_Drain.thy ===== *)
theory Relay_Drain
  imports Relay_System
begin

text \<open>
  Progress of the relay: while neither the database nor the broker fails, every tick moves the next
  batch of pending events to the log, so enough ticks empty the outbox.
\<close>

section \<open>Ticks without failures\<close>

definition message_record :: "(LedgerEvent \<Rightarrow> string + string) \<Rightarrow> string \<Rightarrow> OutboxMessage \<Rightarrow> Message" where
  "message_record to_vec topic m =
     \<lparr>ms_topic = topic, ms_key = om_partition_key m,
      ms_payload = (case to_vec (om_event m) of Inl _ \<Rightarrow> [] | Inr p \<Rightarrow> p)\<rparr>"

lemma publish_loop_succeeds:
  assumes "\<forall>m \<in> set ms. \<exists>p. to_vec (om_event m) = Inr p"
  shows "\<exists>b'. publish_loop to_vec R no_faults topic ms s b = (map om_id ms, s, b')
    \<and> bk_log b' = bk_log b @ map (message_record to_vec topic) ms"
  using assms
proof (induction ms arbitrary: b)
  case (Cons m ms)
  obtain p where p: "to_vec (om_event m) = Inr p"
    using Cons.prems by auto
  obtain b1 where b1: "publish to_vec no_faults topic (om_partition_key m) (om_event m) b = (Inr (), b1)"
      "bk_log b1 = bk_log b @ [message_record to_vec topic m]"
    by (cases rule: publish_cases [of to_vec no_faults topic "om_partition_key m" "om_event m" b])
      (auto simp: publish_def publish_bytes_def event_to_bytes_def no_faults_def message_record_def p Let_def)
  from Cons.IH [of b1] Cons.prems b1 show ?case
    by auto
qed simp

locale draining_outbox =
  fixes R :: "'s outbox_ports"
    and todo :: "'s \<Rightarrow> OutboxMessage list"
    and quiet :: "'s \<Rightarrow> bool"
  assumes claim_batch: "quiet s \<Longrightarrow> op_claim R n l s = (r, s1) \<Longrightarrow> r = Inr (take (unat n) (todo s))"
    and claim_nothing: "quiet s \<Longrightarrow> op_claim R n l s = (r, s1) \<Longrightarrow> r = Inr [] \<Longrightarrow> quiet s1 \<and> todo s1 = todo s"
    and mark_batch: "quiet s \<Longrightarrow> op_claim R n l s = (r, s1)
      \<Longrightarrow> op_mark_published R (map om_id (take (unat n) (todo s))) s1 = (r', s2)
      \<Longrightarrow> (\<exists>k. r' = Inr k) \<and> quiet s2 \<and> todo s2 = drop (unat n) (todo s)"
begin

lemma tick_drains:
  assumes "quiet s" and "n \<noteq> 0" and "\<forall>m \<in> set (todo s). \<exists>p. to_vec (om_event m) = Inr p"
    and "tick to_vec R no_faults topic n l s b = (r, s', b')"
  shows "quiet s' \<and> todo s' = drop (unat n) (todo s)
    \<and> bk_log b' = bk_log b @ map (message_record to_vec topic) (take (unat n) (todo s))"
proof -
  let ?ms = "take (unat n) (todo s)"
  obtain s1 where claim: "op_claim R n l s = (Inr ?ms, s1)"
    using claim_batch [OF assms(1)] by (metis surj_pair)
  show ?thesis
  proof (cases "?ms = []")
    case True
    then have "todo s = []"
      using assms(2) by (simp add: unat_eq_zero)
    with True claim assms(4) claim_nothing [OF assms(1) claim] show ?thesis
      by (simp add: tick_def)
  next
    case False
    obtain b2 where loop: "publish_loop to_vec R no_faults topic ?ms s1 b = (map om_id ?ms, s1, b2)"
        "bk_log b2 = bk_log b @ map (message_record to_vec topic) ?ms"
      using publish_loop_succeeds [of ?ms to_vec R topic s1 b] assms(3) by (meson in_set_takeD)
    obtain r' s2 where mark: "op_mark_published R (map om_id ?ms) s1 = (r', s2)"
      by fastforce
    have "map om_id ?ms \<noteq> []"
      using False by simp
    then have "s' = s2 \<and> b' = b2"
      using assms(4) claim False loop(1) mark by (simp add: tick_def)
    with mark_batch [OF assms(1) claim mark] loop(2) show ?thesis
      by simp
  qed
qed

end

lemma relay_run_drains:
  assumes "\<forall>(R, ft) \<in> set ticks. draining_outbox R todo quiet \<and> ft = no_faults"
    and "quiet s" and "n \<noteq> 0" and "\<forall>m \<in> set (todo s). \<exists>p. to_vec (om_event m) = Inr p"
    and "length (todo s) \<le> unat n * length ticks"
    and "relay_run to_vec topic n l ticks s b = (s', b')"
  shows "quiet s' \<and> todo s' = [] \<and> bk_log b' = bk_log b @ map (message_record to_vec topic) (todo s)"
  using assms
proof (induction ticks arbitrary: s b)
  case (Cons t ticks)
  obtain R where t: "t = (R, no_faults)" "draining_outbox R todo quiet"
    using Cons.prems(1) by (cases t) auto
  obtain r s1 b1 where tick: "tick to_vec R no_faults topic n l s b = (r, s1, b1)"
    by (cases "tick to_vec R no_faults topic n l s b")
  note step = draining_outbox.tick_drains [OF t(2) Cons.prems(2,3,4) tick]
  have "quiet s' \<and> todo s' = [] \<and> bk_log b' = bk_log b1 @ map (message_record to_vec topic) (todo s1)"
  proof (rule Cons.IH)
    show "\<forall>m \<in> set (todo s1). \<exists>p. to_vec (om_event m) = Inr p"
      using Cons.prems(4) step by (metis in_set_dropD)
    show "length (todo s1) \<le> unat n * length ticks"
      using Cons.prems(5) step by simp
    show "relay_run to_vec topic n l ticks s1 b1 = (s', b')"
      using Cons.prems(6) t(1) tick by simp
  qed (use Cons.prems(1,3) step in auto)
  with step show ?case
    by (simp flip: map_append)
qed simp

section \<open>The outbox table drains\<close>

abbreviation unpublished :: "Db \<Rightarrow> PgOutboxRow list" where
  "unpublished db \<equiv> filter (\<lambda>row. ob_published_at row = None) (t_outbox db)"

definition pending_rows :: "Db \<Rightarrow> PgOutboxRow list" where
  "pending_rows db = sort_key (\<lambda>row. sint (ob_id row)) (unpublished db)"

definition pending_messages :: "pg_env \<Rightarrow> Db \<Rightarrow> OutboxMessage list" where
  "pending_messages env db = map (projr \<circ> pg_message env) (pending_rows db)"

definition quiet_outbox :: "pg_env \<Rightarrow> datetime \<Rightarrow> Db \<Rightarrow> bool" where
  "quiet_outbox env t0 db \<longleftrightarrow>
     distinct (map ob_id (t_outbox db))
     \<and> (\<forall>row \<in> set (unpublished db). pg_claimable t0 row \<and> (\<exists>m. pg_message env row = Inr m))"

lemma pending_rows_unpublished: "set (pending_rows db) = set (unpublished db)"
  by (simp add: pending_rows_def)

lemma map_projr: "\<forall>x \<in> set xs. \<exists>y. f x = Inr y \<Longrightarrow> map f xs = map Inr (map (projr \<circ> f) xs)"
  by (induction xs) auto

lemma pg_claim_rows_succeeds:
  "\<forall>row \<in> set rows. \<exists>m. pg_message env row = Inr m
     \<Longrightarrow> \<exists>s'. pg_claim_rows env no_faults until rows (db, n) = (Inr (map (projr \<circ> pg_message env) rows), s')"
proof (induction rows arbitrary: db n)
  case (Cons row rows)
  obtain m where "pg_message env row = Inr m"
    using Cons.prems by auto
  with Cons.IH [of "lease_row until (ob_id row) db" "Suc n"] Cons.prems show ?case
    by (auto simp: tx_bind_def tx_err_def)
qed simp

lemma quiet_claim:
  assumes "quiet_outbox env t0 db" and "t0 \<le> now"
  obtains db1 where "pg_claim env no_faults now (\<lambda>_. False) limit secs db
      = (Inr (take (unat limit) (pending_messages env db)), db1)"
    "t_outbox db1 = map (\<lambda>row. if ob_id row \<in> ob_id ` set (take (unat limit) (pending_rows db))
       then row\<lparr>ob_leased_until := Some (now + lease_seconds secs * 1000000000)\<rparr> else row) (t_outbox db)"
proof -
  have "pg_claimable now row \<longleftrightarrow> ob_published_at row = None" if "row \<in> set (t_outbox db)" for row
    using assms that by (force simp: quiet_outbox_def pg_claimable_def split: option.splits)
  then have rows: "filter (\<lambda>row. pg_claimable now row \<and> \<not> False) (t_outbox db) = unpublished db"
    by (auto intro: filter_cong)
  have "\<forall>row \<in> set (take (unat limit) (pending_rows db)). \<exists>m. pg_message env row = Inr m"
    using assms(1) pending_rows_unpublished [of db] by (auto simp: quiet_outbox_def dest!: in_set_takeD)
  then obtain db1 k where "pg_claim_rows env no_faults (now + lease_seconds secs * 1000000000)
      (take (unat limit) (pending_rows db)) (db, Suc (Suc 0))
      = (Inr (map (projr \<circ> pg_message env) (take (unat limit) (pending_rows db))), db1, k)"
    using pg_claim_rows_succeeds by (metis surj_pair)
  then have claim: "pg_claim env no_faults now (\<lambda>_. False) limit secs db
      = (Inr (take (unat limit) (pending_messages env db)), db1)"
    using rows by (simp add: pg_claim_def transaction_run tx_bind_def tx_err_def pending_messages_def take_map
        flip: pending_rows_def)
  show thesis
    by (rule pg_claim_run [OF claim]) (use that [OF claim] rows in \<open>simp add: pending_rows_def\<close>)
qed

lemma drop_by_key: "distinct (map f xs) \<Longrightarrow> filter (\<lambda>x. f x \<notin> f ` set (take n xs)) xs = drop n xs"
proof -
  assume "distinct (map f xs)"
  then have "distinct (map f (take n xs @ drop n xs))"
    by simp
  then have "filter (\<lambda>x. f x \<notin> f ` set (take n xs)) (take n xs @ drop n xs) = drop n xs"
    unfolding filter_append map_append distinct_append by (auto simp: filter_empty_conv filter_id_conv)
  then show ?thesis
    by simp
qed

lemma filter_published:
  "\<forall>row \<in> set rows. ob_id row \<in> B \<longrightarrow> ob_published_at row = None
     \<Longrightarrow> filter (\<lambda>row. ob_published_at row = None) (map (\<lambda>row. if ob_id row \<in> B \<and> ob_published_at row = None
           then row\<lparr>ob_published_at := Some now, ob_leased_until := None, ob_last_error := None\<rparr>
           else if ob_id row \<in> B then row\<lparr>ob_leased_until := Some until\<rparr> else row) rows)
       = filter (\<lambda>row. ob_id row \<notin> B) (filter (\<lambda>row. ob_published_at row = None) rows)"
  by (induction rows) auto

lemma quiet_mark:
  assumes "quiet_outbox env t0 db"
    and "t_outbox db1 = map (\<lambda>row. if ob_id row \<in> ob_id ` set (take k (pending_rows db))
       then row\<lparr>ob_leased_until := Some until\<rparr> else row) (t_outbox db)"
    and "pg_mark_published env no_faults now' (map om_id (take k (pending_messages env db))) db1 = (r, db2)"
  shows "(\<exists>n. r = Inr n) \<and> quiet_outbox env t0 db2 \<and> pending_messages env db2 = drop k (pending_messages env db)"
proof -
  let ?batch = "ob_id ` set (take k (pending_rows db))"
  have dist: "distinct (map ob_id (t_outbox db))"
      "\<forall>row \<in> set (unpublished db). pg_claimable t0 row \<and> (\<exists>m. pg_message env row = Inr m)"
    using assms(1) unfolding quiet_outbox_def by blast+
  have "ob_id row = om_id m" if "pg_message env row = Inr m" for row m
    using that by (auto simp: pg_message_def result_simps)
  then have ids: "om_id ` set (take k (pending_messages env db)) = ?batch"
    using dist(2) pending_rows_unpublished [of db]
    by (force simp: pending_messages_def take_map image_image intro!: image_cong dest!: in_set_takeD)
  have r: "\<exists>n. r = Inr n" "t_outbox db2 = map (\<lambda>row. if ob_id row \<in> ?batch \<and> ob_published_at row = None
      then row\<lparr>ob_published_at := Some now', ob_leased_until := None, ob_last_error := None\<rparr>
      else if ob_id row \<in> ?batch then row\<lparr>ob_leased_until := Some until\<rparr> else row) (t_outbox db)"
    using assms(3) ids by (auto simp: pg_mark_published_def on_pool_def tx_err_def sql_def no_faults_def assms(2)
        pg_publishes_def)
  have batch: "\<exists>row' \<in> set (unpublished db). ob_id row' = ob_id row" if "ob_id row \<in> ?batch" for row
    using that pending_rows_unpublished [of db] by (force dest!: in_set_takeD)
  then have new: "ob_published_at row = None" if "ob_id row \<in> ?batch" "row \<in> set (t_outbox db)" for row
    using that dist(1) by (force simp: distinct_map dest: inj_onD)
  have rest: "unpublished db2 = filter (\<lambda>row. ob_id row \<notin> ?batch) (unpublished db)"
    unfolding r(2) by (rule filter_published) (use new in blast)
  have "distinct (map ob_id (pending_rows db))"
    using dist(1) unfolding pending_rows_def by (simp add: distinct_map inj_on_def)
  then have "pending_rows db2 = drop k (pending_rows db)"
    using drop_by_key [of ob_id "pending_rows db" k] unfolding pending_rows_def [of db2] rest
    by (simp only: pending_rows_def [of db, THEN arg_cong, of "filter _"] filter_sort)
  moreover have "map ob_id (t_outbox db2) = map ob_id (t_outbox db)"
    unfolding r(2) by simp
  ultimately show ?thesis
    using r(1) dist rest by (auto simp: quiet_outbox_def pending_messages_def drop_map)
qed

interpretation pg_drain: draining_outbox "pg_outbox env no_relay_faults (\<lambda>_. False) (max t0 now) now'"
  "pending_messages env" "quiet_outbox env t0" for env t0 now now'
proof
  fix s s1 :: Db and n l r
  assume s: "quiet_outbox env t0 s"
    and claim: "op_claim (pg_outbox env no_relay_faults (\<lambda>_. False) (max t0 now) now') n l s = (r, s1)"
  obtain db1 where db1: "pg_claim env no_faults (max t0 now) (\<lambda>_. False) n (as_secs l) s
        = (Inr (take (unat n) (pending_messages env s)), db1)"
      "t_outbox db1 = map (\<lambda>row. if ob_id row \<in> ob_id ` set (take (unat n) (pending_rows s))
         then row\<lparr>ob_leased_until := Some (max t0 now + lease_seconds (as_secs l) * 1000000000)\<rparr> else row) (t_outbox s)"
    by (rule quiet_claim [OF s max.cobounded1])
  show r: "r = Inr (take (unat n) (pending_messages env s))"
    using claim db1(1) by (simp add: pg_outbox_def no_relay_faults_def)
  show "quiet_outbox env t0 s1 \<and> pending_messages env s1 = pending_messages env s" if "r = Inr []"
  proof -
    have "ob_id ` set (take (unat n) (pending_rows s)) = {}"
      using that r by (auto simp: pending_messages_def)
    then have "t_outbox s1 = t_outbox s"
      using claim db1 by (simp only: empty_iff if_False list.map_ident) (simp add: pg_outbox_def no_relay_faults_def)
    with s show ?thesis
      by (simp add: quiet_outbox_def pending_messages_def pending_rows_def)
  qed
  fix r' s2
  assume "op_mark_published (pg_outbox env no_relay_faults (\<lambda>_. False) (max t0 now) now')
      (map om_id (take (unat n) (pending_messages env s))) s1 = (r', s2)"
  moreover have "s1 = db1"
    using claim db1(1) by (simp add: pg_outbox_def no_relay_faults_def)
  ultimately have "pg_mark_published env no_faults now' (map om_id (take (unat n) (pending_messages env s))) db1 = (r', s2)"
    by (simp add: pg_outbox_def no_relay_faults_def)
  from quiet_mark [OF s db1(2) this]
  show "(\<exists>k. r' = Inr k) \<and> quiet_outbox env t0 s2 \<and> pending_messages env s2 = drop (unat n) (pending_messages env s)" .
qed

section \<open>Progress\<close>

lemma reachable_decodes:
  assumes "pg_reach env db" and "event_codec env" and "row \<in> set (t_outbox db)"
  shows "\<exists>m. pg_message env row = Inr m"
proof -
  obtain st where "db_rel env db st"
    using pg_reach_sim [OF assms(1)] by blast
  then have "list_all2 (event_row env) (t_outbox db) (events st)"
    by (simp add: db_rel_def)
  then obtain ev where "event_row env row ev"
    using list_all2_member(1) [OF _ assms(3)] by blast
  then show ?thesis
    using assms(2) by (auto simp: event_row_def event_codec_def pg_message_def event_from_payload_def)
qed

definition quiet_ticks :: "pg_env \<Rightarrow> (datetime \<times> datetime) list \<Rightarrow> (Db outbox_ports \<times> faults) list" where
  "quiet_ticks env clocks = map (\<lambda>(now, now'). (pg_outbox env no_relay_faults (\<lambda>_. False) now now', no_faults)) clocks"

lemma length_pending: "length (pending_messages env db) = length (unpublished db)"
  by (simp add: pending_messages_def pending_rows_def)

lemma length_ticks: "length (quiet_ticks env clocks) = length clocks"
  by (simp add: quiet_ticks_def)

text \<open>
  C22. The relay drains the outbox.  From any state of the system, once the leases have run out by
  the time of the first tick, the pending events can be encoded and neither the database nor the
  broker fails, ticks enough to hold the backlog in batches leave no row unpublished, and have
  appended the pending events to the log, each once and in the order of their ids.
\<close>

theorem relay_drains:
  assumes "relay_system env to_vec topic db b" and "event_codec env" and "distinct (map ob_id (t_outbox db))"
    and "\<forall>m \<in> set (pending_messages env db). \<exists>p. to_vec (om_event m) = Inr p"
    and "\<forall>row \<in> set (unpublished db). pg_claimable t0 row" and "\<forall>(now, now') \<in> set clocks. t0 \<le> now"
    and "n \<noteq> 0" and "length (unpublished db) \<le> unat n * length clocks"
    and "relay_run to_vec topic n lease (quiet_ticks env clocks) db b = (db', b')"
  shows "unpublished db' = []
    \<and> bk_log b' = bk_log b @ map (message_record to_vec topic) (pending_messages env db)"
proof -
  have "\<forall>(R, ft) \<in> set (quiet_ticks env clocks).
      draining_outbox R (pending_messages env) (quiet_outbox env t0) \<and> ft = no_faults"
  proof (clarsimp simp: quiet_ticks_def)
    fix now now'
    assume "(now, now') \<in> set clocks"
    then have "max t0 now = now"
      using assms(6) by (auto simp: max_def)
    with pg_drain.draining_outbox_axioms [of env t0 now now']
    show "draining_outbox (pg_outbox env no_relay_faults (\<lambda>_. False) now now') (pending_messages env) (quiet_outbox env t0)"
      by simp
  qed
  moreover have "quiet_outbox env t0 db"
    using assms(3,5) reachable_decodes [OF _ assms(2)] relay_system_inv [OF assms(1)] by (auto simp: quiet_outbox_def)
  ultimately have "pending_messages env db' = []
      \<and> bk_log b' = bk_log b @ map (message_record to_vec topic) (pending_messages env db)"
    using relay_run_drains [OF _ _ assms(7) _ _ assms(9), of "pending_messages env" "quiet_outbox env t0"] assms(4,8)
    by (simp add: length_pending length_ticks)
  then show ?thesis
    using pending_rows_unpublished [of db'] by (simp add: pending_messages_def)
qed

section \<open>An instance\<close>

definition ex_drained :: "Db \<times> Broker" where
  "ex_drained = relay_run ex_to_vec ''ledger.events'' 10 (from_millis 30000) (quiet_ticks ex_env1 [(30, 31)]) ex_db1 Broker_empty"

theorem relay_drains_witness:
  "unpublished (fst ex_drained) = []
   \<and> bk_log (snd ex_drained) = [\<lparr>ms_topic = ''ledger.events'', ms_key = ev_aggregate_id ex_ev, ms_payload = ''e''\<rparr>]"
proof -
  have codec: "event_codec ex_env1"
    by (simp add: event_codec_def ex_env1_def)
  have rows: "map ob_id (t_outbox ex_db1) = [20]" "length (unpublished ex_db1) = 1"
      "list_all (pg_claimable 30) (unpublished ex_db1)"
      "map (message_record ex_to_vec ''ledger.events'') (pending_messages ex_env1 ex_db1)
        = [\<lparr>ms_topic = ''ledger.events'', ms_key = ev_aggregate_id ex_ev, ms_payload = ''e''\<rparr>]"
      "list_all (\<lambda>m. ex_to_vec (om_event m) = Inr ''e'') (pending_messages ex_env1 ex_db1)"
    by code_simp+
  have run: "relay_run ex_to_vec ''ledger.events'' 10 (from_millis 30000) (quiet_ticks ex_env1 [(30, 31)]) ex_db1 Broker_empty
      = (fst ex_drained, snd ex_drained)"
    by (simp add: ex_drained_def)
  have "unpublished (fst ex_drained) = [] \<and> bk_log (snd ex_drained) = bk_log Broker_empty
      @ map (message_record ex_to_vec ''ledger.events'') (pending_messages ex_env1 ex_db1)"
    by (rule relay_drains [OF ex_system codec _ _ _ _ _ _ run, of 30])
      (use rows in \<open>auto simp: list_all_iff\<close>)
  then show ?thesis
    using rows(4) by (simp add: Broker_empty_def)
qed

end
