(* ===== verification/Consumer_Props.thy ===== *)
theory Consumer_Props
  imports Relay_Drain
begin

text \<open>
  The consumer loop over any handler and over the projector: what it retries, what it dead-letters,
  and that a projection fed from the broker's log, under any failures and redeliveries, ends with
  the balances of the ledger.
\<close>

section \<open>The retry loop\<close>

text \<open>The state after handing one event over and over.\<close>

fun attempts :: "(LedgerEvent \<Rightarrow> 's \<Rightarrow> (BusError + unit) \<times> 's) \<Rightarrow> LedgerEvent list \<Rightarrow> 's \<Rightarrow> 's" where
  "attempts handler [] s = s"
| "attempts handler (e # es) s = attempts handler es (snd (handler e s))"

lemma attempts_append: "attempts handler (xs @ ys) s = attempts handler ys (attempts handler xs s)"
  by (induction xs arbitrary: s) simp_all

text \<open>Every branch of the loop: an attempt succeeds, or all of the remaining ones fail.\<close>

lemma handle_attempts_cases:
  assumes "handle_attempts handler to_vec ft dlq event attempt s b = (r, s', b')" and "attempt < 6"
  obtains (handled) k s1 where "k < 6 - attempt" "s1 = attempts handler (replicate k event) s"
      "handler event s1 = (Inr (), s')" "r = Inr True" "b' = b"
    | (dead) err where "s' = attempts handler (replicate (6 - attempt) event) s"
      "\<And>k. k < 6 - attempt \<Longrightarrow> \<exists>e. fst (handler event (attempts handler (replicate k event) s)) = Inl e"
      "send_dlq to_vec ft dlq event b = (err, b')" "r = map_sum id (\<lambda>_. False) err"
  using assms
proof (induction "6 - attempt" arbitrary: attempt s thesis)
  case (Suc n)
  obtain h s1 where h: "handler event s = (h, s1)"
    by fastforce
  show ?case
  proof (cases h)
    case (Inr u)
    show ?thesis
      by (rule Suc.prems(1) [of 0 s])
        (use Suc.prems(3,4) h Inr in \<open>simp_all add: handle_attempts.simps [of _ _ _ _ _ attempt]\<close>)
  next
    case (Inl e)
    show ?thesis
    proof (cases "attempt = 5")
      case True
      obtain d b1 where "send_dlq to_vec ft dlq event b = (d, b1)"
        by fastforce
      with True Suc.prems(3) h Inl show ?thesis
        by (intro Suc.prems(2) [of d]) (auto simp: handle_attempts.simps [of _ _ _ _ _ 5] split: sum.splits)
    next
      case False
      then have n: "n = 6 - Suc attempt" "Suc attempt < 6"
        using Suc.hyps(2) Suc.prems(4) by auto
      have rest: "handle_attempts handler to_vec ft dlq event (Suc attempt) s1 b = (r, s', b')"
        using Suc.prems(3,4) False h Inl by (simp add: handle_attempts.simps [of _ _ _ _ _ attempt])
      show ?thesis
      proof (rule Suc.hyps(1) [OF n(1) _ _ rest n(2)])
        fix k s2
        assume "k < 6 - Suc attempt" "s2 = attempts handler (replicate k event) s1"
          "handler event s2 = (Inr (), s')" "r = Inr True" "b' = b"
        then show ?thesis
          using h by (intro Suc.prems(1) [of "Suc k" s2]) simp_all
      next
        fix err
        assume dead: "s' = attempts handler (replicate (6 - Suc attempt) event) s1"
          "\<And>k. k < 6 - Suc attempt \<Longrightarrow> \<exists>e. fst (handler event (attempts handler (replicate k event) s1)) = Inl e"
          "send_dlq to_vec ft dlq event b = (err, b')" "r = map_sum id (\<lambda>_. False) err"
        have "\<exists>e. fst (handler event (attempts handler (replicate k event) s)) = Inl e" if "k < 6 - attempt" for k
          using that dead(2) [of "k - 1"] h Inl n by (cases k) auto
        then show ?thesis
          using dead h n Suc.hyps(2) by (intro Suc.prems(2) [of err]) (simp_all flip: Suc.hyps(2))
      qed
    qed
  qed
qed simp

text \<open>The loop only ever hands over its event.\<close>

lemma handle_attempts_trace:
  assumes "handle_attempts handler to_vec ft dlq event 0 s b = (r, s', b')"
  shows "\<exists>k. s' = attempts handler (replicate k event) s"
  using assms zero_less_numeral
proof (cases rule: handle_attempts_cases)
  case (handled k s1)
  then have "s' = attempts handler (replicate k event @ [event]) s"
    by (simp add: attempts_append)
  then show ?thesis
    by (metis replicate_Suc replicate_append_same)
qed auto

section \<open>The loop over messages\<close>

definition decoded :: "(string \<Rightarrow> string + LedgerEvent) \<Rightarrow> Received \<Rightarrow> DomainError + LedgerEvent" where
  "decoded from_slice m = event_from_bytes from_slice (case rv_payload m of None \<Rightarrow> [] | Some p \<Rightarrow> p)"

lemma consume_message_cases:
  assumes "consume_message handler to_vec from_slice ft dlq m c = (r, c')"
  obtains (skipped) err where "decoded from_slice m = Inl err" "c' = c" "r = Inr ()"
    | (unhandled) e k where "decoded from_slice m = Inr e" "cn_app c' = attempts handler (replicate k e) (cn_app c)"
      "cn_stores c' = cn_stores c"
    | (handled) e k s1 where "decoded from_slice m = Inr e" "cn_app c' = attempts handler (replicate k e) (cn_app c)"
      "cn_stores c' = cn_stores c @ [(rv_offset m, rv_store_error m)]" "handler e s1 = (Inr (), cn_app c')"
proof (cases "decoded from_slice m")
  case (Inl err)
  with assms show thesis
    by (intro skipped) (auto simp: consume_message_def decoded_def Let_def)
next
  case (Inr e)
  obtain h s' b' where h: "handle_attempts handler to_vec ft dlq e 0 (cn_app c) (cn_broker c) = (h, s', b')"
    by (cases "handle_attempts handler to_vec ft dlq e 0 (cn_app c) (cn_broker c)")
  obtain k where k: "s' = attempts handler (replicate k e) (cn_app c)"
    using handle_attempts_trace [OF h] by blast
  have c': "cn_app c' = s'" "cn_stores c' = (if h = Inr True then cn_stores c @ [(rv_offset m, rv_store_error m)] else cn_stores c)"
    using assms h Inr by (auto simp: consume_message_def decoded_def Let_def split: sum.splits if_splits)
  show thesis
    using h zero_less_numeral
  proof (cases rule: handle_attempts_cases)
    case (handled k' s1)
    then show thesis
      using that(3) [OF Inr] k c' by simp
  next
    case (dead err)
    then have "h \<noteq> Inr True"
      by (cases err) auto
    then show thesis
      using unhandled [OF Inr] k c' by simp
  qed
qed

lemma consumer_run_trace:
  assumes "consumer_run handler to_vec from_slice ft dlq rs c = (r, c')"
  shows "\<exists>es. cn_app c' = attempts handler es (cn_app c)
      \<and> (\<forall>e \<in> set es. \<exists>m. Inr m \<in> set rs \<and> decoded from_slice m = Inr e)"
    and "length (cn_stores c') \<le> length (cn_stores c) + length rs"
proof -
  have "(\<exists>es. cn_app c' = attempts handler es (cn_app c)
      \<and> (\<forall>e \<in> set es. \<exists>m. Inr m \<in> set rs \<and> decoded from_slice m = Inr e))
    \<and> length (cn_stores c') \<le> length (cn_stores c) + length rs"
    using assms
  proof (induction rs arbitrary: c)
    case Nil
    then show ?case
      by (auto intro: exI [of _ "[]"])
  next
    case (Cons x rs)
    show ?case
    proof (cases x)
      case (Inl err)
      with Cons.prems show ?thesis
        by (auto intro: exI [of _ "[]"])
    next
      case (Inr m)
      obtain q c1 where q: "consume_message handler to_vec from_slice ft dlq m c = (q, c1)"
        by fastforce
      obtain es1 where first: "cn_app c1 = attempts handler es1 (cn_app c)"
          "\<forall>e \<in> set es1. decoded from_slice m = Inr e" "length (cn_stores c1) \<le> Suc (length (cn_stores c))"
        using q by (cases rule: consume_message_cases) (fastforce intro: that [of "[]"], fastforce intro: that, fastforce intro: that)
      obtain es2 where rest: "cn_app c' = attempts handler es2 (cn_app c1)"
          "\<forall>e \<in> set es2. \<exists>m. Inr m \<in> set rs \<and> decoded from_slice m = Inr e"
          "length (cn_stores c') \<le> length (cn_stores c1) + length rs"
      proof (cases q)
        case (Inl err)
        with Cons.prems Inr q show thesis
          by (intro that [of "[]"]) simp_all
      next
        case (Inr u)
        with Cons.prems \<open>x = Inr m\<close> q Cons.IH [of c1] show thesis
          using that by auto
      qed
      have "cn_app c' = attempts handler (es1 @ es2) (cn_app c)"
        by (simp add: attempts_append first(1) rest(1))
      moreover have "\<forall>e \<in> set (es1 @ es2). \<exists>m. Inr m \<in> set (x # rs) \<and> decoded from_slice m = Inr e"
        using first(2) rest(2) Inr by auto
      ultimately show ?thesis
        using first(3) rest(3) by (intro conjI exI [of _ "es1 @ es2"]) auto
    qed
  qed
  then show "\<exists>es. cn_app c' = attempts handler es (cn_app c)
      \<and> (\<forall>e \<in> set es. \<exists>m. Inr m \<in> set rs \<and> decoded from_slice m = Inr e)"
    "length (cn_stores c') \<le> length (cn_stores c) + length rs"
    by blast+
qed

text \<open>
  A handler whose successes are remembered: once an event is handled its effect is there, and handing
  over other events does not undo it.  If the run stored an offset for every message, every message
  was an event and every event has its effect.
\<close>

locale event_sink =
  fixes handler :: "LedgerEvent \<Rightarrow> 's \<Rightarrow> (BusError + unit) \<times> 's"
    and applied :: "LedgerEvent \<Rightarrow> 's \<Rightarrow> bool"
  assumes handled_applied: "handler e s = (Inr u, s') \<Longrightarrow> applied e s'"
    and applied_stays: "applied e s \<Longrightarrow> applied e (snd (handler e' s))"
begin

lemma attempts_stay: "applied e s \<Longrightarrow> applied e (attempts handler es s)"
  by (induction es arbitrary: s) (simp_all add: applied_stays)

lemma run_applied:
  assumes "consumer_run handler to_vec from_slice ft dlq (map Inr ms) c = (Inr (), c')"
    and "length (cn_stores c') = length (cn_stores c) + length ms" and "m \<in> set ms"
  shows "\<exists>e. decoded from_slice m = Inr e \<and> applied e (cn_app c')"
  using assms
proof (induction ms arbitrary: c)
  case (Cons x ms)
  obtain c1 where c1: "consume_message handler to_vec from_slice ft dlq x c = (Inr (), c1)"
      "consumer_run handler to_vec from_slice ft dlq (map Inr ms) c1 = (Inr (), c')"
    using Cons.prems(1) by (auto split: prod.splits sum.splits)
  note trace = consumer_run_trace [OF c1(2)]
  from c1(1) show ?case
  proof (cases rule: consume_message_cases)
    case (handled e k s1)
    have "applied e (cn_app c')"
      using handled_applied [OF handled(4)] trace(1) attempts_stay by auto
    then show ?thesis
      using Cons.IH [OF c1(2)] Cons.prems(2,3) handled(1,3) by auto
  qed (use trace(2) Cons.prems(2) in simp_all)
qed simp

end

section \<open>The projector as a sink\<close>

text \<open>
  The handler of the projector service on the database; \<open>calls\<close> gives the faults and the clock of its
  n-th call.
\<close>

definition pg_handler ::
    "pg_env \<Rightarrow> (nat \<Rightarrow> faults \<times> datetime) \<Rightarrow> string \<Rightarrow> LedgerEvent \<Rightarrow> Db \<times> nat \<Rightarrow> (BusError + unit) \<times> Db \<times> nat" where
  "pg_handler env calls consumer event = (\<lambda>(db, n).
     case projector_handler (pg_projection env (fst (calls n)) (snd (calls n))) consumer event db of
       (r, db') \<Rightarrow> (r, db', Suc n))"

lemma pg_handler_state:
  "snd (pg_handler env calls consumer e (db, n))
     = (snd (project_event (pg_projection env (fst (calls n)) (snd (calls n))) consumer e db), Suc n)"
  by (auto simp: pg_handler_def projector_handler_def split: prod.splits sum.splits)

lemma attempts_deliver:
  "\<exists>ds n'. attempts (pg_handler env calls consumer) es (db, n) = (pg_deliver_all env consumer ds db, n')
     \<and> map (snd \<circ> snd) ds = es"
proof (induction es arbitrary: db n)
  case Nil
  show ?case
    by (rule exI [of _ "[]"]) (simp add: pg_deliver_all_def)
next
  case (Cons e es)
  obtain ft now where call: "calls n = (ft, now)"
    by fastforce
  define db1 where "db1 = snd (project_event (pg_projection env ft now) consumer e db)"
  obtain ds n' where "attempts (pg_handler env calls consumer) es (db1, Suc n) = (pg_deliver_all env consumer ds db1, n')"
      "map (snd \<circ> snd) ds = es"
    using Cons.IH by blast
  then show ?case
    by (intro exI [of _ "(ft, now, e) # ds"]) (simp add: pg_handler_state call pg_deliver_all_def db1_def o_def)
qed

definition projected :: "string \<Rightarrow> LedgerEvent \<Rightarrow> Db \<times> nat \<Rightarrow> bool" where
  "projected consumer e s \<longleftrightarrow> event_postings e = [] \<or> event_uuid (ev_event_id e) \<in> pg_seen consumer (fst s)"

lemma pg_applied_seen:
  assumes "project_event (pg_projection env ft now) consumer e db = (Inr out, db')"
  shows "projected consumer e (db', n)"
proof (cases rule: project_event_cases [of e "pg_projection env ft now" consumer db])
  case (journal entry)
  have run: "pg_apply_journal env ft now consumer (ev_event_id e) entry db = (Inr out, db')"
    using assms journal(3) by (simp add: pg_projection_def)
  have "pg_apply_journal env no_faults now consumer (ev_event_id e) entry db = (Inr out, db')"
    using transaction_atomic [OF _ run [unfolded pg_apply_journal_def]] unfolding pg_apply_journal_def
    by (force intro!: no_fault_intros no_fault_project_postings)
  then show ?thesis
    by (cases rule: pg_apply_cases [of "ev_event_id e" consumer db env now entry]) (auto simp: projected_def)
qed (simp add: projected_def)

interpretation pg_sink: event_sink "pg_handler env calls consumer" "projected consumer" for env calls consumer
proof
  fix e u and s s' :: "Db \<times> nat"
  assume "pg_handler env calls consumer e s = (Inr u, s')"
  then obtain db n out where "s = (db, n)" "s' = (fst s', Suc n)"
      "project_event (pg_projection env (fst (calls n)) (snd (calls n))) consumer e db = (Inr out, fst s')"
    by (cases s) (auto simp: pg_handler_def projector_handler_def split: prod.splits sum.splits)
  then show "projected consumer e s'"
    using pg_applied_seen by (metis fst_conv projected_def)
next
  fix e e' and s :: "Db \<times> nat"
  obtain db n where s: "s = (db, n)"
    by (cases s)
  define db' where "db' = snd (project_event (pg_projection env (fst (calls n)) (snd (calls n))) consumer e' db)"
  from db'_def have "pg_seen consumer db \<subseteq> pg_seen consumer db'"
    by (cases rule: pg_delivery_cases) auto
  moreover assume "projected consumer e s"
  ultimately show "projected consumer e (snd (pg_handler env calls consumer e' s))"
    by (auto simp: projected_def s pg_handler_state db'_def)
qed

section \<open>From the ledger to the projection\<close>

lemma system_events:
  assumes "relay_system env to_vec topic db b" and "event_codec env" and "unpublished db = []"
    and "distinct (map ob_id (t_outbox db))" and "\<forall>ev p. to_vec ev = Inr p \<longrightarrow> from_slice p = Inr ev"
    and "mem_reach (pe_uuid_show env) st" and "db_rel env db st"
  shows "\<forall>m \<in> set (bk_log b). \<exists>ev \<in> set (events st). from_slice (ms_payload m) = Inr (stamped ev)"
    and "\<forall>ev \<in> set (events st). \<exists>m \<in> set (bk_log b). from_slice (ms_payload m) = Inr (stamped ev)"
proof -
  have rows: "list_all2 (event_row env) (t_outbox db) (events st)"
    using assms(7) by (simp add: db_rel_def)
  have carried: "from_slice (ms_payload m) = Inr (stamped ev)"
    if "publishes_row env to_vec topic row m" "event_row env row ev" for row m ev
  proof -
    have "event_from_payload env (ob_event_id row) (ob_payload row) (ob_created_at row) = Inr (stamped ev)"
      using sourced_event_row [OF assms(2) that(2)] by (auto simp: sourced_from_row_def result_simps)
    then show ?thesis
      using that(1) assms(5) by (auto simp: publishes_row_iff event_to_bytes_def result_simps)
  qed
  note logged = relay_system_inv [OF assms(1), THEN conjunct2]
  show "\<forall>m \<in> set (bk_log b). \<exists>ev \<in> set (events st). from_slice (ms_payload m) = Inr (stamped ev)"
  proof
    fix m
    assume "m \<in> set (bk_log b)"
    with logged obtain row where "row \<in> set (t_outbox db)" "publishes_row env to_vec topic row m"
      by (auto simp: relayed_def row_record_publishes)
    moreover from list_all2_member(1) [OF rows this(1)] obtain ev where "ev \<in> set (events st)" "event_row env row ev"
      by blast
    ultimately show "\<exists>ev \<in> set (events st). from_slice (ms_payload m) = Inr (stamped ev)"
      using carried by blast
  qed
  show "\<forall>ev \<in> set (events st). \<exists>m \<in> set (bk_log b). from_slice (ms_payload m) = Inr (stamped ev)"
  proof
    fix ev
    assume "ev \<in> set (events st)"
    from list_all2_member(2) [OF rows this] obtain row where row: "row \<in> set (t_outbox db)" "event_row env row ev"
      by blast
    then have "ob_id row \<in> pg_published db"
      using assms(3) by (auto simp: pg_published_def filter_empty_conv)
    with logged obtain m row' where m: "m \<in> set (bk_log b)" "row' \<in> set (t_outbox db)" "ob_id row' = ob_id row"
        "publishes_row env to_vec topic row' m"
      by (auto simp: relayed_def row_record_publishes)
    then have "row' = row"
      using row(1) assms(4) by (auto simp: distinct_map dest: inj_onD)
    with m row(2) carried show "\<exists>m \<in> set (bk_log b). from_slice (ms_payload m) = Inr (stamped ev)"
      by blast
  qed
qed

lemma decoded_iff:
  "decoded from_slice m = Inr e \<longleftrightarrow>
     from_slice (case rv_payload m of None \<Rightarrow> [] | Some p \<Rightarrow> p) = Inr e \<and> ev_schema_version e = 1"
  by (simp add: decoded_def event_from_bytes_Inr)

text \<open>
  Deliveries of a set of events with distinct ids, of which all that post something were applied,
  add up to the postings of the whole set.
\<close>

lemma deliveries_complete:
  assumes "distinct (map ev_event_id evs)" and "set (map (snd \<circ> snd) ds) \<subseteq> set evs"
    and "pg_seen consumer db = {}" and "pg_proj_bal consumer db = (\<lambda>_. 0)"
    and "\<forall>ev \<in> set evs. projected consumer ev (pg_deliver_all env consumer ds db, n)"
  shows "pg_proj_bal consumer (pg_deliver_all env consumer ds db) k = account_delta k (concat (map event_postings evs))"
proof -
  let ?db = "pg_deliver_all env consumer ds db" and ?D = "set (map (snd \<circ> snd) ds)"
  let ?S = "{ev \<in> ?D. event_uuid (ev_event_id ev) \<in> pg_seen consumer ?db}"
  have inj: "inj_on ev_event_id (set evs)" "distinct evs"
    using assms(1) by (simp_all add: distinct_map)
  note run = pg_deliveries [OF inj_on_subset [OF inj(1) assms(2)] assms(3,4) refl, of env k]
  have "ev \<in> ?S" if ev: "ev \<in> set evs" "event_postings ev \<noteq> []" for ev
  proof -
    have seen: "event_uuid (ev_event_id ev) \<in> pg_seen consumer ?db"
      using assms(5) ev by (auto simp: projected_def)
    from subsetD [OF conjunct1 [OF run] this]
    obtain ev' where ev': "ev' \<in> ?D" "event_uuid (ev_event_id ev') = event_uuid (ev_event_id ev)"
      by (elim imageE) simp
    then have "ev' = ev"
      using assms(2) ev(1) by (intro inj_onD [OF inj(1)]) (auto intro: EventId.expand)
    with ev' seen show ?thesis
      by simp
  qed
  then have "event_postings ev = []" if "ev \<in> set evs - ?S" for ev
    using that by blast
  then have "\<forall>ev \<in> set evs - ?S. account_delta k (event_postings ev) = 0"
    by simp
  then have "(\<Sum>ev \<in> ?S. account_delta k (event_postings ev)) = (\<Sum>ev \<in> set evs. account_delta k (event_postings ev))"
    using assms(2) by (intro sum.mono_neutral_left) auto
  also have "\<dots> = account_delta k (concat (map event_postings evs))"
    using account_delta_events [OF inj(2)] by simp
  finally show ?thesis
    using run by simp
qed

text \<open>
  C20. The projection reaches the balances of the ledger.  Take any state of the ledger and the relay
  in which no row is left unpublished, deliver the whole log to a fresh consumer, records in any
  order and any number of times, its calls failing in any way.  If the run ends and has called for storing the
  offset of every message, whether or not that succeeded, each projection row reads exactly as the balance row of the ledger.
\<close>

theorem projection_matches_ledger:
  assumes "relay_system env to_vec topic db b" and "event_codec env" and "unpublished db = []"
    and "distinct (map ob_id (t_outbox db))" and "\<forall>ev p. to_vec ev = Inr p \<longrightarrow> from_slice p = Inr ev"
    and "pg_seen consumer db = {}" and "pg_proj_bal consumer db = (\<lambda>_. 0)" and "cn_app c = (db, n)"
    and "rv_payload ` set ms = (Some \<circ> ms_payload) ` set (bk_log b)"
    and "consumer_run (pg_handler env calls consumer) to_vec from_slice ft dlq (map Inr ms) c = (Inr (), c')"
    and "length (cn_stores c') = length (cn_stores c) + length ms"
  shows "pg_proj_bal consumer (fst (cn_app c')) (AccountId u, AssetCode a) = db_balance db u a"
proof -
  obtain st where st: "mem_reach (pe_uuid_show env) st" "db_rel env db st"
    using pg_reach_sim relay_system_inv [OF assms(1)] by blast
  note log = system_events [OF assms(1-5) st] and ev = reachable_events [OF st(1)]
  obtain es where es: "cn_app c' = attempts (pg_handler env calls consumer) es (db, n)"
      "\<forall>e \<in> set es. \<exists>m \<in> set ms. decoded from_slice m = Inr e"
    using consumer_run_trace(1) [OF assms(10)] assms(8) by (auto simp: image_iff) blast
  obtain ds n' where ds: "cn_app c' = (pg_deliver_all env consumer ds db, n')" "map (snd \<circ> snd) ds = es"
    using attempts_deliver es(1) by metis
  have payload: "\<exists>m' \<in> set (bk_log b). rv_payload m = Some (ms_payload m')" if "m \<in> set ms" for m
    using imageI [OF that, of rv_payload] unfolding assms(9) by auto
  have "e \<in> set (map stamped (events st))" if "m \<in> set ms" "decoded from_slice m = Inr e" for m e
    using payload [OF that(1)] that(2) log(1) by (fastforce simp: decoded_iff)
  with es(2) ds(2) have D: "set (map (snd \<circ> snd) ds) \<subseteq> set (map stamped (events st))"
    by auto
  have "projected consumer e (cn_app c')" if e: "e \<in> set (map stamped (events st))" for e
  proof -
    obtain m' where "m' \<in> set (bk_log b)" "from_slice (ms_payload m') = Inr e"
      using log(2) e by auto
    moreover from imageI [OF this(1), of "Some \<circ> ms_payload"] obtain m where
        "m \<in> set ms" "rv_payload m = Some (ms_payload m')"
      unfolding assms(9) [symmetric] by auto
    ultimately show ?thesis
      using pg_sink.run_applied [OF assms(10,11)] by (fastforce simp: decoded_iff)
  qed
  moreover have distinct: "distinct (map ev_event_id (map stamped (events st)))"
    using ev(2) by simp
  ultimately have "pg_proj_bal consumer (pg_deliver_all env consumer ds db) (AccountId u, AssetCode a)
      = account_delta (AccountId u, AssetCode a) (journal st)"
    using deliveries_complete [OF distinct D assms(6,7), of env n'] ds(1) ev(1) by simp
  then show ?thesis
    using ds(1) ev(4) db_balance_rel [OF st(2)] mem_reach_inv [OF st(1)] by (simp add: mem_inv_def)
qed

section \<open>Dead letters and delays\<close>

text \<open>
  C33. A poison message is dead-lettered once.  When the handler rejects an event six times in a row,
  the consumer hands it over no further, puts exactly one record on the dead-letter topic, keyed
  by the aggregate of the event, stores no offset for the message, and goes on.
\<close>

theorem poison_dead_lettered:
  assumes "decoded from_slice m = Inr e"
    and "\<forall>k < 6. \<exists>err. fst (handler e (attempts handler (replicate k e) (cn_app c))) = Inl err"
    and "to_vec e = Inr p" and "ft (bk_sends (cn_broker c)) = None"
    and "consume_message handler to_vec from_slice ft dlq m c = (r, c')"
  shows "r = Inr () \<and> cn_app c' = attempts handler (replicate 6 e) (cn_app c)
    \<and> bk_log (cn_broker c') = bk_log (cn_broker c) @ [\<lparr>ms_topic = dlq, ms_key = ev_aggregate_id e, ms_payload = p\<rparr>]
    \<and> cn_stores c' = cn_stores c"
proof -
  obtain h s' b' where h: "handle_attempts handler to_vec ft dlq e 0 (cn_app c) (cn_broker c) = (h, s', b')"
    by (cases "handle_attempts handler to_vec ft dlq e 0 (cn_app c) (cn_broker c)")
  have "h = Inr False \<and> s' = attempts handler (replicate 6 e) (cn_app c)
      \<and> bk_log b' = bk_log (cn_broker c) @ [\<lparr>ms_topic = dlq, ms_key = ev_aggregate_id e, ms_payload = p\<rparr>]"
    using h zero_less_numeral
  proof (cases rule: handle_attempts_cases)
    case (handled k s1)
    then show ?thesis
      using assms(2) [rule_format, of k] by auto
  next
    case (dead err)
    with assms(3,4) show ?thesis
      by (auto simp: send_dlq_def event_to_bytes_def publish_bytes_def Let_def)
  qed
  with assms(1,5) h show ?thesis
    by (auto simp: consume_message_def decoded_def Let_def)
qed

lemma as_millis_from_millis: "as_millis (from_millis m) = unat m \<and> unat (du_nanos (from_millis m)) < 10 ^ 9"
proof -
  have small: "unat (m mod 1000) < 1000"
    by (simp add: unat_mod)
  have "unat (ucast (m mod 1000) :: u32) = unat (m mod 1000)"
    using small by (simp add: unsigned_ucast_eq take_bit_nat_eq_self)
  then have "unat (ucast (m mod 1000) * 1000000 :: u32) = unat (m mod 1000) * 1000000"
    using small by (subst unat_mult_lem [THEN iffD1]) simp_all
  then show ?thesis
    using small by (simp add: as_millis_def from_millis_def unat_div unat_mod)
qed

text \<open>
  C36. The delay before a retry.  When the maximum leaves room for the jitter in 64 bits, the delay
  is, in milliseconds, the base doubled per attempt, at most twelve times, capped at the maximum,
  plus 13 for each unit of the attempt number modulo seven: it never exceeds the maximum by more
  than 78 milliseconds.
\<close>

theorem backoff_delay_exact:
  assumes "as_millis max_delay + 78 < 2 ^ 64"
  shows "as_millis (backoff_delay attempt base max_delay)
      = min (as_millis base * 2 ^ min (unat attempt) 12) (as_millis max_delay) + 13 * (unat attempt mod 7)
    \<and> as_millis (backoff_delay attempt base max_delay) \<le> as_millis max_delay + 78"
proof -
  let ?millis = "min (as_millis base * 2 ^ min (unat attempt) 12) (as_millis max_delay) + 13 * (unat attempt mod 7)"
  have pow: "(2 :: nat) ^ min (unat attempt) 12 \<le> 2 ^ 12"
    by (rule power_increasing) simp_all
  have jitter: "13 * (unat attempt mod 7) \<le> 78"
    using mod_less_divisor [of 7 "unat attempt"] by linarith
  have capped: "?millis \<le> as_millis max_delay + 78"
    using jitter by linarith
  have "saturate 32 (2 ^ min (unat attempt) 12) = 2 ^ min (unat attempt) 12"
    using pow by (simp add: saturate_def)
  moreover have "min (saturate 128 x) (as_millis max_delay) = min x (as_millis max_delay)" for x
    using assms by (simp add: saturate_def min_def)
  moreover have "saturate 128 x = x" if "x \<le> as_millis max_delay + 78" for x
    using that assms by (simp add: saturate_def)
  ultimately have "backoff_delay attempt base max_delay = from_millis (of_nat ?millis)"
    unfolding backoff_delay_def Let_def using jitter capped assms
    by (subst if_P) (simp_all add: mult.commute del: min.absorb1 min.absorb2 min_le_iff_disj)
  moreover have "unat (of_nat x :: u64) = x" if "x < 2 ^ 64" for x
    using that by (simp add: unat_of_nat)
  then have "unat (of_nat ?millis :: u64) = ?millis"
    using capped assms by (meson le_less_trans)
  ultimately show ?thesis
    using capped by (simp add: as_millis_from_millis)
qed

section \<open>Instances\<close>

text \<open>The first call of the projector fails, the second one succeeds but its answer is lost.\<close>

definition ex_calls :: "nat \<Rightarrow> faults \<times> datetime" where
  "ex_calls n = ((if n = 0 then no_faults(2 := Some (Failed ''timeout''))
     else if n = 1 then no_faults(6 := Some (Lost ''connection reset'')) else no_faults), 60 + int n)"

definition ex_received :: "Received list" where
  "ex_received = [\<lparr>rv_payload = Some ''e'', rv_offset = 0, rv_store_error = None\<rparr>, 
     \<lparr>rv_payload = Some ''e'', rv_offset = 1, rv_store_error = Some ''erroneous state''\<rparr>]"

definition ex_consumer :: "(Db \<times> nat) Consumer" where
  "ex_consumer = \<lparr>cn_app = (fst ex_relay, 0), cn_broker = Broker_empty, cn_stores = []\<rparr>"

definition ex_consumed :: "(BusError + unit) \<times> (Db \<times> nat) Consumer" where
  "ex_consumed = consumer_run (pg_handler ex_env1 ex_calls ''c'') ex_to_vec (\<lambda>_. Inr (stamped ex_ev)) no_faults ''dlq''
     (map Inr ex_received) ex_consumer"

theorem projection_matches_ledger_witness:
  "pg_proj_bal ''c'' (fst (cn_app (snd ex_consumed))) (AccountId 1, AssetCode ''BTC'') = 100"
proof -
  have codec: "event_codec ex_env1"
    by (simp add: event_codec_def ex_env1_def)
  have bytes: "\<forall>ev p. ex_to_vec ev = Inr p \<longrightarrow> (\<lambda>_. Inr (stamped ex_ev)) p = (Inr ev :: string + LedgerEvent)"
    by (simp add: ex_to_vec_def)
  have rows: "unpublished (fst ex_relay) = []" "distinct (map ob_id (t_outbox (fst ex_relay)))"
    using ex_relay_rows(1,2) by auto
  have tables: "t_processed (fst ex_relay) = []" "t_projection (fst ex_relay) = []"
    by code_simp+
  then have fresh: "pg_seen ''c'' (fst ex_relay) = {}" "pg_proj_bal ''c'' (fst ex_relay) = (\<lambda>_. 0)"
    by (simp_all add: pg_seen_def pg_proj_bal_def fun_eq_iff)
  have log: "rv_payload ` set ex_received = (Some \<circ> ms_payload) ` set (bk_log (snd ex_relay))"
    using arg_cong [OF ex_relay_rows(3), of "\<lambda>ps. Some ` set ps"] by (simp add: ex_received_def image_image)
  have "fst ex_consumed = Inr ()" "cn_stores (snd ex_consumed) = [(0, None), (1, Some ''erroneous state'')]"
      "db_balance (fst ex_relay) 1 ''BTC'' = 100"
    by code_simp+
  moreover from this(1) have "consumer_run (pg_handler ex_env1 ex_calls ''c'') ex_to_vec (\<lambda>_. Inr (stamped ex_ev)) no_faults ''dlq''
      (map Inr ex_received) ex_consumer = (Inr (), snd ex_consumed)"
    by (simp add: ex_consumed_def prod_eq_iff)
  ultimately show ?thesis
    using projection_matches_ledger [OF ex_relay_system codec rows bytes fresh _ log, of ex_consumer 0 ex_calls no_faults
        "''dlq''" "snd ex_consumed" 1 "''BTC''"]
    by (simp add: ex_consumer_def ex_received_def)
qed

definition ex_reject :: "LedgerEvent \<Rightarrow> nat \<Rightarrow> (BusError + unit) \<times> nat" where
  "ex_reject ev n = (Inl (Consume ''rejected''), Suc n)"

definition ex_start :: "nat Consumer" where
  "ex_start = \<lparr>cn_app = 0, cn_broker = Broker_empty, cn_stores = []\<rparr>"

definition ex_rejected :: "(BusError + unit) \<times> nat Consumer" where
  "ex_rejected = consume_message ex_reject ex_to_vec (\<lambda>_. Inr (stamped ex_ev)) no_faults ''dlq'' (hd ex_received) ex_start"

theorem poison_dead_lettered_witness:
  "fst ex_rejected = Inr () \<and> cn_app (snd ex_rejected) = 6
   \<and> bk_log (cn_broker (snd ex_rejected)) = [\<lparr>ms_topic = ''dlq'', ms_key = ev_aggregate_id (stamped ex_ev), ms_payload = ''e''\<rparr>]"
proof -
  have ev: "decoded (\<lambda>_. Inr (stamped ex_ev)) (hd ex_received) = Inr (stamped ex_ev)"
    by code_simp
  have run: "consume_message ex_reject ex_to_vec (\<lambda>_. Inr (stamped ex_ev)) no_faults ''dlq'' (hd ex_received) ex_start
      = (fst ex_rejected, snd ex_rejected)"
    by (simp add: ex_rejected_def)
  have six: "attempts ex_reject (replicate 6 (stamped ex_ev)) 0 = 6"
    by (simp add: numeral_eq_Suc ex_reject_def)
  from poison_dead_lettered [OF ev _ _ _ run, of "''e''"] show ?thesis
    by (simp add: ex_reject_def ex_to_vec_def ex_start_def no_faults_def Broker_empty_def six)
qed

theorem backoff_delay_exact_witness:
  "as_millis (backoff_delay 3 (from_millis 100) (from_millis 5000)) = 839"
  using backoff_delay_exact [of "from_millis 5000" 3 "from_millis 100"]
  by (simp add: as_millis_from_millis)

end
