(* ===== verification/Grpc.thy ===== *)
theory Grpc
  imports Service Reconciler
begin

text \<open>
  \<open>crates/api-grpc\<close>: the mapping between protobuf messages and the ledger's types (\<open>map.rs\<close>) and the
  RPC handlers (\<open>server.rs\<close>).  The messages are those of \<open>proto/ironledger/v1/ledger.proto\<close>; an
  enumeration travels as an \<open>i32\<close>.

  \<open>uuid_parse\<close> and \<open>uuid_show\<close> belong to the \<open>uuid\<close> crate, \<open>rfc3339\<close> is \<open>to_rfc3339\<close> of \<open>chrono\<close>.
\<close>

section \<open>Messages\<close>

record PbCommandContext =
  cc_idempotency_key :: string
  cc_correlation_id :: string
  cc_causation_id :: string

record PbAuditMetadata =
  pu_actor :: string
  pu_reason :: string
  pu_ticket_id :: string

record PbAccount =
  pa_id :: string
  pa_name :: string
  pa_kind :: i32
  pa_policy :: i32
  pa_status :: i32
  pa_created_at :: string

record PbPosting =
  pp_account_id :: string
  pp_asset :: string
  pp_amount_atomic :: string
  pp_side :: i32

record PbJournalEntry =
  pj_transaction_id :: string
  pj_idempotency_key :: string
  pj_description :: string
  pj_postings :: "PbPosting list"
  pj_status :: string
  pj_correlation_id :: string
  pj_causation_id :: string
  pj_created_at :: string

record PbBalance =
  pb_account_id :: string
  pb_asset :: string
  pb_amount_atomic :: string
  pb_updated_at :: string

record PbCommandResult =
  pr_transaction_id :: string
  pr_replayed :: bool
  pr_posted_at :: string

record CreateAccountRequest =
  qa_context :: "PbCommandContext option"
  qa_name :: string
  qa_kind :: i32
  qa_policy :: i32

record SubmitJournalEntryRequest =
  qs_context :: "PbCommandContext option"
  qs_description :: string
  qs_postings :: "PbPosting list"

record RecordDepositRequest =
  qd_context :: "PbCommandContext option"
  qd_customer_available_account_id :: string
  qd_deposit_clearing_account_id :: string
  qd_hot_wallet_account_id :: string
  qd_asset :: string
  qd_amount_atomic :: string
  qd_external_reference :: string

record RequestWithdrawalRequest =
  qw_context :: "PbCommandContext option"
  qw_customer_available_account_id :: string
  qw_customer_locked_account_id :: string
  qw_asset :: string
  qw_amount_atomic :: string
  qw_destination_reference :: string

record CompleteWithdrawalRequest =
  qc_context :: "PbCommandContext option"
  qc_customer_locked_account_id :: string
  qc_withdrawal_clearing_account_id :: string
  qc_hot_wallet_account_id :: string
  qc_asset :: string
  qc_amount_atomic :: string
  qc_settlement_reference :: string

record RejectWithdrawalRequest =
  qj_context :: "PbCommandContext option"
  qj_customer_locked_account_id :: string
  qj_customer_available_account_id :: string
  qj_asset :: string
  qj_amount_atomic :: string
  qj_reason :: string

record RecordTradeSettlementRequest =
  qt_context :: "PbCommandContext option"
  qt_buyer_available_account_id :: string
  qt_seller_available_account_id :: string
  qt_base_asset :: string
  qt_base_amount_atomic :: string
  qt_quote_asset :: string
  qt_quote_amount_atomic :: string
  qt_trade_reference :: string

record RecordTradingFeeRequest =
  qf_context :: "PbCommandContext option"
  qf_customer_available_account_id :: string
  qf_fee_revenue_account_id :: string
  qf_asset :: string
  qf_amount_atomic :: string

record RecordAdminAdjustmentRequest =
  qm_context :: "PbCommandContext option"
  qm_from_account_id :: string
  qm_to_account_id :: string
  qm_asset :: string
  qm_amount_atomic :: string
  qm_audit :: "PbAuditMetadata option"

record CreateAccountResponse =
  cs_account :: "PbAccount option"
  cs_replayed :: bool

text \<open>The eight posting RPCs answer with messages of the same single field.\<close>

record PostingResponse =
  ps_result :: "PbCommandResult option"

record GetBalanceRequest =
  qb_account_id :: string
  qb_asset :: string

record ListAccountEntriesRequest =
  ql_account_id :: string
  ql_limit :: u32
  ql_offset :: u64

record PbDiscrepancy =
  pd_account_id :: string
  pd_asset :: string
  pd_expected_atomic :: string
  pd_actual_atomic :: string
  pd_delta_atomic :: string
  pd_source :: string

record TriggerReconciliationResponse =
  tr_run_id :: string
  tr_checked_balances :: u64
  tr_balanced :: bool
  tr_discrepancies :: "PbDiscrepancy list"
  tr_started_at :: string
  tr_finished_at :: string

section \<open>Statuses\<close>

text \<open>The codes of \<open>tonic::Status\<close> that the handlers use.\<close>

datatype Code =
    CodeInvalidArgument | CodeNotFound | CodeFailedPrecondition | CodeAlreadyExists
  | CodeUnavailable | CodeInternal

record Status =
  status_code :: Code
  status_message :: string

definition invalid_argument :: "string \<Rightarrow> Status" where
  "invalid_argument m = \<lparr>status_code = CodeInvalidArgument, status_message = m\<rparr>"

definition ledger_status :: "LedgerError \<Rightarrow> Status" where
  "ledger_status err =
     (let message = display_ledger_error err
      in case category err of
           CatInvalidArgument \<Rightarrow> invalid_argument message
         | CatNotFound \<Rightarrow> \<lparr>status_code = CodeNotFound, status_message = message\<rparr>
         | CatFailedPrecondition \<Rightarrow> \<lparr>status_code = CodeFailedPrecondition, status_message = message\<rparr>
         | CatAlreadyExists \<Rightarrow> \<lparr>status_code = CodeAlreadyExists, status_message = message\<rparr>
         | CatUnavailable \<Rightarrow> \<lparr>status_code = CodeUnavailable, status_message = message\<rparr>
         | CatInternal \<Rightarrow> \<lparr>status_code = CodeInternal, status_message = ''internal error''\<rparr>)"

definition domain_status :: "DomainError \<Rightarrow> Status" where
  "domain_status err = ledger_status (Domain err)"

section \<open>Reading requests\<close>

record grpc_env =
  ge_uuid_show :: "uuid \<Rightarrow> string"
  ge_uuid_parse :: "string \<Rightarrow> uuid option"
  ge_rfc3339 :: "datetime \<Rightarrow> string"

definition parse_uuid :: "grpc_env \<Rightarrow> string \<Rightarrow> string \<Rightarrow> Status + uuid" where
  "parse_uuid ge text field = ok_or (ge_uuid_parse ge text) (invalid_argument (''invalid '' @ field))"

definition parse_account_id :: "grpc_env \<Rightarrow> string \<Rightarrow> string \<Rightarrow> Status + AccountId" where
  "parse_account_id ge text field = and_then (parse_uuid ge text field) (\<lambda>u. Inr (AccountId u))"

definition parse_amount :: "string \<Rightarrow> string \<Rightarrow> Status + AtomicAmount" where
  "parse_amount text field =
     ok_or (map_option AtomicAmount (parse_i128 text)) (invalid_argument (''invalid '' @ field))"

definition parse_asset :: "string \<Rightarrow> Status + AssetCode" where
  "parse_asset text = map_err (\<lambda>err. invalid_argument (display_domain_error err)) (AssetCode_new text)"

text \<open>\<open>co\<close> and \<open>ca\<close> are drawn by \<open>CommandMeta::new\<close> when the request names none.\<close>

definition context_meta :: "grpc_env \<Rightarrow> uuid \<Rightarrow> uuid \<Rightarrow> PbCommandContext \<Rightarrow> Status + CommandMeta" where
  "context_meta ge co ca meta =
     and_then (map_err (\<lambda>err. invalid_argument (display_domain_error err))
         (IdempotencyKey_new (cc_idempotency_key meta))) (\<lambda>key.
     and_then (if cc_correlation_id meta = [] then Inr None
         else and_then (parse_uuid ge (cc_correlation_id meta) ''correlation_id'') (\<lambda>u. Inr (Some (CorrelationId u))))
       (\<lambda>correlation.
     and_then (if cc_causation_id meta = [] then Inr None
         else and_then (parse_uuid ge (cc_causation_id meta) ''causation_id'') (\<lambda>u. Inr (Some (CausationId u))))
       (\<lambda>causation.
     Inr (CommandMeta_new co ca key correlation causation))))"

definition required_context :: "PbCommandContext option \<Rightarrow> Status + PbCommandContext" where
  "required_context c = ok_or c (invalid_argument ''context required'')"

text \<open>An empty string of proto3 stands for an absent field.\<close>

definition non_empty :: "string \<Rightarrow> string option" where
  "non_empty s = (if s = [] then None else Some s)"

definition kind_of_i32 :: "i32 \<Rightarrow> AccountKind option" where
  "kind_of_i32 n =
     map_of [(1, CustomerAvailable), (2, CustomerLocked), (3, ExchangeHotWallet), (4, ExchangeColdWallet),
             (5, FeeRevenue), (6, WithdrawalClearing), (7, DepositClearing), (8, OtherKind)] n"

definition policy_of_i32 :: "i32 \<Rightarrow> AccountPolicy option" where
  "policy_of_i32 n = map_of [(1, NonNegative), (2, AllowNegative)] n"

text \<open>The fields of a struct literal are evaluated in order, so the first bad field is reported.\<close>

definition create_account_command ::
    "grpc_env \<Rightarrow> uuid \<Rightarrow> uuid \<Rightarrow> CreateAccountRequest \<Rightarrow> Status + CreateAccountCommand" where
  "create_account_command ge co ca req =
     and_then (required_context (qa_context req)) (\<lambda>ctx.
     and_then (context_meta ge co ca ctx) (\<lambda>meta.
     and_then (ok_or (kind_of_i32 (qa_kind req)) (invalid_argument ''kind required'')) (\<lambda>kind.
     and_then (ok_or (policy_of_i32 (qa_policy req)) (invalid_argument ''policy required'')) (\<lambda>policy.
     Inr \<lparr>ca_meta = meta, ca_name = qa_name req, ca_kind = kind, ca_policy = policy\<rparr>))))"

definition record_deposit_command ::
    "grpc_env \<Rightarrow> uuid \<Rightarrow> uuid \<Rightarrow> RecordDepositRequest \<Rightarrow> Status + RecordDepositCommand" where
  "record_deposit_command ge co ca req =
     and_then (required_context (qd_context req)) (\<lambda>ctx.
     and_then (context_meta ge co ca ctx) (\<lambda>meta.
     and_then (parse_account_id ge (qd_customer_available_account_id req) ''customer'') (\<lambda>customer.
     and_then (parse_account_id ge (qd_deposit_clearing_account_id req) ''clearing'') (\<lambda>clearing.
     and_then (if qd_hot_wallet_account_id req = [] then Inr None
         else and_then (parse_account_id ge (qd_hot_wallet_account_id req) ''hot_wallet'') (\<lambda>i. Inr (Some i)))
       (\<lambda>hot_wallet.
     and_then (parse_asset (qd_asset req)) (\<lambda>asset.
     and_then (parse_amount (qd_amount_atomic req) ''amount'') (\<lambda>amount.
     Inr \<lparr>rd_meta = meta, rd_customer_available = customer, rd_deposit_clearing = clearing,
          rd_hot_wallet = hot_wallet, rd_asset = asset, rd_amount = amount,
          rd_external_reference = non_empty (qd_external_reference req)\<rparr>)))))))"

definition request_withdrawal_command ::
    "grpc_env \<Rightarrow> uuid \<Rightarrow> uuid \<Rightarrow> RequestWithdrawalRequest \<Rightarrow> Status + RequestWithdrawalCommand" where
  "request_withdrawal_command ge co ca req =
     and_then (required_context (qw_context req)) (\<lambda>ctx.
     and_then (context_meta ge co ca ctx) (\<lambda>meta.
     and_then (parse_account_id ge (qw_customer_available_account_id req) ''available'') (\<lambda>available.
     and_then (parse_account_id ge (qw_customer_locked_account_id req) ''locked'') (\<lambda>locked.
     and_then (parse_asset (qw_asset req)) (\<lambda>asset.
     and_then (parse_amount (qw_amount_atomic req) ''amount'') (\<lambda>amount.
     Inr \<lparr>rw_meta = meta, rw_customer_available = available, rw_customer_locked = locked, rw_asset = asset,
          rw_amount = amount, rw_destination_reference = non_empty (qw_destination_reference req)\<rparr>))))))"

definition complete_withdrawal_command ::
    "grpc_env \<Rightarrow> uuid \<Rightarrow> uuid \<Rightarrow> CompleteWithdrawalRequest \<Rightarrow> Status + CompleteWithdrawalCommand" where
  "complete_withdrawal_command ge co ca req =
     and_then (required_context (qc_context req)) (\<lambda>ctx.
     and_then (context_meta ge co ca ctx) (\<lambda>meta.
     and_then (parse_account_id ge (qc_customer_locked_account_id req) ''locked'') (\<lambda>locked.
     and_then (parse_account_id ge (qc_withdrawal_clearing_account_id req) ''withdrawal_clearing'') (\<lambda>clearing.
     and_then (parse_account_id ge (qc_hot_wallet_account_id req) ''hot_wallet'') (\<lambda>hot_wallet.
     and_then (parse_asset (qc_asset req)) (\<lambda>asset.
     and_then (parse_amount (qc_amount_atomic req) ''amount'') (\<lambda>amount.
     Inr \<lparr>cw_meta = meta, cw_customer_locked = locked, cw_withdrawal_clearing = clearing,
          cw_hot_wallet = hot_wallet, cw_asset = asset, cw_amount = amount,
          cw_settlement_reference = non_empty (qc_settlement_reference req)\<rparr>)))))))"

definition reject_withdrawal_command ::
    "grpc_env \<Rightarrow> uuid \<Rightarrow> uuid \<Rightarrow> RejectWithdrawalRequest \<Rightarrow> Status + RejectWithdrawalCommand" where
  "reject_withdrawal_command ge co ca req =
     and_then (required_context (qj_context req)) (\<lambda>ctx.
     and_then (context_meta ge co ca ctx) (\<lambda>meta.
     and_then (parse_account_id ge (qj_customer_locked_account_id req) ''locked'') (\<lambda>locked.
     and_then (parse_account_id ge (qj_customer_available_account_id req) ''available'') (\<lambda>available.
     and_then (parse_asset (qj_asset req)) (\<lambda>asset.
     and_then (parse_amount (qj_amount_atomic req) ''amount'') (\<lambda>amount.
     Inr \<lparr>jw_meta = meta, jw_customer_locked = locked, jw_customer_available = available, jw_asset = asset,
          jw_amount = amount, jw_reason = qj_reason req\<rparr>))))))"

definition trade_settlement_command ::
    "grpc_env \<Rightarrow> uuid \<Rightarrow> uuid \<Rightarrow> RecordTradeSettlementRequest \<Rightarrow> Status + RecordTradeSettlementCommand" where
  "trade_settlement_command ge co ca req =
     and_then (required_context (qt_context req)) (\<lambda>ctx.
     and_then (context_meta ge co ca ctx) (\<lambda>meta.
     and_then (parse_account_id ge (qt_buyer_available_account_id req) ''buyer'') (\<lambda>buyer.
     and_then (parse_account_id ge (qt_seller_available_account_id req) ''seller'') (\<lambda>seller.
     and_then (parse_asset (qt_base_asset req)) (\<lambda>base_asset.
     and_then (parse_amount (qt_base_amount_atomic req) ''base_amount'') (\<lambda>base_amount.
     and_then (parse_asset (qt_quote_asset req)) (\<lambda>quote_asset.
     and_then (parse_amount (qt_quote_amount_atomic req) ''quote_amount'') (\<lambda>quote_amount.
     Inr \<lparr>rt_meta = meta, rt_buyer_available = buyer, rt_seller_available = seller,
          rt_base_asset = base_asset, rt_base_amount = base_amount, rt_quote_asset = quote_asset,
          rt_quote_amount = quote_amount, rt_trade_reference = non_empty (qt_trade_reference req)\<rparr>))))))))"

definition trading_fee_command ::
    "grpc_env \<Rightarrow> uuid \<Rightarrow> uuid \<Rightarrow> RecordTradingFeeRequest \<Rightarrow> Status + RecordTradingFeeCommand" where
  "trading_fee_command ge co ca req =
     and_then (required_context (qf_context req)) (\<lambda>ctx.
     and_then (context_meta ge co ca ctx) (\<lambda>meta.
     and_then (parse_account_id ge (qf_customer_available_account_id req) ''customer'') (\<lambda>customer.
     and_then (parse_account_id ge (qf_fee_revenue_account_id req) ''fee_revenue'') (\<lambda>fee_revenue.
     and_then (parse_asset (qf_asset req)) (\<lambda>asset.
     and_then (parse_amount (qf_amount_atomic req) ''amount'') (\<lambda>amount.
     Inr \<lparr>rf_meta = meta, rf_customer_available = customer, rf_fee_revenue = fee_revenue, rf_asset = asset,
          rf_amount = amount\<rparr>))))))"

definition admin_adjustment_command ::
    "grpc_env \<Rightarrow> uuid \<Rightarrow> uuid \<Rightarrow> RecordAdminAdjustmentRequest \<Rightarrow> Status + RecordAdminAdjustmentCommand" where
  "admin_adjustment_command ge co ca req =
     and_then (required_context (qm_context req)) (\<lambda>ctx.
     and_then (ok_or (qm_audit req) (invalid_argument ''audit required'')) (\<lambda>audit.
     and_then (context_meta ge co ca ctx) (\<lambda>meta.
     and_then (parse_account_id ge (qm_from_account_id req) ''from'') (\<lambda>from_id.
     and_then (parse_account_id ge (qm_to_account_id req) ''to'') (\<lambda>to_id.
     and_then (parse_asset (qm_asset req)) (\<lambda>asset.
     and_then (parse_amount (qm_amount_atomic req) ''amount'') (\<lambda>amount.
     Inr \<lparr>ra_meta = meta, ra_from = from_id, ra_to = to_id, ra_asset = asset, ra_amount = amount,
          ra_audit = \<lparr>ar_actor = pu_actor audit, ar_reason = pu_reason audit,
            ar_ticket_id = non_empty (pu_ticket_id audit)\<rparr>\<rparr>)))))))"

definition posting_input :: "grpc_env \<Rightarrow> PbPosting \<Rightarrow> Status + PostingInput" where
  "posting_input ge posting =
     and_then (parse_account_id ge (pp_account_id posting) ''account_id'') (\<lambda>account_id.
     and_then (parse_asset (pp_asset posting)) (\<lambda>asset.
     and_then (parse_amount (pp_amount_atomic posting) ''amount_atomic'') (\<lambda>amount.
     Inr \<lparr>pi_account_id = account_id, pi_asset = asset, pi_amount = amount\<rparr>)))"

definition map_posting_inputs :: "grpc_env \<Rightarrow> PbPosting list \<Rightarrow> Status + PostingInput list" where
  "map_posting_inputs ge postings = collect_results (map (posting_input ge) postings)"

definition submit_journal_command ::
    "grpc_env \<Rightarrow> uuid \<Rightarrow> uuid \<Rightarrow> SubmitJournalEntryRequest \<Rightarrow> Status + SubmitJournalCommand" where
  "submit_journal_command ge co ca req =
     and_then (required_context (qs_context req)) (\<lambda>ctx.
     and_then (context_meta ge co ca ctx) (\<lambda>meta.
     and_then (map_posting_inputs ge (qs_postings req)) (\<lambda>postings.
     Inr \<lparr>sj_meta = meta, sj_description = qs_description req, sj_postings = postings\<rparr>)))"

section \<open>Writing responses\<close>

fun map_kind :: "AccountKind \<Rightarrow> i32" where
  "map_kind CustomerAvailable = 1"
| "map_kind CustomerLocked = 2"
| "map_kind ExchangeHotWallet = 3"
| "map_kind ExchangeColdWallet = 4"
| "map_kind FeeRevenue = 5"
| "map_kind WithdrawalClearing = 6"
| "map_kind DepositClearing = 7"
| "map_kind OtherKind = 8"

fun map_policy :: "AccountPolicy \<Rightarrow> i32" where
  "map_policy NonNegative = 1"
| "map_policy AllowNegative = 2"

fun map_status :: "AccountStatus \<Rightarrow> i32" where
  "map_status Active = 1"
| "map_status Frozen = 2"
| "map_status Closed = 3"

definition map_account :: "grpc_env \<Rightarrow> Account \<Rightarrow> PbAccount" where
  "map_account ge account =
     \<lparr>pa_id = AccountId_display (ge_uuid_show ge) (acc_id account), pa_name = acc_name account,
      pa_kind = map_kind (acc_kind account), pa_policy = map_policy (acc_policy account),
      pa_status = map_status (acc_status account), pa_created_at = ge_rfc3339 ge (acc_created_at account)\<rparr>"

definition map_posting :: "grpc_env \<Rightarrow> Posting \<Rightarrow> PbPosting" where
  "map_posting ge posting =
     \<lparr>pp_account_id = AccountId_display (ge_uuid_show ge) (p_account_id posting),
      pp_asset = code_str (p_asset posting), pp_amount_atomic = show_i128 (raw (p_amount posting)),
      pp_side = (case p_side posting of Debit \<Rightarrow> 1 | Credit \<Rightarrow> 2)\<rparr>"

definition map_entry :: "grpc_env \<Rightarrow> JournalEntry \<Rightarrow> PbJournalEntry" where
  "map_entry ge entry =
     \<lparr>pj_transaction_id = TransactionId_display (ge_uuid_show ge) (je_id entry),
      pj_idempotency_key = key_str (je_idempotency_key entry), pj_description = je_description entry,
      pj_postings = map (map_posting ge) (je_postings entry), pj_status = ''posted'',
      pj_correlation_id = ge_uuid_show ge (correlation_uuid (je_correlation_id entry)),
      pj_causation_id = ge_uuid_show ge (causation_uuid (je_causation_id entry)),
      pj_created_at = ge_rfc3339 ge (je_created_at entry)\<rparr>"

definition command_result :: "grpc_env \<Rightarrow> TransactionId \<Rightarrow> bool \<Rightarrow> datetime \<Rightarrow> PbCommandResult" where
  "command_result ge transaction_id replayed posted_at =
     \<lparr>pr_transaction_id = TransactionId_display (ge_uuid_show ge) transaction_id, pr_replayed = replayed,
      pr_posted_at = ge_rfc3339 ge posted_at\<rparr>"

definition map_balance :: "grpc_env \<Rightarrow> BalanceRecord \<Rightarrow> PbBalance" where
  "map_balance ge balance =
     \<lparr>pb_account_id = AccountId_display (ge_uuid_show ge) (br_account_id balance),
      pb_asset = code_str (br_asset balance), pb_amount_atomic = show_i128 (raw (br_amount balance)),
      pb_updated_at = ge_rfc3339 ge (br_updated_at balance)\<rparr>"

section \<open>Handlers\<close>

text \<open>\<open>.await.map_err(ledger_status)?\<close> and the response built from the result.\<close>

definition reply :: "('v \<Rightarrow> 'r) \<Rightarrow> LedgerError + 'v \<Rightarrow> Status + 'r" where
  "reply f r = and_then (map_err ledger_status r) (\<lambda>v. Inr (f v))"

definition posting_response :: "grpc_env \<Rightarrow> EntryPosted Outcome \<Rightarrow> PostingResponse" where
  "posting_response ge outcome =
     \<lparr>ps_result = Some (command_result ge (ep_transaction_id (oc_value outcome)) (oc_replayed outcome)
        (ep_posted_at (oc_value outcome)))\<rparr>"

fun or_status :: "('c \<Rightarrow> (Status + 'r) prog) \<Rightarrow> Status + 'c \<Rightarrow> (Status + 'r) prog" where
  "or_status k (Inl status) = Done (Inl status)"
| "or_status k (Inr command) = k command"

definition rpc_create_account ::
    "grpc_env \<Rightarrow> codec \<Rightarrow> draws \<Rightarrow> uuid \<Rightarrow> uuid \<Rightarrow> CreateAccountRequest \<Rightarrow> (Status + CreateAccountResponse) prog" where
  "rpc_create_account ge cx dr co ca req =
     or_status (\<lambda>command. map_prog (reply (\<lambda>outcome.
         \<lparr>cs_account = Some (map_account ge (cr_account (oc_value outcome))), cs_replayed = oc_replayed outcome\<rparr>))
       (create_account cx dr command)) (create_account_command ge co ca req)"

definition rpc_submit_journal_entry ::
    "grpc_env \<Rightarrow> codec \<Rightarrow> draws \<Rightarrow> uuid \<Rightarrow> uuid \<Rightarrow> SubmitJournalEntryRequest \<Rightarrow> (Status + PostingResponse) prog" where
  "rpc_submit_journal_entry ge cx dr co ca req =
     or_status (\<lambda>command. map_prog (reply (posting_response ge)) (submit_journal_entry cx dr command))
       (submit_journal_command ge co ca req)"

definition rpc_record_deposit ::
    "grpc_env \<Rightarrow> codec \<Rightarrow> draws \<Rightarrow> uuid \<Rightarrow> uuid \<Rightarrow> RecordDepositRequest \<Rightarrow> (Status + PostingResponse) prog" where
  "rpc_record_deposit ge cx dr co ca req =
     or_status (\<lambda>command. map_prog (reply (posting_response ge)) (record_deposit cx dr command))
       (record_deposit_command ge co ca req)"

definition rpc_request_withdrawal ::
    "grpc_env \<Rightarrow> codec \<Rightarrow> draws \<Rightarrow> uuid \<Rightarrow> uuid \<Rightarrow> RequestWithdrawalRequest \<Rightarrow> (Status + PostingResponse) prog" where
  "rpc_request_withdrawal ge cx dr co ca req =
     or_status (\<lambda>command. map_prog (reply (posting_response ge)) (request_withdrawal cx dr command))
       (request_withdrawal_command ge co ca req)"

definition rpc_complete_withdrawal ::
    "grpc_env \<Rightarrow> codec \<Rightarrow> draws \<Rightarrow> uuid \<Rightarrow> uuid \<Rightarrow> CompleteWithdrawalRequest \<Rightarrow> (Status + PostingResponse) prog" where
  "rpc_complete_withdrawal ge cx dr co ca req =
     or_status (\<lambda>command. map_prog (reply (posting_response ge)) (complete_withdrawal cx dr command))
       (complete_withdrawal_command ge co ca req)"

definition rpc_reject_withdrawal ::
    "grpc_env \<Rightarrow> codec \<Rightarrow> draws \<Rightarrow> uuid \<Rightarrow> uuid \<Rightarrow> RejectWithdrawalRequest \<Rightarrow> (Status + PostingResponse) prog" where
  "rpc_reject_withdrawal ge cx dr co ca req =
     or_status (\<lambda>command. map_prog (reply (posting_response ge)) (reject_withdrawal cx dr command))
       (reject_withdrawal_command ge co ca req)"

definition rpc_record_trade_settlement ::
    "grpc_env \<Rightarrow> codec \<Rightarrow> draws \<Rightarrow> uuid \<Rightarrow> uuid \<Rightarrow> RecordTradeSettlementRequest \<Rightarrow> (Status + PostingResponse) prog" where
  "rpc_record_trade_settlement ge cx dr co ca req =
     or_status (\<lambda>command. map_prog (reply (posting_response ge)) (record_trade_settlement cx dr command))
       (trade_settlement_command ge co ca req)"

definition rpc_record_trading_fee ::
    "grpc_env \<Rightarrow> codec \<Rightarrow> draws \<Rightarrow> uuid \<Rightarrow> uuid \<Rightarrow> RecordTradingFeeRequest \<Rightarrow> (Status + PostingResponse) prog" where
  "rpc_record_trading_fee ge cx dr co ca req =
     or_status (\<lambda>command. map_prog (reply (posting_response ge)) (record_trading_fee cx dr command))
       (trading_fee_command ge co ca req)"

definition rpc_record_admin_adjustment ::
    "grpc_env \<Rightarrow> codec \<Rightarrow> draws \<Rightarrow> uuid \<Rightarrow> uuid \<Rightarrow> RecordAdminAdjustmentRequest \<Rightarrow> (Status + PostingResponse) prog" where
  "rpc_record_admin_adjustment ge cx dr co ca req =
     or_status (\<lambda>command. map_prog (reply (posting_response ge)) (record_admin_adjustment cx dr command))
       (admin_adjustment_command ge co ca req)"

text \<open>Queries; a response is its repeated field or its entry.\<close>

definition rpc_get_transaction :: "grpc_env \<Rightarrow> codec \<Rightarrow> string \<Rightarrow> (Status + PbJournalEntry option) prog" where
  "rpc_get_transaction ge cx transaction_id =
     or_status (\<lambda>u. map_prog (reply (\<lambda>entry. Some (map_entry ge entry))) (get_transaction cx (TransactionId u)))
       (parse_uuid ge transaction_id ''transaction_id'')"

definition rpc_get_balance :: "grpc_env \<Rightarrow> codec \<Rightarrow> GetBalanceRequest \<Rightarrow> (Status + PbBalance list) prog" where
  "rpc_get_balance ge cx req =
     or_status (\<lambda>account_id.
       or_status (\<lambda>asset. map_prog (reply (map (map_balance ge))) (get_balances cx account_id asset))
         (if qb_asset req = [] then Inr None else and_then (parse_asset (qb_asset req)) (\<lambda>a. Inr (Some a))))
       (parse_account_id ge (qb_account_id req) ''account_id'')"

definition rpc_list_account_entries ::
    "grpc_env \<Rightarrow> ListAccountEntriesRequest \<Rightarrow> (Status + PbJournalEntry list) prog" where
  "rpc_list_account_entries ge req =
     or_status (\<lambda>account_id. map_prog (reply (map (map_entry ge)))
         (list_account_entries_query account_id (Page_new (ql_limit req) (ql_offset req))))
       (parse_account_id ge (ql_account_id req) ''account_id'')"

section \<open>Reconciliation\<close>

fun display_reconcile_error :: "ReconcileError \<Rightarrow> string" where
  "display_reconcile_error (RecDomain e) = display_domain_error e"
| "display_reconcile_error (RecStore e) = ''store failure: '' @ e"
| "display_reconcile_error (RecLedger e) = display_ledger_error e"

text \<open>The subtraction is the unchecked one of \<open>i128\<close>; in the release profile it wraps.\<close>

definition map_discrepancy :: "grpc_env \<Rightarrow> Discrepancy \<Rightarrow> PbDiscrepancy" where
  "map_discrepancy ge d =
     \<lparr>pd_account_id = AccountId_display (ge_uuid_show ge) (di_account_id d), pd_asset = code_str (di_asset d),
      pd_expected_atomic = show_i128 (raw (di_expected d)), pd_actual_atomic = show_i128 (raw (di_observed d)),
      pd_delta_atomic = show_i128 (raw (di_expected d) - raw (di_observed d)), pd_source = di_view d\<rparr>"

text \<open>\<open>reconciled\<close> is the answer of \<open>reconcile_authoritative\<close>.\<close>

definition rpc_trigger_reconciliation ::
    "grpc_env \<Rightarrow> uuid \<Rightarrow> datetime \<Rightarrow> bool \<Rightarrow> ReconcileError + ReconcileReport
      \<Rightarrow> Status + TriggerReconciliationResponse" where
  "rpc_trigger_reconciliation ge run_id started summary_only reconciled =
     and_then (map_err (\<lambda>err. \<lparr>status_code = CodeInternal, status_message = display_reconcile_error err\<rparr>) reconciled)
       (\<lambda>report. Inr
         \<lparr>tr_run_id = ge_uuid_show ge run_id, tr_checked_balances = rr_postings_applied report,
          tr_balanced = is_clean report,
          tr_discrepancies = (if summary_only then [] else map (map_discrepancy ge) (rr_discrepancies report)),
          tr_started_at = ge_rfc3339 ge started, tr_finished_at = ge_rfc3339 ge (rr_finished_at report)\<rparr>)"

end
