(* ===== verification/Exactly_Once.thy ===== *)
theory Exactly_Once
  imports Postgres_Service
begin

text \<open>
  Retrying a posting command against ports that may fail.  The interface \<open>faulty_ports\<close> asks of a
  read only that it tells the truth when it answers, and of a commit that it takes effect
  completely or not at all, whatever it answers.  Both stores keep it, PostgreSQL under any
  failures.  Attempts with one key then write at most one entry, and all answers agree.
\<close>

section \<open>The contract\<close>

text \<open>\<open>written s\<close> are the journal rows in state \<open>s\<close>, \<open>as_row\<close> the row of an entry.\<close>

locale faulty_ports = quiet_reads P
  for P :: "nat \<Rightarrow> 's ports" +
  fixes answers :: "'s \<Rightarrow> string \<times> string \<Rightarrow> IdempotencyRecord option"
    and valid :: "IdempotencyKey \<Rightarrow> bool"
    and written :: "'s \<Rightarrow> 'e list"
    and as_row :: "JournalEntry \<Rightarrow> 'e"
  assumes idem_truth: "valid key \<Longrightarrow> pt_idem_find (P m) scope key s = (Inr r, s')
      \<Longrightarrow> r = answers s (scope, key_str key)"
    and commit_atomic: "pt_commit (P m) c s = (out, s')
      \<Longrightarrow> s' = s \<and> out \<noteq> Inr Committed
            \<and> (out = Inr DuplicateIdempotencyKey \<longrightarrow> answers s (record_key (jc_idempotency c)) \<noteq> None)
        \<or> out \<noteq> Inr DuplicateIdempotencyKey \<and> answers s (record_key (jc_idempotency c)) = None
            \<and> (\<exists>at. answers s' = (answers s)(record_key (jc_idempotency c) \<mapsto> (jc_idempotency c)\<lparr>ir_created_at := at\<rparr>))
            \<and> written s' = written s @ [as_row (jc_entry c)]"
begin

text \<open>The key is free: nothing happens and the command fails, or its entry is written once.\<close>

lemma attempt_unanswered:
  assumes "valid (cm_idempotency_key (command_meta cmd))"
    and "answers s (command_scope cmd, key_str (cm_idempotency_key (command_meta cmd))) = None"
    and "exec_at P m (post_entry cx dr cmd build) s = (res, s')"
  obtains (failed) e where "s' = s" "res = Inl e"
    | (stored) hash entry r at where "fingerprint (cx_hash cx) (cx_ser_command cx) cmd = Inr hash"
      "IdempotencyRecord_new at (cx_ser_posted cx) (command_scope cmd)
         (cm_idempotency_key (command_meta cmd)) hash (entry_response entry) = Inr r"
      "answers s' (command_scope cmd, key_str (cm_idempotency_key (command_meta cmd))) = Some r"
      "written s' = written s @ [as_row entry]"
      "\<And>out. res = Inr out \<Longrightarrow> out = outcome_fresh (entry_response entry)"
proof -
  let ?scope = "command_scope cmd" and ?key = "cm_idempotency_key (command_meta cmd)"
  obtain found where found: "pt_idem_find (P m) ?scope ?key s = (found, s)"
    using idem_read by blast
  have none: "found = Inr f \<Longrightarrow> f = None" for f
    using idem_truth [OF assms(1)] found assms(2) by blast
  show thesis
  proof (cases "\<exists>hash entry extra. fingerprint (cx_hash cx) (cx_ser_command cx) cmd = Inr hash
      \<and> found = Inr None \<and> build = Inr (entry, extra)")
    case False
    then have "s' = s \<and> (\<exists>e. res = Inl e)"
      using assms(3) found none
      by (cases found) (auto simp: post_entry_def Let_def split: sum.splits)
    with failed show thesis
      by blast
  next
    case True
    then obtain hash entry extra where c: "fingerprint (cx_hash cx) (cx_ser_command cx) cmd = Inr hash"
        "found = Inr None" "build = Inr (entry, extra)"
      by blast
    let ?k = "commit_entry cx dr ?scope ?key hash entry extra"
    have run: "exec_at P (Suc m) (guard_postings (cx_uuid_show cx) entry ?k) s = (res, s')"
      using assms(3) found c by (simp add: post_entry_def Let_def)
    show thesis
    proof (cases rule: guard_postings_run [of "Suc m" "cx_uuid_show cx" entry ?k s])
      case (pass m')
      show thesis
      proof (cases "IdempotencyRecord_new (dr_record_now dr) (cx_ser_posted cx) ?scope ?key hash (entry_response entry)")
        case (Inl e)
        with run pass failed show thesis
          by (auto simp: commit_entry_def Let_def)
      next
        case (Inr r)
        let ?c = "\<lparr>jc_entry = entry, jc_events = entry_events cx dr entry extra, jc_idempotency = r\<rparr>"
        obtain out s1 where out: "pt_commit (P m') ?c s = (out, s1)"
          by fastforce
        have key: "record_key r = (?scope, key_str ?key)"
          using Inr by (auto simp: IdempotencyRecord_new_def record_key_def result_simps)
        have "out \<noteq> Inr DuplicateIdempotencyKey"
          using commit_atomic [OF out] assms(2) key by auto
        moreover have "exec_at P m' ?k s = (res, s')"
          using run pass by simp
        ultimately have "s' = s1 \<and> (case out of Inl e \<Rightarrow> res = Inl e | Inr _ \<Rightarrow> res = Inr (outcome_fresh (entry_response entry)))"
          using Inr out by (cases out; cases "projr out") (auto simp: commit_entry_def Let_def)
        then have res: "s' = s1" "case out of Inl e \<Rightarrow> res = Inl e | Inr _ \<Rightarrow> res = Inr (outcome_fresh (entry_response entry))"
          by blast+
        from commit_atomic [OF out] show thesis
        proof
          assume "s1 = s \<and> out \<noteq> Inr Committed
            \<and> (out = Inr DuplicateIdempotencyKey \<longrightarrow> answers s (record_key (jc_idempotency ?c)) \<noteq> None)"
          with \<open>out \<noteq> Inr DuplicateIdempotencyKey\<close> res show thesis
            by (cases out) (auto intro: failed CommitOutcome.exhaust)
        next
          assume "out \<noteq> Inr DuplicateIdempotencyKey \<and> answers s (record_key (jc_idempotency ?c)) = None
            \<and> (\<exists>at. answers s1 = (answers s)(record_key (jc_idempotency ?c) \<mapsto> (jc_idempotency ?c)\<lparr>ir_created_at := at\<rparr>))
            \<and> written s1 = written s @ [as_row (jc_entry ?c)]"
          then obtain at where at: "answers s1 = (answers s)(record_key r \<mapsto> r\<lparr>ir_created_at := at\<rparr>)"
              "written s1 = written s @ [as_row entry]"
            by auto
          have "IdempotencyRecord_new at (cx_ser_posted cx) ?scope ?key hash (entry_response entry)
              = Inr (r\<lparr>ir_created_at := at\<rparr>)"
            using Inr by (auto simp: IdempotencyRecord_new_def result_simps)
          with c(1) key res at show thesis
            by (intro stored [of hash at entry "r\<lparr>ir_created_at := at\<rparr>"]) (auto split: sum.splits)
        qed
      qed
    qed (use run failed in simp)
  qed
qed

text \<open>The key is answered: nothing is written and a success repeats the stored response.\<close>

lemma attempt_answered:
  assumes "valid (cm_idempotency_key (command_meta cmd))"
    and "fingerprint (cx_hash cx) (cx_ser_command cx) cmd = Inr hash"
    and "answers s (command_scope cmd, key_str (cm_idempotency_key (command_meta cmd))) = Some r"
    and "exec_at P m (post_entry cx dr cmd build) s = (res, s')"
  shows "s' = s \<and> (\<forall>out. res = Inr out \<longrightarrow> replay (cx_de_posted cx) r hash = Inr (oc_value out) \<and> oc_replayed out)"
proof -
  obtain found where found: "pt_idem_find (P m) (command_scope cmd) (cm_idempotency_key (command_meta cmd)) s = (found, s)"
    using idem_read by blast
  show ?thesis
  proof (cases found)
    case (Inr f)
    then have "f = Some r"
      using idem_truth [OF assms(1)] found assms(3) by metis
    with Inr found assms(2,4) show ?thesis
      by (cases "replay (cx_de_posted cx) r hash") (auto simp: post_entry_def Let_def replay_done_run outcome_replayed_def)
  qed (use found assms(2,4) in \<open>auto simp: post_entry_def Let_def\<close>)
qed

end

section \<open>The stores keep it\<close>

interpretation mem_faulty: faulty_ports "\<lambda>_. mem_ports sh ns now" "\<lambda>st. map_of (idempotency st)" "\<lambda>_. True" entries id
  for sh ns now
proof
  show "r = map_of (idempotency s) (scope, key_str key)"
    if "pt_idem_find (mem_ports sh ns now) scope key s = (Inr r, s')" for key scope s r s'
    using that by (auto simp: mem_ports_def find_idempotency_def)
  fix c and s s' :: State and out
  assume "pt_commit (mem_ports sh ns now) c s = (out, s')"
  then have run: "commit sh now c s = (out, s')"
    by (simp add: mem_ports_def)
  show "s' = s \<and> out \<noteq> Inr Committed
      \<and> (out = Inr DuplicateIdempotencyKey \<longrightarrow> map_of (idempotency s) (record_key (jc_idempotency c)) \<noteq> None)
    \<or> out \<noteq> Inr DuplicateIdempotencyKey \<and> map_of (idempotency s) (record_key (jc_idempotency c)) = None
      \<and> (\<exists>at. map_of (idempotency s')
            = (map_of (idempotency s))(record_key (jc_idempotency c) \<mapsto> (jc_idempotency c)\<lparr>ir_created_at := at\<rparr>))
      \<and> entries s' = entries s @ [id (jc_entry c)]"
    by (cases rule: commit_cases [of s c sh now])
      (use run in \<open>auto simp: record_events_frame map_add_fresh intro!: exI [of _ "ir_created_at (jc_idempotency c)"]\<close>)
qed

interpretation pg_faulty: faulty_ports "pg_calls env collate ns fts srs topic nows" pg_answers key_wf
  t_entries entry_to_row for env collate ns fts srs topic nows
proof
  fix m key scope r and s s' :: Db
  assume wf: "key_wf key"
    and "pt_idem_find (pg_calls env collate ns fts srs topic nows m) scope key s = (Inr r, s')"
  then have "pg_find_idempotency env (fts m) scope key s = (Inr r, s')"
    by (simp add: pg_calls_def pg_ports_def)
  then have "pg_find_idempotency env no_faults scope key s = (Inr r, s)"
    by (auto simp: pg_find_idempotency_def on_pool_def tx_bind_def tx_err_def query_def sql_def no_faults_def
        split: option.splits fault.splits)
  moreover have "pt_idem_find (pg_calls env collate ns (\<lambda>_. no_faults) srs topic nows m) scope key s
      = (Inr (pg_answers s (scope, key_str key)), s)"
    by (rule pg_store.idem_find [OF wf])
  ultimately show "r = pg_answers s (scope, key_str key)"
    by (simp add: pg_calls_def pg_ports_def)
next
  fix m c out and s s' :: Db
  assume "pt_commit (pg_calls env collate ns fts srs topic nows m) c s = (out, s')"
  then have run: "pg_commit env (fts m) (srs m) topic (nows m) c s = (out, s')"
    by (simp add: pg_calls_def pg_ports_def)
  have atomic: "\<forall>a. out = Inr a \<longrightarrow> pg_commit env no_faults (srs m) topic (nows m) c s = (Inr a, s')"
    using transaction_atomic [OF _ run [unfolded pg_commit_def]] unfolding pg_commit_def
    by (force intro!: no_fault_intros)
  show "s' = s \<and> out \<noteq> Inr Committed
      \<and> (out = Inr DuplicateIdempotencyKey \<longrightarrow> pg_answers s (record_key (jc_idempotency c)) \<noteq> None)
    \<or> out \<noteq> Inr DuplicateIdempotencyKey \<and> pg_answers s (record_key (jc_idempotency c)) = None
      \<and> (\<exists>at. pg_answers s'
            = (pg_answers s)(record_key (jc_idempotency c) \<mapsto> (jc_idempotency c)\<lparr>ir_created_at := at\<rparr>))
      \<and> t_entries s' = t_entries s @ [entry_to_row (jc_entry c)]"
  proof (cases "s' = s")
    case True
    then show ?thesis
      using atomic pg_commit_answers [of env "srs m" topic "nows m" c s _ s] by (cases out) auto
  next
    case False
    obtain outcome where clean: "pg_commit env no_faults (srs m) topic (nows m) c s = (Inr outcome, s')"
      using pg_commit_effect [OF run False] by blast
    from pg_commit_answers [OF this] False have committed: "outcome = Committed"
        "pg_answers s (record_key (jc_idempotency c)) = None"
        "t_idempotency s' = t_idempotency s @ [record_to_row (jc_idempotency c)]"
        "t_entries s' = t_entries s @ [entry_to_row (jc_entry c)]"
      by auto
    with pg_answers_stored [OF committed(2,3)] atomic clean show ?thesis
      by auto
  qed
qed

end
