(* ===== verification/Grpc_Props.thy ===== *)
theory Grpc_Props
  imports Grpc Exactly_Once
begin

text \<open>
  The gRPC surface over the ledger: a request that is retried through any failures of the database
  takes effect at most once and its answers agree; what the API shows can be submitted again; and
  internal errors do not reach the client.
\<close>

section \<open>The posting RPCs\<close>

datatype PostingRpc =
    RpcSubmitJournalEntry SubmitJournalEntryRequest
  | RpcRecordDeposit RecordDepositRequest
  | RpcRequestWithdrawal RequestWithdrawalRequest
  | RpcCompleteWithdrawal CompleteWithdrawalRequest
  | RpcRejectWithdrawal RejectWithdrawalRequest
  | RpcRecordTradeSettlement RecordTradeSettlementRequest
  | RpcRecordTradingFee RecordTradingFeeRequest
  | RpcRecordAdminAdjustment RecordAdminAdjustmentRequest

fun posting_rpc ::
    "grpc_env \<Rightarrow> codec \<Rightarrow> draws \<Rightarrow> uuid \<Rightarrow> uuid \<Rightarrow> PostingRpc \<Rightarrow> (Status + PostingResponse) prog" where
  "posting_rpc ge cx dr co ca (RpcSubmitJournalEntry req) = rpc_submit_journal_entry ge cx dr co ca req"
| "posting_rpc ge cx dr co ca (RpcRecordDeposit req) = rpc_record_deposit ge cx dr co ca req"
| "posting_rpc ge cx dr co ca (RpcRequestWithdrawal req) = rpc_request_withdrawal ge cx dr co ca req"
| "posting_rpc ge cx dr co ca (RpcCompleteWithdrawal req) = rpc_complete_withdrawal ge cx dr co ca req"
| "posting_rpc ge cx dr co ca (RpcRejectWithdrawal req) = rpc_reject_withdrawal ge cx dr co ca req"
| "posting_rpc ge cx dr co ca (RpcRecordTradeSettlement req) = rpc_record_trade_settlement ge cx dr co ca req"
| "posting_rpc ge cx dr co ca (RpcRecordTradingFee req) = rpc_record_trading_fee ge cx dr co ca req"
| "posting_rpc ge cx dr co ca (RpcRecordAdminAdjustment req) = rpc_record_admin_adjustment ge cx dr co ca req"

fun rpc_command :: "grpc_env \<Rightarrow> uuid \<Rightarrow> uuid \<Rightarrow> PostingRpc \<Rightarrow> Status + Command" where
  "rpc_command ge co ca (RpcSubmitJournalEntry req) = map_sum id SubmitJournal (submit_journal_command ge co ca req)"
| "rpc_command ge co ca (RpcRecordDeposit req) = map_sum id RecordDeposit (record_deposit_command ge co ca req)"
| "rpc_command ge co ca (RpcRequestWithdrawal req) =
     map_sum id RequestWithdrawal (request_withdrawal_command ge co ca req)"
| "rpc_command ge co ca (RpcCompleteWithdrawal req) =
     map_sum id CompleteWithdrawal (complete_withdrawal_command ge co ca req)"
| "rpc_command ge co ca (RpcRejectWithdrawal req) =
     map_sum id RejectWithdrawal (reject_withdrawal_command ge co ca req)"
| "rpc_command ge co ca (RpcRecordTradeSettlement req) =
     map_sum id RecordTradeSettlement (trade_settlement_command ge co ca req)"
| "rpc_command ge co ca (RpcRecordTradingFee req) = map_sum id RecordTradingFee (trading_fee_command ge co ca req)"
| "rpc_command ge co ca (RpcRecordAdminAdjustment req) =
     map_sum id RecordAdminAdjustment (admin_adjustment_command ge co ca req)"

fun rpc_context :: "PostingRpc \<Rightarrow> PbCommandContext option" where
  "rpc_context (RpcSubmitJournalEntry req) = qs_context req"
| "rpc_context (RpcRecordDeposit req) = qd_context req"
| "rpc_context (RpcRequestWithdrawal req) = qw_context req"
| "rpc_context (RpcCompleteWithdrawal req) = qc_context req"
| "rpc_context (RpcRejectWithdrawal req) = qj_context req"
| "rpc_context (RpcRecordTradeSettlement req) = qt_context req"
| "rpc_context (RpcRecordTradingFee req) = qf_context req"
| "rpc_context (RpcRecordAdminAdjustment req) = qm_context req"

fun rpc_scope :: "PostingRpc \<Rightarrow> string" where
  "rpc_scope (RpcSubmitJournalEntry req) = ''submit_journal_entry''"
| "rpc_scope (RpcRecordDeposit req) = ''record_deposit''"
| "rpc_scope (RpcRequestWithdrawal req) = ''request_withdrawal''"
| "rpc_scope (RpcCompleteWithdrawal req) = ''complete_withdrawal''"
| "rpc_scope (RpcRejectWithdrawal req) = ''reject_withdrawal''"
| "rpc_scope (RpcRecordTradeSettlement req) = ''record_trade_settlement''"
| "rpc_scope (RpcRecordTradingFee req) = ''record_trading_fee''"
| "rpc_scope (RpcRecordAdminAdjustment req) = ''record_admin_adjustment''"

lemmas command_defs = submit_journal_command_def record_deposit_command_def request_withdrawal_command_def
  complete_withdrawal_command_def reject_withdrawal_command_def trade_settlement_command_def
  trading_fee_command_def admin_adjustment_command_def

lemmas rpc_defs = rpc_submit_journal_entry_def rpc_record_deposit_def rpc_request_withdrawal_def
  rpc_complete_withdrawal_def rpc_reject_withdrawal_def rpc_record_trade_settlement_def
  rpc_record_trading_fee_def rpc_record_admin_adjustment_def

lemmas handler_defs = submit_journal_entry_def record_deposit_def request_withdrawal_def complete_withdrawal_def
  reject_withdrawal_def record_trade_settlement_def record_trading_fee_def record_admin_adjustment_def

text \<open>The closure each handler passes to \<open>post_entry\<close>.\<close>

fun command_build :: "draws \<Rightarrow> Command \<Rightarrow> (LedgerError + JournalEntry \<times> LedgerEventPayload list) option" where
  "command_build dr (CreateAccount c) = None"
| "command_build dr (SubmitJournal c) = Some (build_submit dr c)"
| "command_build dr (RecordDeposit c) = Some (build_deposit dr c)"
| "command_build dr (RequestWithdrawal c) = Some (build_request dr c)"
| "command_build dr (CompleteWithdrawal c) = Some (build_completion dr c)"
| "command_build dr (RejectWithdrawal c) = Some (build_rejection dr c)"
| "command_build dr (RecordTradeSettlement c) = Some (build_trade dr c)"
| "command_build dr (RecordTradingFee c) = Some (build_fee dr c)"
| "command_build dr (RecordAdminAdjustment c) = Some (build_adjustment dr c)"

text \<open>Every posting RPC reads its request and runs \<open>post_entry\<close>.\<close>

lemma or_status_build:
  "(\<And>c. k c = map_prog g (post_entry cx dr (f c) (b c))) \<Longrightarrow> (\<And>c. command_build dr (f c) = Some (b c))
     \<Longrightarrow> case map_sum id f r of
          Inl status \<Rightarrow> exec_at P m (or_status k r) s = (Inl status, s)
        | Inr cmd \<Rightarrow> \<exists>build. command_build dr cmd = Some build
            \<and> exec_at P m (or_status k r) s = map_prod g id (exec_at P m (post_entry cx dr cmd build) s)"
  by (cases r) (auto simp: exec_at_map)

lemma posting_rpc_build:
  "case rpc_command ge co ca rpc of
     Inl status \<Rightarrow> exec_at P m (posting_rpc ge cx dr co ca rpc) s = (Inl status, s)
   | Inr cmd \<Rightarrow> \<exists>build. command_build dr cmd = Some build \<and> exec_at P m (posting_rpc ge cx dr co ca rpc) s
       = map_prod (reply (posting_response ge)) id (exec_at P m (post_entry cx dr cmd build) s)"
  by (cases rpc; simp only: posting_rpc.simps rpc_command.simps rpc_defs handler_defs; rule or_status_build;
      simp only: command_build.simps; rule refl)

lemma posting_rpc_run:
  "case rpc_command ge co ca rpc of
     Inl status \<Rightarrow> exec_at P m (posting_rpc ge cx dr co ca rpc) s = (Inl status, s)
   | Inr cmd \<Rightarrow> \<exists>build. exec_at P m (posting_rpc ge cx dr co ca rpc) s
       = map_prod (reply (posting_response ge)) id (exec_at P m (post_entry cx dr cmd build) s)"
  using posting_rpc_build [where ge = ge and co = co and ca = ca and rpc = rpc and P = P and m = m and cx = cx and dr = dr and s = s]
  by (auto split: sum.splits)

lemma context_meta_Inr:
  "context_meta ge co ca ctx = Inr m \<Longrightarrow>
     cm_idempotency_key m = IdempotencyKey (cc_idempotency_key ctx)
     \<and> key_wf (IdempotencyKey (cc_idempotency_key ctx))"
  by (auto simp: context_meta_def result_simps IdempotencyKey_new_iff CommandMeta_new_def)

lemma required_context_Inr: "required_context c = Inr ctx \<longleftrightarrow> c = Some ctx"
  by (simp add: required_context_def result_simps)

lemma map_sum_Inr: "map_sum f g r = Inr y \<longleftrightarrow> (\<exists>x. r = Inr x \<and> y = g x)"
  by (cases r) auto

text \<open>The command depends on the drawn ids only in its metadata.\<close>

lemma rpc_command_key:
  assumes "rpc_command ge co ca rpc = Inr cmd"
  shows "\<exists>ctx. rpc_context rpc = Some ctx \<and> context_meta ge co ca ctx = Inr (command_meta cmd)
    \<and> command_scope cmd = rpc_scope rpc"
  using assms
  by (cases rpc) (auto simp: command_defs result_simps required_context_Inr map_sum_Inr)

lemma rpc_command_again:
  assumes "rpc_command ge co ca rpc = Inr cmd" and "rpc_command ge co' ca' rpc = Inr cmd'"
  shows "cmd' = with_meta (command_meta cmd') cmd"
  using assms
  by (cases rpc) (auto simp: command_defs result_simps required_context_Inr map_sum_Inr)

section \<open>Exactly once\<close>

text \<open>
  What one attempt of a client meets: drawn ids, and for each port call of the handler its faults,
  sequence values and the clock.
\<close>

record attempt =
  at_draws :: draws
  at_correlation :: uuid
  at_causation :: uuid
  at_faults :: "nat \<Rightarrow> faults"
  at_serials :: "nat \<Rightarrow> serials"
  at_now :: "nat \<Rightarrow> datetime"

fun rpc_attempts ::
    "grpc_env \<Rightarrow> codec \<Rightarrow> pg_env \<Rightarrow> (string \<Rightarrow> string) \<Rightarrow> (int \<Rightarrow> i64) \<Rightarrow> string \<Rightarrow> PostingRpc \<Rightarrow> attempt list
      \<Rightarrow> Db \<Rightarrow> (Status + PostingResponse) list \<times> Db" where
  "rpc_attempts ge cx env collate ns topic rpc [] db = ([], db)"
| "rpc_attempts ge cx env collate ns topic rpc (a # as) db =
     (case exec_at (pg_calls env collate ns (at_faults a) (at_serials a) topic (at_now a)) 0
             (posting_rpc ge cx (at_draws a) (at_correlation a) (at_causation a) rpc) db of
        (r, db1) \<Rightarrow> (case rpc_attempts ge cx env collate ns topic rpc as db1 of (rs, db2) \<Rightarrow> (r # rs, db2)))"

definition shows_transaction :: "grpc_env \<Rightarrow> EntryRow \<Rightarrow> Status + PostingResponse \<Rightarrow> bool" where
  "shows_transaction ge row r =
     (case r of
        Inl _ \<Rightarrow> True
      | Inr response \<Rightarrow>
          (case ps_result response of
             None \<Rightarrow> False
           | Some result \<Rightarrow> pr_transaction_id result = ge_uuid_show ge (er_id row)))"

lemma reply_shows:
  assumes "\<And>out. res = Inr out \<Longrightarrow> oc_value out = entry_response entry"
  shows "shows_transaction ge (entry_to_row entry) (reply (posting_response ge) res)"
  using assms
  by (cases res) (auto simp: shows_transaction_def reply_def posting_response_def command_result_def
      TransactionId_display_def entry_response_def entry_to_row_def)

text \<open>After the entry is there, further attempts write nothing and show the same transaction.\<close>

lemma attempts_answered:
  assumes "codec_roundtrip cx" and "skips_meta (cx_ser_command cx)"
    and "rpc_command ge co ca rpc = Inr cmd" and "fingerprint (cx_hash cx) (cx_ser_command cx) cmd = Inr hash"
    and "IdempotencyRecord_new at (cx_ser_posted cx) (command_scope cmd)
         (cm_idempotency_key (command_meta cmd)) hash (entry_response entry) = Inr r"
    and "pg_answers db (command_scope cmd, key_str (cm_idempotency_key (command_meta cmd))) = Some r"
    and "rpc_attempts ge cx env collate ns topic rpc as db = (rs, db')"
  shows "db' = db \<and> (\<forall>x \<in> set rs. shows_transaction ge (entry_to_row entry) x)"
  using assms(7)
proof (induction as arbitrary: rs)
  case (Cons a as)
  let ?P = "pg_calls env collate ns (at_faults a) (at_serials a) topic (at_now a)"
  obtain x db1 where x: "exec_at ?P 0 (posting_rpc ge cx (at_draws a) (at_correlation a) (at_causation a) rpc) db = (x, db1)"
    by fastforce
  have "db1 = db \<and> shows_transaction ge (entry_to_row entry) x"
  proof (cases "rpc_command ge (at_correlation a) (at_causation a) rpc")
    case (Inl status)
    then show ?thesis
      using posting_rpc_run [where ge = ge and co = "at_correlation a" and ca = "at_causation a" and rpc = rpc and P = ?P
          and m = 0 and cx = cx and dr = "at_draws a" and s = db] x
      by (simp add: shows_transaction_def)
  next
    case (Inr cmd')
    obtain build where run: "exec_at ?P 0 (posting_rpc ge cx (at_draws a) (at_correlation a) (at_causation a) rpc) db
        = map_prod (reply (posting_response ge)) id (exec_at ?P 0 (post_entry cx (at_draws a) cmd' build) db)"
      using posting_rpc_run [where ge = ge and co = "at_correlation a" and ca = "at_causation a" and rpc = rpc and P = ?P
          and m = 0 and cx = cx and dr = "at_draws a" and s = db] Inr by auto
    obtain res where res: "exec_at ?P 0 (post_entry cx (at_draws a) cmd' build) db = (res, db1)" "x = reply (posting_response ge) res"
      using run x by (cases "exec_at ?P 0 (post_entry cx (at_draws a) cmd' build) db") auto
    have cmd': "cmd' = with_meta (command_meta cmd') cmd"
      by (rule rpc_command_again [OF assms(3) Inr])
    have hash: "fingerprint (cx_hash cx) (cx_ser_command cx) cmd' = Inr hash"
      using assms(4) fingerprint_with_meta [OF assms(2)] cmd' by metis
    have scope: "command_scope cmd' = command_scope cmd"
      using cmd' command_scope_with_meta by metis
    obtain ctx where ctx: "rpc_context rpc = Some ctx" "context_meta ge co ca ctx = Inr (command_meta cmd)"
        "context_meta ge (at_correlation a) (at_causation a) ctx = Inr (command_meta cmd')"
      using rpc_command_key [OF assms(3)] rpc_command_key [OF Inr] by auto
    have key: "cm_idempotency_key (command_meta cmd') = cm_idempotency_key (command_meta cmd)"
        "key_wf (cm_idempotency_key (command_meta cmd'))"
      using context_meta_Inr [OF ctx(2)] context_meta_Inr [OF ctx(3)] by auto
    have found: "pg_answers db (command_scope cmd', key_str (cm_idempotency_key (command_meta cmd'))) = Some r"
      using assms(6) scope key(1) by simp
    have "replay (cx_de_posted cx) r hash = Inr (entry_response entry)"
      using assms(1,5) by (intro replay_new(1)) (auto simp: codec_roundtrip_def)
    then show ?thesis
      using pg_faulty.attempt_answered [OF key(2) hash found res(1)] reply_shows [of res entry ge] res(2) by auto
  qed
  then show ?case
    using Cons x by (auto split: prod.splits)
qed simp

text \<open>
  C16. Exactly once through the API.  A client sends the same posting request any number of times to
  a server over PostgreSQL, every port call of every attempt under its own failures,
  with a key that was not used before.  Either no entry is written and no attempt succeeds, or
  exactly one journal row is added and every successful answer names its transaction.
\<close>

theorem grpc_exactly_once:
  assumes "codec_roundtrip cx" and "skips_meta (cx_ser_command cx)"
    and "\<forall>ctx. rpc_context rpc = Some ctx \<longrightarrow> pg_answers db (rpc_scope rpc, cc_idempotency_key ctx) = None"
    and "rpc_attempts ge cx env collate ns topic rpc as db = (results, db')"
  shows "(t_entries db' = t_entries db \<and> (\<forall>x \<in> set results. \<exists>status. x = Inl status))
    \<or> (\<exists>row. t_entries db' = t_entries db @ [row] \<and> (\<forall>x \<in> set results. shows_transaction ge row x))"
proof -
  have "(db' = db \<and> (\<forall>x \<in> set results. \<exists>status. x = Inl status))
    \<or> (\<exists>row. t_entries db' = t_entries db @ [row] \<and> (\<forall>x \<in> set results. shows_transaction ge row x))"
    using assms(4)
  proof (induction as arbitrary: results)
    case (Cons a as)
    let ?P = "pg_calls env collate ns (at_faults a) (at_serials a) topic (at_now a)"
    obtain x db1 where x: "exec_at ?P 0 (posting_rpc ge cx (at_draws a) (at_correlation a) (at_causation a) rpc) db = (x, db1)"
      by fastforce
    obtain xs where xs: "rpc_attempts ge cx env collate ns topic rpc as db1 = (xs, db')" "results = x # xs"
      using Cons.prems x by (auto split: prod.splits)
    note rpc_run = posting_rpc_run [where ge = ge and co = "at_correlation a" and ca = "at_causation a" and rpc = rpc
          and P = ?P and m = 0 and cx = cx and dr = "at_draws a" and s = db]
    show ?case
    proof (cases "rpc_command ge (at_correlation a) (at_causation a) rpc")
      case (Inl status)
      then have "x = Inl status" "db1 = db"
        using rpc_run x by simp_all
      with Cons.IH xs show ?thesis
        by (auto simp: shows_transaction_def)
    next
      case (Inr cmd)
      obtain build where "exec_at ?P 0 (posting_rpc ge cx (at_draws a) (at_correlation a) (at_causation a) rpc) db
          = map_prod (reply (posting_response ge)) id (exec_at ?P 0 (post_entry cx (at_draws a) cmd build) db)"
        using rpc_run Inr by auto
      then obtain res where res: "exec_at ?P 0 (post_entry cx (at_draws a) cmd build) db = (res, db1)"
          "x = reply (posting_response ge) res"
        using x by (cases "exec_at ?P 0 (post_entry cx (at_draws a) cmd build) db") auto
      obtain ctx where ctx: "rpc_context rpc = Some ctx" "command_scope cmd = rpc_scope rpc"
          "context_meta ge (at_correlation a) (at_causation a) ctx = Inr (command_meta cmd)"
        using rpc_command_key [OF Inr] by blast
      have key: "key_wf (cm_idempotency_key (command_meta cmd))"
          "pg_answers db (command_scope cmd, key_str (cm_idempotency_key (command_meta cmd))) = None"
        using context_meta_Inr [OF ctx(3)] assms(3) ctx(1,2) by auto
      from key res(1) show ?thesis
      proof (cases rule: pg_faulty.attempt_unanswered)
        case (failed e)
        then have "\<exists>status. x = Inl status"
          using res(2) by (simp add: reply_def)
        with Cons.IH xs failed(1) show ?thesis
          by (auto simp: shows_transaction_def)
      next
        case (stored hash entry r at)
        have "shows_transaction ge (entry_to_row entry) x"
          unfolding res(2) by (rule reply_shows) (use stored(5) in \<open>simp add: outcome_fresh_def\<close>)
        with stored(4) xs(2) attempts_answered [OF assms(1,2) Inr stored(1,2,3) xs(1)] show ?thesis
          by auto
      qed
    qed
  qed simp
  then show ?thesis
    by auto
qed

section \<open>What the API shows\<close>

text \<open>
  C27. Postings survive the API.  The postings of an entry as the API shows them, submitted again, are
  read as the postings they came from: accounts, assets, signed amounts over the whole 128-bit
  range and sides.
\<close>

theorem grpc_postings_roundtrip:
  assumes "\<forall>u. ge_uuid_parse ge (ge_uuid_show ge u) = Some u"
    and "\<forall>p \<in> set ps. code_wf (p_asset p)
           \<and> Posting_new (p_account_id p) (p_asset p) (p_amount p) = Inr p"
  shows "and_then (map_posting_inputs ge (map (map_posting ge) ps)) (\<lambda>inputs.
      map_err domain_status (collect_results (map (\<lambda>input.
        Posting_new (pi_account_id input) (pi_asset input) (pi_amount input)) inputs))) = Inr ps"
proof -
  have one: "posting_input ge (map_posting ge p)
      = Inr \<lparr>pi_account_id = p_account_id p, pi_asset = p_asset p, pi_amount = p_amount p\<rparr>"
    if "code_wf (p_asset p)" for p
    using assms(1) AssetCode_new_fixed [OF that]
    by (cases "p_account_id p"; cases "p_asset p"; cases "p_amount p")
      (simp add: posting_input_def map_posting_def parse_account_id_def parse_uuid_def parse_asset_def parse_amount_def
        AccountId_display_def)
  show ?thesis
    using assms(2) by (induction ps) (auto simp: map_posting_inputs_def one result_simps)
qed

text \<open>Errors of the store, the codec and broken invariants reach the client as one and the same status.\<close>

lemma internal_status: "category err = CatInternal \<longleftrightarrow> ledger_status err = \<lparr>status_code = CodeInternal, status_message = ''internal error''\<rparr>"
  by (auto simp: ledger_status_def invalid_argument_def Let_def split: ErrorCategory.splits)

section \<open>Instances\<close>

definition ex_grpc :: grpc_env where
  "ex_grpc = \<lparr>ge_uuid_show = show_i128, ge_uuid_parse = parse_i128, ge_rfc3339 = show_int\<rparr>"

definition ex_rpc :: PostingRpc where
  "ex_rpc = RpcRecordDeposit
     \<lparr>qd_context = Some \<lparr>cc_idempotency_key = ''dep-1'', cc_correlation_id = [], cc_causation_id = ''7''\<rparr>,
      qd_customer_available_account_id = ''1'', qd_deposit_clearing_account_id = ''2'', qd_hot_wallet_account_id = [],
      qd_asset = ''btc'', qd_amount_atomic = ''100'', qd_external_reference = '' 0xdeadbeef ''\<rparr>"

definition ex_attempt :: "faults \<Rightarrow> uuid \<Rightarrow> attempt" where
  "ex_attempt ft u = \<lparr>at_draws = ex_draws u, at_correlation = u, at_causation = u,
     at_faults = (\<lambda>_. no_faults)(2 := ft), at_serials = (\<lambda>_. ex_serials), at_now = (\<lambda>_. 60)\<rparr>"

definition ex_attempts :: "(Status + PostingResponse) list \<times> Db" where
  "ex_attempts = rpc_attempts ex_grpc ex_codec ex_env id of_int ''ledger'' ex_rpc
     [ex_attempt ex_lost 40, ex_attempt no_faults 80] ex_db0"

theorem grpc_exactly_once_witness:
  "fst ex_attempts = [Inl \<lparr>status_code = CodeInternal, status_message = ''internal error''\<rparr>,
      Inr \<lparr>ps_result = Some \<lparr>pr_transaction_id = ''40'', pr_replayed = True, pr_posted_at = ''50''\<rparr>\<rparr>]
   \<and> (\<exists>row. t_entries (snd ex_attempts) = [row] \<and> show_i128 (er_id row) = ''40'')"
proof -
  have results: "fst ex_attempts = [Inl \<lparr>status_code = CodeInternal, status_message = ''internal error''\<rparr>,
      Inr \<lparr>ps_result = Some \<lparr>pr_transaction_id = ''40'', pr_replayed = True, pr_posted_at = ''50''\<rparr>\<rparr>]"
    by code_simp
  have empty: "t_entries ex_db0 = []" "pg_answers ex_db0 (''record_deposit'', ''dep-1'') = None"
    by code_simp+
  have run: "rpc_attempts ex_grpc ex_codec ex_env id of_int ''ledger'' ex_rpc
      [ex_attempt ex_lost 40, ex_attempt no_faults 80] ex_db0 = (fst ex_attempts, snd ex_attempts)"
    by (simp add: ex_attempts_def)
  have free: "\<forall>ctx. rpc_context ex_rpc = Some ctx \<longrightarrow> pg_answers ex_db0 (rpc_scope ex_rpc, cc_idempotency_key ctx) = None"
    using empty(2) by (simp add: ex_rpc_def)
  show ?thesis
    using grpc_exactly_once [OF ex_codec_roundtrip ex_codec_skips_meta free run] results empty(1)
    by (auto simp: shows_transaction_def ex_grpc_def)
qed

theorem grpc_postings_roundtrip_witness:
  "and_then (map_posting_inputs ex_grpc (map (map_posting ex_grpc) (ex_postings 100))) (\<lambda>inputs.
      map_err domain_status (collect_results (map (\<lambda>input.
        Posting_new (pi_account_id input) (pi_asset input) (pi_amount input)) inputs))) = Inr (ex_postings 100)"
proof (rule grpc_postings_roundtrip)
  show "\<forall>u. ge_uuid_parse ex_grpc (ge_uuid_show ex_grpc u) = Some u"
    by (simp add: ex_grpc_def)
  have "list_all (\<lambda>p. code_wf (p_asset p)
      \<and> Posting_new (p_account_id p) (p_asset p) (p_amount p) = Inr p) (ex_postings 100)"
    by code_simp
  then show "\<forall>p \<in> set (ex_postings 100). code_wf (p_asset p)
      \<and> Posting_new (p_account_id p) (p_asset p) (p_amount p) = Inr p"
    by (simp add: list_all_iff)
qed

end
