(* ===== verification/Typed_Entries.thy ===== *)
theory Typed_Entries
  imports Grpc_Props
begin

text \<open>
  What a handler accepts is well formed.  A command read from a request carries a valid key and valid
  asset codes; the entry built from it inherits them and balances; so whatever a posting RPC
  writes can be decoded again.
\<close>

section \<open>Commands\<close>

fun command_assets :: "Command \<Rightarrow> AssetCode set" where
  "command_assets (CreateAccount c) = {}"
| "command_assets (SubmitJournal c) = pi_asset ` set (sj_postings c)"
| "command_assets (RecordDeposit c) = {rd_asset c}"
| "command_assets (RequestWithdrawal c) = {rw_asset c}"
| "command_assets (CompleteWithdrawal c) = {cw_asset c}"
| "command_assets (RejectWithdrawal c) = {jw_asset c}"
| "command_assets (RecordTradeSettlement c) = {rt_base_asset c, rt_quote_asset c}"
| "command_assets (RecordTradingFee c) = {rf_asset c}"
| "command_assets (RecordAdminAdjustment c) = {ra_asset c}"

definition command_wf :: "Command \<Rightarrow> bool" where
  "command_wf cmd \<longleftrightarrow> key_wf (cm_idempotency_key (command_meta cmd)) \<and> (\<forall>a \<in> command_assets cmd. code_wf a)"

lemma parse_asset_wf: "parse_asset text = Inr a \<Longrightarrow> code_wf a"
  by (auto simp: parse_asset_def result_simps intro: AssetCode_new_wf)

lemma map_posting_inputs_wf:
  assumes "map_posting_inputs ge ps = Inr inputs" and "i \<in> set inputs"
  shows "code_wf (pi_asset i)"
proof -
  have "Inr i \<in> set (map (posting_input ge) ps)"
    using assms by (simp add: map_posting_inputs_def collect_results_eq_Inr)
  then obtain p where "posting_input ge p = Inr i"
    by auto
  then show ?thesis
    by (auto simp: posting_input_def result_simps intro: parse_asset_wf)
qed

lemma rpc_command_wf:
  assumes "rpc_command ge co ca rpc = Inr cmd"
  shows "command_wf cmd"
proof -
  have "key_wf (cm_idempotency_key (command_meta cmd))"
    using rpc_command_key [OF assms] context_meta_Inr by fastforce
  moreover have "code_wf a" if "a \<in> command_assets cmd" for a
    using assms that
    by (cases rpc) (auto simp: command_defs result_simps map_sum_Inr intro: parse_asset_wf map_posting_inputs_wf)
  ultimately show ?thesis
    by (simp add: command_wf_def)
qed

section \<open>Entries\<close>

definition entry_for :: "IdempotencyKey \<Rightarrow> AssetCode set \<Rightarrow> JournalEntry \<Rightarrow> bool" where
  "entry_for key assets e \<longleftrightarrow> je_status e = Posted \<and> je_idempotency_key e = key
     \<and> (\<forall>p \<in> set (je_postings e). p_asset p \<in> assets) \<and> validate_balanced (je_postings e) = Inr ()"

lemma annotate_for: "annotate e r = Inr e' \<Longrightarrow> entry_for key as e' \<longleftrightarrow> entry_for key as e"
  by (auto simp: annotate_def entry_for_def split: option.splits if_splits)

lemma JournalEntry_new_for:
  "JournalEntry_new now tx key description ps correlation causation = Inr e \<Longrightarrow> p_asset ` set ps = as
     \<Longrightarrow> entry_for key as e"
  by (auto simp: JournalEntry_new_def entry_for_def result_simps)

lemmas build_defs = build_submit_def build_deposit_def build_request_def build_completion_def build_rejection_def
  build_trade_def build_fee_def build_adjustment_def

lemmas into_entry_defs = ConfirmedDeposit_into_entry_def WithdrawalRequest_into_entry_def
  WithdrawalCompletion_into_entry_def WithdrawalRejection_into_entry_def TradeSettlement_into_entry_def
  TradingFee_into_entry_def AdminAdjustment_into_entry_def

lemma into_entry_for:
  "ConfirmedDeposit_into_entry tx now d = Inr e \<Longrightarrow> entry_for (cd_idempotency_key d) {cd_asset d} e"
  "WithdrawalRequest_into_entry tx now r = Inr e \<Longrightarrow> entry_for (wr_idempotency_key r) {wr_asset r} e"
  "WithdrawalCompletion_into_entry tx now c = Inr e \<Longrightarrow> entry_for (wc_idempotency_key c) {wc_asset c} e"
  "WithdrawalRejection_into_entry tx now j = Inr e \<Longrightarrow> entry_for (wj_idempotency_key j) {wj_asset j} e"
  "TradeSettlement_into_entry tx now t = Inr e
     \<Longrightarrow> entry_for (ts_idempotency_key t) {ts_base_asset t, ts_quote_asset t} e"
  "TradingFee_into_entry tx now f = Inr e \<Longrightarrow> entry_for (tf_idempotency_key f) {tf_asset f} e"
  "AdminAdjustment_into_entry tx now a = Inr e \<Longrightarrow> entry_for (aa_idempotency_key a) {aa_asset a} e"
  by (auto simp: into_entry_defs result_simps transfer_pair_eq Posting_credit_eq Posting_debit_eq require_positive_def
      elim!: JournalEntry_new_for split: option.splits if_splits)

lemma submitted_assets:
  "map (\<lambda>input. from_domain (Posting_new (pi_account_id input) (pi_asset input) (pi_amount input))) inputs = map Inr ps
     \<Longrightarrow> p_asset ` set ps = pi_asset ` set inputs"
proof (induction inputs arbitrary: ps)
  case (Cons i inputs)
  then obtain p qs where "ps = p # qs" "Posting_new (pi_account_id i) (pi_asset i) (pi_amount i) = Inr p"
    by (auto simp: from_domain_def result_simps Cons_eq_map_conv)
  with Cons show ?case
    by (auto simp: Posting_new_def split: if_splits)
qed simp

lemma build_submit_for:
  assumes "build_submit dr c = Inr (entry, extra)"
  shows "entry_for (cm_idempotency_key (sj_meta c)) (pi_asset ` set (sj_postings c)) entry"
  using assms unfolding build_submit_def
  by (auto simp: from_domain_def [of "JournalEntry_new _ _ _ _ _ _ _"] result_simps collect_results_eq_Inr
      intro!: JournalEntry_new_for submitted_assets)

lemma command_build_for:
  assumes "command_build dr cmd = Some (Inr (entry, extra))"
  shows "entry_for (cm_idempotency_key (command_meta cmd)) (command_assets cmd) entry"
  using assms
  by (cases cmd) (auto simp: build_defs(2-) from_domain_def result_simps annotate_for Let_def build_submit_for
      dest!: into_entry_for split: if_splits)

lemma entry_for_wf: "entry_for (cm_idempotency_key (command_meta cmd)) (command_assets cmd) e \<Longrightarrow> command_wf cmd \<Longrightarrow> entry_wf e"
  by (auto simp: entry_for_def command_wf_def entry_wf_def)

section \<open>What the API writes can be read\<close>

text \<open>
  C26. What the API writes is well typed.  Run any posting RPC over reachable tables, with any faults,
  whatever it answers.  If it adds a journal row, the row is that of an entry with a valid key,
  valid asset codes and the status posted, whose postings balance; and asking the API for the
  transaction returns precisely that entry, its time in the microseconds of the row.  Events have to serialise, drawn posting ids to
  ascend, and identifiers to be parsed as they are printed.
\<close>

theorem rpc_writes_typed:
  assumes "pg_reach env db"
    and "exec_at (pg_calls env collate ns fts srs topic nows) 0 (posting_rpc ge cx dr co ca rpc) db = (r, db')"
    and "t_entries db' \<noteq> t_entries db" and "\<forall>ev. \<exists>v. pe_to_value env ev = Inr v"
    and "\<forall>m. ascending (sr_posting (srs m)) (length (t_postings db') - length (t_postings db))"
    and "\<forall>u. ge_uuid_parse ge (ge_uuid_show ge u) = Some u"
  shows "\<exists>e. t_entries db' = t_entries db @ [entry_to_row e] \<and> entry_wf e \<and> validate_balanced (je_postings e) = Inr ()
    \<and> exec_at (pg_calls env collate ns (\<lambda>_. no_faults) srs' topic nows') 0
        (rpc_get_transaction ge cx (ge_uuid_show ge (transaction_uuid (je_id e)))) db' = (Inr (Some (map_entry ge e)), db')"
proof -
  let ?P = "pg_calls env collate ns fts srs topic nows"
  obtain cmd build where cmd: "rpc_command ge co ca rpc = Inr cmd" and build: "command_build dr cmd = Some build"
      and "(r, db') = map_prod (reply (posting_response ge)) id (exec_at ?P 0 (post_entry cx dr cmd build) db)"
    using posting_rpc_build [where ge = ge and co = co and ca = ca and rpc = rpc and P = ?P and m = 0 and cx = cx and dr = dr and s = db]
      assms(2,3) by (auto split: sum.splits)
  then obtain res where run: "exec_at ?P 0 (post_entry cx dr cmd build) db = (res, db')"
    by (cases "exec_at ?P 0 (post_entry cx dr cmd build) db") auto
  obtain entry extra rec m out where b: "build = Inr (entry, extra)"
      and c: "pg_commit env (fts m) (srs m) topic (nows m)
        \<lparr>jc_entry = entry, jc_events = entry_events cx dr entry extra, jc_idempotency = rec\<rparr> db = (out, db')"
    using pg_reads.post_entry_commits [OF run] assms(3) by (auto simp: pg_calls_def pg_ports_def)
  let ?c = "\<lparr>jc_entry = entry, jc_events = entry_events cx dr entry extra, jc_idempotency = rec\<rparr>"
  have committed: "pg_commit env no_faults (srs m) topic (nows m) ?c db = (Inr Committed, db')"
    using pg_commit_effect [OF c] pg_commit_answers assms(3) by fastforce
  have ser: "serializable env (jc_events ?c)"
    using assms(4) by (simp add: serializable_def)
  note written = pg_commit_written [OF assms(1) committed ser]
  have wf: "entry_wf entry" and balanced: "validate_balanced (je_postings entry) = Inr ()"
    using command_build_for [OF build [unfolded b]] entry_for_wf [OF _ rpc_command_wf [OF cmd]] by (auto simp: entry_for_def)
  define e where "e = entry\<lparr>je_created_at := timestamptz (je_created_at entry)\<rparr>"
  have e: "entry_to_row e = entry_to_row entry" "entry_wf e" "validate_balanced (je_postings e) = Inr ()"
    using wf balanced by (simp_all add: e_def entry_to_row_def entry_wf_def)
  have "ascending (sr_posting (srs m)) (length (je_postings entry))"
    using assms(5) written(2) by (simp add: posting_rows_map)
  then have "pg_find_entry env no_faults (je_id e) db' = (Inr (Some e), db')"
    using pg_commit_reads_back [OF assms(1) committed ser] wf by (simp add: e_def)
  then have "exec_at (pg_calls env collate ns (\<lambda>_. no_faults) srs' topic nows') 0
      (rpc_get_transaction ge cx (ge_uuid_show ge (transaction_uuid (je_id e)))) db' = (Inr (Some (map_entry ge e)), db')"
    using assms(6)
    by (simp add: rpc_get_transaction_def parse_uuid_def get_transaction_def exec_at_map pg_calls_def pg_ports_def reply_def)
  with written(1) e show ?thesis
    by (intro exI [of _ e]) simp
qed

definition ex_typed_run :: "(Status + PostingResponse) \<times> Db" where
  "ex_typed_run = exec_at ex_lost_calls 0
     (posting_rpc ex_grpc ex_codec (ex_draws 40) 7 7 ex_rpc) ex_db0"

theorem rpc_writes_typed_witness:
  "fst ex_typed_run = Inl \<lparr>status_code = CodeInternal, status_message = ''internal error''\<rparr>
   \<and> (\<exists>e. t_entries (snd ex_typed_run) = [entry_to_row e] \<and> entry_wf e
       \<and> exec_at (pg_calls ex_env id of_int (\<lambda>_. no_faults) (\<lambda>_. ex_serials) ''ledger'' (\<lambda>_. 99)) 0
           (rpc_get_transaction ex_grpc ex_codec (ge_uuid_show ex_grpc (transaction_uuid (je_id e)))) (snd ex_typed_run)
         = (Inr (Some (map_entry ex_grpc e)), snd ex_typed_run))"
proof -
  have lost: "fst ex_typed_run = Inl \<lparr>status_code = CodeInternal, status_message = ''internal error''\<rparr>"
    by code_simp
  have empty: "t_entries ex_db0 = []"
    by code_simp
  have "length (t_entries (snd ex_typed_run)) = 1"
    by code_simp
  then have wrote: "t_entries (snd ex_typed_run) \<noteq> t_entries ex_db0"
    using empty by auto
  have events: "\<forall>ev. \<exists>v. pe_to_value ex_env ev = Inr v"
    by (simp add: ex_env_def)
  have ids: "ascending (sr_posting ex_serials) (length (t_postings (snd ex_typed_run)) - length (t_postings ex_db0))"
    by code_simp
  have uuids: "\<forall>u. ge_uuid_parse ex_grpc (ge_uuid_show ex_grpc u) = Some u"
    by (simp add: ex_grpc_def)
  obtain r db' where run: "ex_typed_run = (r, db')"
    by (cases ex_typed_run)
  show ?thesis
    using rpc_writes_typed [OF ex_db0_reach run [unfolded ex_typed_run_def ex_lost_calls_def] _ events _ uuids] wrote ids lost
    unfolding run empty by auto
qed

end
