(* ===== verification/Http.thy ===== *)
theory Http
  imports Grpc Postgres_Props
begin

text \<open>
  \<open>crates/api-http\<close>: the authorizers (\<open>auth.rs\<close>), the operational and administrative routes (\<open>lib.rs\<close>),
  and how \<open>services/ledger-service\<close> chooses the authorizer.

  A request is its path and its headers; the values of the headers are byte strings, and \<open>to_str\<close> is
  that of the \<open>http\<close> crate.  Prometheus, the body limit and the timeout are layers of third-party
  crates.
\<close>

unbundle bit_operations_syntax

section \<open>Authorizers\<close>

definition bytes :: "string \<Rightarrow> u8 list" where
  "bytes s = map (\<lambda>c. of_nat (code_of c)) s"

definition constant_time_eq :: "string \<Rightarrow> string \<Rightarrow> bool" where
  "constant_time_eq left right =
     (if length left \<noteq> length right then False
      else fold (\<lambda>(a, b) acc. acc OR (a XOR b)) (zip (bytes left) (bytes right)) 0 = 0)"

datatype AuthError = AuthError

datatype Authorizer = DevTokenAuthorizer string | AllowAllAuthorizer

definition DevTokenAuthorizer_from_env :: "(string \<Rightarrow> string option) \<Rightarrow> Authorizer" where
  "DevTokenAuthorizer_from_env env =
     DevTokenAuthorizer (case env ''IRONLEDGER_DEV_TOKEN'' of None \<Rightarrow> ''dev-only-change-me'' | Some t \<Rightarrow> t)"

fun authorize :: "Authorizer \<Rightarrow> string option \<Rightarrow> AuthError + unit" where
  "authorize (DevTokenAuthorizer secret) bearer =
     (case bearer of
        None \<Rightarrow> Inl AuthError
      | Some token \<Rightarrow> if constant_time_eq token secret then Inr () else Inl AuthError)"
| "authorize AllowAllAuthorizer bearer = Inr ()"

definition service_authorizer :: "(string \<Rightarrow> string option) \<Rightarrow> Authorizer" where
  "service_authorizer env =
     (if env ''IRONLEDGER_AUTH_MODE'' = Some ''dev'' then DevTokenAuthorizer_from_env env else AllowAllAuthorizer)"

section \<open>Requests and responses\<close>

type_synonym headers = "(string \<times> string) list"

fun strip_prefix :: "string \<Rightarrow> string \<Rightarrow> string option" where
  "strip_prefix [] s = Some s"
| "strip_prefix (p # ps) [] = None"
| "strip_prefix (p # ps) (c # cs) = (if p = c then strip_prefix ps cs else None)"

definition bearer_token :: "(string \<Rightarrow> string option) \<Rightarrow> headers \<Rightarrow> string option" where
  "bearer_token to_str hs =
     Option.bind (map_of hs ''authorization'') (\<lambda>value.
     Option.bind (to_str value) (\<lambda>value. strip_prefix ''Bearer '' value))"

record OutboxPendingRow =
  opr_id :: i64
  opr_event_id :: string
  opr_topic :: string
  opr_attempts :: i32
  opr_created_at :: string

record OutboxResponse =
  or_stats :: OutboxStats
  or_pending :: "OutboxPendingRow list"

datatype Body =
    Fields "(string \<times> string) list"
  | PlainText string
  | OutboxBody OutboxResponse
  | ReportBody ReconcileReport
  | ConsumersBody "ConsumerStatus list"

record Response =
  re_status :: nat
  re_body :: Body

text \<open>
  The shared state: the ports of the ledger service, the store and the reconciler.  \<open>hs_ledger m\<close> is
  what call number \<open>m\<close> of a request meets.
\<close>

record 's HttpState =
  hs_ledger :: "nat \<Rightarrow> 's ports"
  hs_ping :: "'s \<Rightarrow> (LedgerError + unit) \<times> 's"
  hs_name :: string
  hs_status :: "'s \<Rightarrow> (LedgerError + ConsumerStatus list) \<times> 's"
  hs_reconcile :: "'s \<Rightarrow> ReconcileError + ReconcileReport"
  hs_metrics :: string
  hs_auth :: Authorizer
  hs_to_str :: "string \<Rightarrow> string option"
  hs_uuid_show :: "uuid \<Rightarrow> string"
  hs_rfc3339 :: "datetime \<Rightarrow> string"

section \<open>Handlers\<close>

definition internal :: "string \<Rightarrow> Response" where
  "internal err = \<lparr>re_status = 500, re_body = Fields [(''error'', err)]\<rparr>"

definition live :: Response where
  "live = \<lparr>re_status = 200, re_body = Fields [(''status'', ''live'')]\<rparr>"

definition ready :: "'s HttpState \<Rightarrow> 's \<Rightarrow> Response \<times> 's" where
  "ready hs s =
     (case hs_ping hs s of
        (Inl err, s') \<Rightarrow>
          (\<lparr>re_status = 503, re_body = Fields [(''status'', ''not_ready''), (''dependency'', hs_name hs),
              (''error'', display_ledger_error err)]\<rparr>, s')
      | (Inr _, s') \<Rightarrow> (\<lparr>re_status = 200, re_body = Fields [(''status'', ''ready'')]\<rparr>, s'))"

definition metrics :: "'s HttpState \<Rightarrow> Response" where
  "metrics hs = \<lparr>re_status = 200, re_body = PlainText (hs_metrics hs)\<rparr>"

definition authorize_admin :: "'s HttpState \<Rightarrow> headers \<Rightarrow> Response + unit" where
  "authorize_admin hs headers =
     map_err (\<lambda>_. \<lparr>re_status = 401, re_body = Fields [(''error'', ''unauthorized'')]\<rparr>)
       (authorize (hs_auth hs) (bearer_token (hs_to_str hs) headers))"

definition pending_row :: "'s HttpState \<Rightarrow> OutboxMessage \<Rightarrow> OutboxPendingRow" where
  "pending_row hs row =
     \<lparr>opr_id = om_id row, opr_event_id = hs_uuid_show hs (event_uuid (ev_event_id (om_event row))),
      opr_topic = om_topic row, opr_attempts = om_attempts row, opr_created_at = hs_rfc3339 hs (om_created_at row)\<rparr>"

definition admin_outbox :: "'s HttpState \<Rightarrow> headers \<Rightarrow> 's \<Rightarrow> Response \<times> 's" where
  "admin_outbox hs headers s =
     (case authorize_admin hs headers of
        Inl r \<Rightarrow> (r, s)
      | Inr _ \<Rightarrow>
          (case exec_at (hs_ledger hs) 0 outbox_stats_query s of
             (Inl err, s1) \<Rightarrow> (internal (display_ledger_error err), s1)
           | (Inr stats, s1) \<Rightarrow>
               (case exec_at (hs_ledger hs) 1 (pending_outbox_query (Page_new 25 0)) s1 of
                  (Inl err, s2) \<Rightarrow> (internal (display_ledger_error err), s2)
                | (Inr rows, s2) \<Rightarrow>
                    (\<lparr>re_status = 200,
                      re_body = OutboxBody \<lparr>or_stats = stats, or_pending = map (pending_row hs) rows\<rparr>\<rparr>, s2))))"

definition admin_reconciliation :: "'s HttpState \<Rightarrow> headers \<Rightarrow> 's \<Rightarrow> Response \<times> 's" where
  "admin_reconciliation hs headers s =
     (case authorize_admin hs headers of
        Inl r \<Rightarrow> (r, s)
      | Inr _ \<Rightarrow>
          (case hs_reconcile hs s of
             Inl err \<Rightarrow> (internal (display_reconcile_error err), s)
           | Inr report \<Rightarrow> (\<lparr>re_status = 200, re_body = ReportBody report\<rparr>, s)))"

definition admin_consumers :: "'s HttpState \<Rightarrow> headers \<Rightarrow> 's \<Rightarrow> Response \<times> 's" where
  "admin_consumers hs headers s =
     (case authorize_admin hs headers of
        Inl r \<Rightarrow> (r, s)
      | Inr _ \<Rightarrow>
          (case hs_status hs s of
             (Inl err, s') \<Rightarrow> (internal (display_ledger_error err), s')
           | (Inr status, s') \<Rightarrow> (\<lparr>re_status = 200, re_body = ConsumersBody status\<rparr>, s')))"

text \<open>The \<open>GET\<close> routes; other paths are answered by the router of \<open>axum\<close>.\<close>

definition router :: "'s HttpState \<Rightarrow> string \<Rightarrow> headers \<Rightarrow> 's \<Rightarrow> (Response \<times> 's) option" where
  "router hs path headers s =
     (if path = ''/health/live'' then Some (live, s)
      else if path = ''/health/ready'' then Some (ready hs s)
      else if path = ''/metrics'' then Some (metrics hs, s)
      else if path = ''/admin/outbox'' then Some (admin_outbox hs headers s)
      else if path = ''/admin/reconciliation'' then Some (admin_reconciliation hs headers s)
      else if path = ''/admin/consumers'' then Some (admin_consumers hs headers s)
      else None)"

text \<open>
  The state the ledger service builds over PostgreSQL; every call of a request has its own faults.
\<close>

definition pg_http_state ::
    "pg_env \<Rightarrow> (string \<Rightarrow> string) \<Rightarrow> (int \<Rightarrow> i64) \<Rightarrow> (nat \<Rightarrow> faults) \<Rightarrow> (nat \<Rightarrow> serials) \<Rightarrow> string \<Rightarrow> (nat \<Rightarrow> datetime)
      \<Rightarrow> (string \<Rightarrow> string option) \<Rightarrow> string \<Rightarrow> (string \<Rightarrow> string option) \<Rightarrow> (datetime \<Rightarrow> string) \<Rightarrow> Db HttpState" where
  "pg_http_state env collate ns fts srs topic nows vars rendered to_str rfc3339 =
     \<lparr>hs_ledger = pg_calls env collate ns fts srs topic nows, hs_ping = pg_ping env (fts 0), hs_name = ''postgres'',
      hs_status = pg_consumer_status env (fts 0),
      hs_reconcile = (\<lambda>db. reconcile_authoritative (nows 0) (pg_all_entries env (fts 0) db)
        (pg_all_entries env (fts 1) db) (pg_view_snapshot env collate (fts 2) db)),
      hs_metrics = rendered, hs_auth = service_authorizer vars, hs_to_str = to_str,
      hs_uuid_show = pe_uuid_show env, hs_rfc3339 = rfc3339\<rparr>"

section \<open>The guard of the administrative routes\<close>

lemma fold_or_xor:
  "fold (\<lambda>(a, b) acc. acc OR (a XOR b)) zs (acc :: u8) = 0 \<longleftrightarrow> acc = 0 \<and> (\<forall>(a, b) \<in> set zs. a = b)"
proof (induction zs arbitrary: acc)
  case (Cons z zs)
  have "x OR (a XOR b) = 0 \<longleftrightarrow> x = 0 \<and> a = b" for x a b :: u8
    by (auto simp: bit_eq_iff bit_simps)
  with Cons show ?case
    by (cases z) simp
qed simp

lemma bytes_inj: "bytes s = bytes t \<longleftrightarrow> s = t"
proof -
  have "unat (of_nat (code_of c) :: u8) = of_char c" for c
    using nat_of_char_less_256 [of c] by (simp add: unat_of_nat code_of_def)
  then have "inj (\<lambda>c. of_nat (code_of c) :: u8)"
    by (intro inj_onI) (metis of_char_eq_iff)
  then show ?thesis
    by (simp add: bytes_def inj_map_eq_map)
qed

text \<open>The comparison without early exit decides equality.\<close>

lemma constant_time_eq_iff: "constant_time_eq s t \<longleftrightarrow> s = t"
proof (cases "length s = length t")
  case True
  have "list_all2 (=) xs ys \<longleftrightarrow> (\<forall>(a, b) \<in> set (zip xs ys). a = b)" if "length xs = length ys" for xs ys :: "u8 list"
    using that by (simp add: list_all2_iff)
  then have "(\<forall>(a, b) \<in> set (zip (bytes s) (bytes t)). a = b) \<longleftrightarrow> bytes s = bytes t"
    using True by (simp add: list.rel_eq bytes_def flip: list_all2_iff)
  with True show ?thesis
    by (simp add: constant_time_eq_def fold_or_xor bytes_inj)
qed (auto simp: constant_time_eq_def)

definition admin_path :: "string \<Rightarrow> bool" where
  "admin_path path \<longleftrightarrow> path \<in> {''/admin/outbox'', ''/admin/reconciliation'', ''/admin/consumers''}"

definition service_token :: "(string \<Rightarrow> string option) \<Rightarrow> string" where
  "service_token vars = (case vars ''IRONLEDGER_DEV_TOKEN'' of None \<Rightarrow> ''dev-only-change-me'' | Some t \<Rightarrow> t)"

lemma service_authorize:
  "authorize (service_authorizer vars) bearer
     = (if vars ''IRONLEDGER_AUTH_MODE'' = Some ''dev'' \<and> bearer \<noteq> Some (service_token vars) then Inl AuthError else Inr ())"
  by (auto simp: service_authorizer_def DevTokenAuthorizer_from_env_def service_token_def constant_time_eq_iff
      split: option.splits)

text \<open>
  C34. The administrative routes are guarded in development mode only.  With the authorizer the ledger
  service chooses, a request to an administrative route is refused as unauthorized exactly when
  the mode is \<open>dev\<close> and the bearer token of the request is not the configured one; a refused
  request reads nothing and its answer depends on nothing.
\<close>

theorem admin_guard:
  assumes "admin_path path" and "hs_auth hs = service_authorizer vars" and "router hs path headers s = Some (r, s')"
  shows "(re_status r = 401 \<longleftrightarrow> vars ''IRONLEDGER_AUTH_MODE'' = Some ''dev''
            \<and> bearer_token (hs_to_str hs) headers \<noteq> Some (service_token vars))
    \<and> (re_status r = 401 \<longrightarrow> s' = s \<and> r = \<lparr>re_status = 401, re_body = Fields [(''error'', ''unauthorized'')]\<rparr>)"
proof -
  let ?no = "vars ''IRONLEDGER_AUTH_MODE'' = Some ''dev'' \<and> bearer_token (hs_to_str hs) headers \<noteq> Some (service_token vars)"
  let ?refused = "\<lparr>re_status = 401, re_body = Fields [(''error'', ''unauthorized'')]\<rparr>"
  have auth: "authorize_admin hs headers = (if ?no then Inl ?refused else Inr ())"
    by (simp add: authorize_admin_def assms(2) service_authorize)
  have "(r, s') \<in> {admin_outbox hs headers s, admin_reconciliation hs headers s, admin_consumers hs headers s}"
    using assms(1,3) by (auto simp: admin_path_def router_def)
  then show ?thesis
  proof (cases ?no)
    case True
    with auth \<open>(r, s') \<in> _\<close> show ?thesis
      by (auto simp: admin_outbox_def admin_reconciliation_def admin_consumers_def)
  next
    case False
    with auth have "authorize_admin hs headers = Inr ()"
      by presburger
    with \<open>(r, s') \<in> _\<close> have "re_status r \<noteq> 401"
      by (auto simp: admin_outbox_def admin_reconciliation_def admin_consumers_def internal_def
          split: prod.splits sum.splits)
    with False show ?thesis
      by blast
  qed
qed

definition ex_vars :: "string \<Rightarrow> string option" where
  "ex_vars n = map_of [(''IRONLEDGER_AUTH_MODE'', ''dev''), (''IRONLEDGER_DEV_TOKEN'', ''s3cret'')] n"

definition ex_http :: "Db HttpState" where
  "ex_http = pg_http_state ex_env id of_int (\<lambda>_. no_faults) (\<lambda>_. ex_serials) ''ledger'' (\<lambda>_. 60) ex_vars [] Some show_int"

theorem admin_guard_witness:
  "(case router ex_http ''/admin/outbox'' [(''authorization'', ''Bearer s3cret'')] ex_db of
      Some (r, _) \<Rightarrow> re_status r \<noteq> 401 | None \<Rightarrow> False)
   \<and> (case router ex_http ''/admin/outbox'' [(''authorization'', ''Bearer guess'')] ex_db of
      Some (r, db) \<Rightarrow> re_status r = 401 \<and> db = ex_db | None \<Rightarrow> False)"
proof -
  have path: "admin_path ''/admin/outbox''" and auth: "hs_auth ex_http = service_authorizer ex_vars"
    by (simp_all add: admin_path_def ex_http_def pg_http_state_def)
  have vars: "ex_vars ''IRONLEDGER_AUTH_MODE'' = Some ''dev''" "service_token ex_vars = ''s3cret''"
    by (simp_all add: ex_vars_def service_token_def)
  have token: "bearer_token (hs_to_str ex_http) [(''authorization'', ''Bearer s3cret'')] = Some ''s3cret''"
    "bearer_token (hs_to_str ex_http) [(''authorization'', ''Bearer guess'')] = Some ''guess''"
    by (simp_all add: bearer_token_def ex_http_def pg_http_state_def)
  have "\<exists>r db. router ex_http ''/admin/outbox'' hs ex_db = Some (r, db)" for hs
    by (auto simp: router_def)
  then obtain r1 db1 r2 db2 where run: "router ex_http ''/admin/outbox'' [(''authorization'', ''Bearer s3cret'')] ex_db = Some (r1, db1)"
      "router ex_http ''/admin/outbox'' [(''authorization'', ''Bearer guess'')] ex_db = Some (r2, db2)"
    by meson
  show ?thesis
    using admin_guard [OF path auth run(1)] admin_guard [OF path auth run(2)] vars token run by simp
qed

end
