(* ===== verification/Cli.thy ===== *)
theory Cli
  imports Chart Grpc Event_Bus Postgres_Service
begin

text \<open>
  \<open>crates/ironledger-cli\<close> and \<open>services\<close>: the operator commands, what the services run, and the
  periodic reconciliation.

  A command makes several calls to the ledger one after the other.  \<open>cl_calls\<close> counts them: the \<open>n\<close>-th
  call draws \<open>ce_draws n\<close> and the tracing identifiers \<open>ce_trace n\<close>, and its port call number \<open>m\<close> meets
  the store through \<open>ce_ports n m\<close>, with its own clock, sequence values and faults.  \<open>cl_out\<close> holds the printed lines.  A replay is a
  loop, so a command that does not return is \<open>None\<close>.
\<close>

section \<open>Commands as sequences of calls\<close>

datatype CliError =
    CliLedger LedgerError
  | CliDomain DomainError
  | CliReconcile ReconcileError
  | CliProjector ProjectorError
  | CliMessage string

record 's cli_env =
  ce_ports :: "nat \<Rightarrow> nat \<Rightarrow> 's ports"
  ce_codec :: codec
  ce_draws :: "nat \<Rightarrow> draws"
  ce_trace :: "nat \<Rightarrow> uuid \<times> uuid"
  ce_reconcile :: "'s \<Rightarrow> ReconcileError + ReconcileReport"
  ce_projection :: "'s projection_ports"

record 's cli_state =
  cl_store :: 's
  cl_calls :: nat
  cl_out :: "string list"

type_synonym ('s, 'a) cli = "'s cli_state \<Rightarrow> ((CliError + 'a) \<times> 's cli_state) option"

definition cli_done :: "CliError + 'a \<Rightarrow> ('s, 'a) cli" where
  "cli_done r s = Some (r, s)"

text \<open>Sequencing with \<open>?\<close>.\<close>

definition cli_bind :: "('s, 'a) cli \<Rightarrow> ('a \<Rightarrow> ('s, 'b) cli) \<Rightarrow> ('s, 'b) cli" where
  "cli_bind m k s =
     (case m s of
        None \<Rightarrow> None
      | Some (Inl e, s') \<Rightarrow> Some (Inl e, s')
      | Some (Inr a, s') \<Rightarrow> k a s')"

fun cli_each :: "('x \<Rightarrow> ('s, unit) cli) \<Rightarrow> 'x list \<Rightarrow> ('s, unit) cli" where
  "cli_each f [] = cli_done (Inr ())"
| "cli_each f (x # xs) = cli_bind (f x) (\<lambda>_. cli_each f xs)"

definition println :: "string \<Rightarrow> ('s, unit) cli" where
  "println line s = Some (Inr (), s\<lparr>cl_out := cl_out s @ [line]\<rparr>)"

text \<open>One call to the ledger service; \<open>p\<close> is its handler with the values drawn for it.\<close>

definition call_ledger :: "'s cli_env \<Rightarrow> (draws \<Rightarrow> (LedgerError + 'a) prog) \<Rightarrow> ('s, 'a) cli" where
  "call_ledger ce p s =
     (case exec_at (ce_ports ce (cl_calls s)) 0 (p (ce_draws ce (cl_calls s))) (cl_store s) of
        (r, st) \<Rightarrow> Some (map_err CliLedger r, s\<lparr>cl_store := st, cl_calls := Suc (cl_calls s)\<rparr>))"

definition meta_from_key :: "'s cli_env \<Rightarrow> string \<Rightarrow> ('s, CommandMeta) cli" where
  "meta_from_key ce key s =
     Some (map_err CliDomain (CommandMeta_from_key (fst (ce_trace ce (cl_calls s))) (snd (ce_trace ce (cl_calls s))) key), s)"

section \<open>The operator commands\<close>

definition ensure_account :: "'s cli_env \<Rightarrow> AccountSpec \<Rightarrow> ('s, unit) cli" where
  "ensure_account ce spec =
     cli_bind (call_ledger ce (\<lambda>_. find_account_by_name_query (spec_name spec))) (\<lambda>found.
       if found = None
       then cli_bind (meta_from_key ce (''seed:'' @ spec_name spec)) (\<lambda>meta.
            cli_bind (call_ledger ce (\<lambda>dr. create_account (ce_codec ce) dr
              \<lparr>ca_meta = meta, ca_name = spec_name spec, ca_kind = spec_kind spec, ca_policy = spec_policy spec\<rparr>)) (\<lambda>_.
            cli_done (Inr ())))
       else cli_done (Inr ()))"

definition ensure_chart :: "'s cli_env \<Rightarrow> ('s, unit) cli" where
  "ensure_chart ce = cli_each (ensure_account ce) (full_chart [''alice'', ''bob''])"

definition cli_account_id :: "'s cli_env \<Rightarrow> string \<Rightarrow> ('s, AccountId) cli" where
  "cli_account_id ce aname =
     cli_bind (call_ledger ce (\<lambda>_. find_account_by_name_query aname)) (\<lambda>found.
       cli_done (and_then (ok_or found (CliMessage (''account '' @ [CHR 0x27] @ aname @ [CHR 0x27] @ '' missing'')))
         (\<lambda>account. Inr (acc_id account))))"

definition print_balance :: "'s cli_env \<Rightarrow> string \<Rightarrow> ('s, unit) cli" where
  "print_balance ce account_name =
     cli_bind (call_ledger ce (\<lambda>_. find_account_by_name_query account_name)) (\<lambda>found.
     cli_bind (cli_done (ok_or found (CliMessage ''account not found''))) (\<lambda>account.
     cli_bind (call_ledger ce (\<lambda>_. get_balances (ce_codec ce) (acc_id account) None)) (\<lambda>balances.
     cli_bind (println (''Account '' @ account_name @ '':'')) (\<lambda>_.
       cli_each (\<lambda>balance. println (''  '' @ code_str (br_asset balance) @ '' => '' @ show_i128 (raw (br_amount balance))))
         balances))))"

definition run_reconcile :: "'s cli_env \<Rightarrow> ('s, unit) cli" where
  "run_reconcile ce s =
     cli_bind (cli_done (map_err CliReconcile (ce_reconcile ce (cl_store s)))) (\<lambda>report.
       println (if is_clean report
                then ''Reconciliation: clean ('' @ show_nat (unat (rr_entries_scanned report)) @ '' entries)''
                else ''Reconciliation: '' @ show_nat (length (rr_discrepancies report)) @ '' discrepancies'')) s"

definition run_replay :: "'s cli_env \<Rightarrow> ('s, unit) cli" where
  "run_replay ce s =
     (case replay_events (ce_projection ce) ''balance-projector'' Beginning 500 (cl_store s) of
        None \<Rightarrow> None
      | Some (r, st) \<Rightarrow>
          cli_bind (cli_done (map_err CliProjector r)) (\<lambda>report.
            println (''Replay: scanned '' @ show_nat (unat (rp_scanned report)) @ '' applied ''
              @ show_nat (unat (rp_applied report)) @ '' duplicates '' @ show_nat (unat (rp_duplicates report))))
            (s\<lparr>cl_store := st\<rparr>))"

text \<open>The deposits of the scenario differ in the key, the customer, the asset, the amount and the reference.\<close>

definition demo_deposit ::
    "'s cli_env \<Rightarrow> string \<Rightarrow> AccountId \<Rightarrow> AccountId \<Rightarrow> AssetCode \<Rightarrow> i128 \<Rightarrow> string \<Rightarrow> ('s, unit) cli" where
  "demo_deposit ce key customer hot asset amount reference =
     cli_bind (meta_from_key ce key) (\<lambda>meta.
     cli_bind (cli_account_id ce DEPOSIT_CLEARING) (\<lambda>clearing.
     cli_bind (call_ledger ce (\<lambda>dr. record_deposit (ce_codec ce) dr
       \<lparr>rd_meta = meta, rd_customer_available = customer, rd_deposit_clearing = clearing, rd_hot_wallet = Some hot,
        rd_asset = asset, rd_amount = AtomicAmount amount, rd_external_reference = Some reference\<rparr>)) (\<lambda>_.
     cli_done (Inr ()))))"

definition demo_trade :: "'s cli_env \<Rightarrow> AccountId \<Rightarrow> AccountId \<Rightarrow> ('s, unit) cli" where
  "demo_trade ce alice_avail bob_avail =
     cli_bind (meta_from_key ce ''demo:trade:1'') (\<lambda>meta.
     cli_bind (call_ledger ce (\<lambda>dr. record_trade_settlement (ce_codec ce) dr
       \<lparr>rt_meta = meta, rt_buyer_available = alice_avail, rt_seller_available = bob_avail,
        rt_base_asset = btc, rt_base_amount = AtomicAmount 1000000, rt_quote_asset = usd,
        rt_quote_amount = AtomicAmount 50000000000, rt_trade_reference = Some ''demo-match-1''\<rparr>)) (\<lambda>_.
     cli_done (Inr ())))"

definition demo_fee :: "'s cli_env \<Rightarrow> AccountId \<Rightarrow> AccountId \<Rightarrow> ('s, unit) cli" where
  "demo_fee ce alice_avail fee =
     cli_bind (meta_from_key ce ''demo:fee:1'') (\<lambda>meta.
     cli_bind (call_ledger ce (\<lambda>dr. record_trading_fee (ce_codec ce) dr
       \<lparr>rf_meta = meta, rf_customer_available = alice_avail, rf_fee_revenue = fee, rf_asset = usd,
        rf_amount = AtomicAmount 50000000\<rparr>)) (\<lambda>_.
     cli_done (Inr ())))"

definition demo_withdrawal :: "'s cli_env \<Rightarrow> AccountId \<Rightarrow> AccountId \<Rightarrow> AccountId \<Rightarrow> ('s, unit) cli" where
  "demo_withdrawal ce alice_avail alice_locked hot =
     cli_bind (meta_from_key ce ''demo:withdraw:req'') (\<lambda>meta.
     cli_bind (call_ledger ce (\<lambda>dr. request_withdrawal (ce_codec ce) dr
       \<lparr>rw_meta = meta, rw_customer_available = alice_avail, rw_customer_locked = alice_locked, rw_asset = btc,
        rw_amount = AtomicAmount 100000, rw_destination_reference = Some ''bc1q-demo''\<rparr>)) (\<lambda>_.
     cli_bind (meta_from_key ce ''demo:withdraw:complete'') (\<lambda>meta.
     cli_bind (cli_account_id ce WITHDRAWAL_CLEARING) (\<lambda>clearing.
     cli_bind (call_ledger ce (\<lambda>dr. complete_withdrawal (ce_codec ce) dr
       \<lparr>cw_meta = meta, cw_customer_locked = alice_locked, cw_withdrawal_clearing = clearing, cw_hot_wallet = hot,
        cw_asset = btc, cw_amount = AtomicAmount 100000, cw_settlement_reference = Some ''demo-chain-tx''\<rparr>)) (\<lambda>_.
     cli_done (Inr ()))))))"

definition run_demo :: "'s cli_env \<Rightarrow> ('s, unit) cli" where
  "run_demo ce =
     cli_bind (ensure_chart ce) (\<lambda>_.
     cli_bind (cli_account_id ce (customer_available ''alice'')) (\<lambda>alice_avail.
     cli_bind (cli_account_id ce (customer_locked ''alice'')) (\<lambda>alice_locked.
     cli_bind (cli_account_id ce (customer_available ''bob'')) (\<lambda>bob_avail.
     cli_bind (cli_account_id ce EXCHANGE_HOT_WALLET) (\<lambda>hot.
     cli_bind (cli_account_id ce FEE_REVENUE) (\<lambda>fee.
     cli_bind (demo_deposit ce ''demo:deposit:alice:btc'' alice_avail hot btc 100000000 ''demo-tx-btc'') (\<lambda>_.
     cli_bind (demo_deposit ce ''demo:deposit:bob:usd'' bob_avail hot usd 10000000000 ''demo-tx-usd'') (\<lambda>_.
     cli_bind (demo_trade ce alice_avail bob_avail) (\<lambda>_.
     cli_bind (demo_fee ce alice_avail fee) (\<lambda>_.
     cli_bind (demo_withdrawal ce alice_avail alice_locked hot) (\<lambda>_.
     cli_bind (print_balance ce (customer_available ''alice'')) (\<lambda>_.
     cli_bind (print_balance ce (customer_available ''bob'')) (\<lambda>_.
     cli_bind (run_reconcile ce) (\<lambda>_.
     cli_bind (run_replay ce) (\<lambda>_.
       println ([CHR 0x0A] @ ''IronLedger demo completed successfully.''))))))))))))))))"

datatype Commands = Demo | Balance string | Reconcile | Replay

fun cli_main :: "'s cli_env \<Rightarrow> Commands \<Rightarrow> ('s, unit) cli" where
  "cli_main ce Demo = run_demo ce"
| "cli_main ce (Balance account) = print_balance ce account"
| "cli_main ce Reconcile = run_reconcile ce"
| "cli_main ce Replay = run_replay ce"

text \<open>
  The environment \<open>main\<close> builds over PostgreSQL.  The three reads of a reconciliation have a plan each.
\<close>

definition pg_cli ::
    "pg_env \<Rightarrow> (string \<Rightarrow> string) \<Rightarrow> (int \<Rightarrow> i64) \<Rightarrow> codec \<Rightarrow> (nat \<Rightarrow> nat \<Rightarrow> faults) \<Rightarrow> (nat \<Rightarrow> nat \<Rightarrow> serials)
      \<Rightarrow> (nat \<Rightarrow> nat \<Rightarrow> datetime) \<Rightarrow> (nat \<Rightarrow> draws) \<Rightarrow> (nat \<Rightarrow> uuid \<times> uuid) \<Rightarrow> (nat \<Rightarrow> faults) \<Rightarrow> faults \<Rightarrow> datetime
      \<Rightarrow> Db cli_env" where
  "pg_cli env collate ns cx fts srs nows drs traces rfts ft now =
     \<lparr>ce_ports = (\<lambda>n. pg_calls env collate ns (fts n) (srs n) ''ledger.events'' (nows n)), ce_codec = cx,
      ce_draws = drs, ce_trace = traces,
      ce_reconcile = (\<lambda>db. reconcile_authoritative now (pg_all_entries env (rfts 0) db) (pg_all_entries env (rfts 1) db)
        (pg_view_snapshot env collate (rfts 2) db)),
      ce_projection = pg_projection env ft now\<rparr>"

section \<open>What the services run\<close>

text \<open>The relay the ledger service starts, and the replay with which the projector service starts.\<close>

definition ledger_service_relay ::
    "(LedgerEvent \<Rightarrow> string + string) \<Rightarrow> BusConfig \<Rightarrow> (Db outbox_ports \<times> faults) list \<Rightarrow> Db \<Rightarrow> Broker \<Rightarrow> Db \<times> Broker" where
  "ledger_service_relay to_vec bus ticks db b =
     relay_run to_vec (bc_ledger_topic bus) 50 \<lparr>du_secs = 30, du_nanos = 0\<rparr> ticks db b"

definition projector_service_replay ::
    "pg_env \<Rightarrow> faults \<Rightarrow> datetime \<Rightarrow> Db \<Rightarrow> ((ProjectorError + ReplayReport) \<times> Db) option" where
  "projector_service_replay env ft now db = replay_events (pg_projection env ft now) ''balance-projector'' Beginning 500 db"

section \<open>The periodic reconciliation\<close>

text \<open>\<open>str::parse::<u64>\<close>: an optional plus sign, then digits.\<close>

definition parse_u64 :: "string \<Rightarrow> u64 option" where
  "parse_u64 t =
     (let ds = (case t of c # cs \<Rightarrow> if c = CHR ''+'' then cs else t | [] \<Rightarrow> [])
      in if ds = [] \<or> \<not> list_all is_ascii_digit ds \<or> 2 ^ 64 \<le> digits_val ds then None
         else Some (of_nat (digits_val ds)))"

definition reconcile_period :: "(string \<Rightarrow> string option) \<Rightarrow> u64" where
  "reconcile_period vars =
     (case Option.bind (vars ''RECONCILE_INTERVAL_SECS'') parse_u64 of None \<Rightarrow> 60 | Some secs \<Rightarrow> secs)"

text \<open>
  One report per tick, until the cancellation: \<open>reports\<close> are the answers of the reconciler.  The result
  has the logged counts, of entries when clean and of discrepancies otherwise.
\<close>

datatype tick_log = LogClean u64 | LogMismatches nat

fun reconcile_ticks :: "(ReconcileError + ReconcileReport) list \<Rightarrow> (ReconcileError + unit) \<times> tick_log list" where
  "reconcile_ticks [] = (Inr (), [])"
| "reconcile_ticks (Inl e # reports) = (Inl e, [])"
| "reconcile_ticks (Inr report # reports) =
     (let line = (if is_clean report then LogClean (rr_entries_scanned report)
                  else LogMismatches (length (rr_discrepancies report)))
      in map_prod id (Cons line) (reconcile_ticks reports))"

text \<open>\<open>tokio::time::interval\<close> panics on a zero period.\<close>

datatype worker_end = Stopped "ReconcileError + unit" | Panicked

definition reconciler_service ::
    "(string \<Rightarrow> string option) \<Rightarrow> (ReconcileError + ReconcileReport) list \<Rightarrow> worker_end \<times> tick_log list" where
  "reconciler_service vars reports =
     (if reconcile_period vars = 0 then (Panicked, []) else map_prod Stopped id (reconcile_ticks reports))"

end
