(* ===== verification/Overdraft.thy ===== *)
theory Overdraft
  imports Postgres_Service
begin

text \<open>
  The guard the handlers run before a commit.  The interface \<open>guarded_reads\<close> asks of the reads that
  they tell the truth about policies and balances when they answer; both stores keep it,
  PostgreSQL under any failures.  Against it no command that would overdraw an account gets
  through.
\<close>

section \<open>The net change of an entry\<close>

definition deltas_at :: "delta_map \<Rightarrow> AccountId \<times> AssetCode \<Rightarrow> int" where
  "deltas_at deltas k = amt (or_zero (map_of deltas (account_uuid (fst k), snd k)))"

interpretation nets: total_posting_fold delta_step deltas_at p_key p_delta AmountOverflow
proof
  fix p s s' k
  assume "delta_step p s = Inr s'"
  then show "deltas_at s' k = deltas_at s k + (if p_key p = k then p_delta p else 0)"
    by (cases k) (auto simp: delta_step_def deltas_at_def Let_def result_simps amt_simps bt_insert_lookup)
next
  fix p s
  show "(\<exists>s'. delta_step p s = Inr s') \<longleftrightarrow> in_i128 (deltas_at s (p_key p) + p_delta p)"
    by (cases "or_zero (map_of s (account_uuid (p_account_id p), p_asset p))" "p_amount p" rule: checked_add_cases)
      (auto simp: delta_step_def deltas_at_def Let_def)
next
  fix p s e
  assume "delta_step p s = Inl e"
  then show "e = AmountOverflow"
    by (auto simp: delta_step_def Let_def result_simps amt_simps)
qed

lemma net_changes:
  assumes "try_fold delta_step ps [] = Inr deltas" and "account_delta (AccountId u, a) ps \<noteq> 0"
  obtains d where "((u, a), d) \<in> set deltas" "amt d = account_delta (AccountId u, a) ps"
proof -
  have sum: "deltas_at deltas (AccountId u, a) = account_delta (AccountId u, a) ps"
    using nets.fold_bal [OF assms(1), of "(AccountId u, a)"] by (simp add: deltas_at_def)
  with assms(2) obtain d where "map_of deltas (u, a) = Some d"
    by (cases "map_of deltas (u, a)") (auto simp: deltas_at_def)
  with sum that show thesis
    by (auto simp: deltas_at_def dest: map_of_SomeD)
qed

lemma loaded_accounts:
  assumes "map_of (fold (\<lambda>account m. AList.update (account_uuid (acc_id account)) account m) loaded m) u = Some account"
    and "map_of m u = None"
  shows "account \<in> set loaded \<and> account_uuid (acc_id account) = u"
proof -
  have "map_of (fold (\<lambda>account m. AList.update (account_uuid (acc_id account)) account m) loaded m) u = Some account
      \<Longrightarrow> map_of m u = Some account \<or> account \<in> set loaded \<and> account_uuid (acc_id account) = u" for m
  proof (induction loaded arbitrary: m)
    case (Cons x loaded)
    from Cons.IH [of "AList.update (account_uuid (acc_id x)) x m"] Cons.prems show ?case
      by (auto simp: update_conv' split: if_splits)
  qed simp
  with assms show ?thesis
    by fastforce
qed

section \<open>The contract\<close>

text \<open>\<open>strict s u\<close>: the account \<open>u\<close> must not go below zero; \<open>bal s (u, a)\<close>: its balance.\<close>

locale guarded_reads = quiet_reads P
  for P :: "nat \<Rightarrow> 's ports" +
  fixes strict :: "'s \<Rightarrow> uuid \<Rightarrow> bool"
    and bal :: "'s \<Rightarrow> uuid \<times> AssetCode \<Rightarrow> int"
  assumes load_truth: "pt_acc_load_many (P m) ids s = (Inr loaded, s') \<Longrightarrow> account \<in> set loaded
      \<Longrightarrow> strict s (account_uuid (acc_id account)) \<Longrightarrow> acc_policy account = NonNegative"
    and bal_truth: "pt_bal_get (P m) i a s = (Inr r, s')
      \<Longrightarrow> amt (case r of None \<Rightarrow> ZERO | Some record \<Rightarrow> br_amount record) = bal s (account_uuid i, a)"
begin

lemma guard_deltas_refuses:
  assumes "((u, a), d) \<in> set deltas" and "amt d < 0" and "bal s (u, a) + amt d < 0"
    and "\<And>account. map_of accts u = Some account \<Longrightarrow> acc_policy account = NonNegative"
  shows "\<exists>e. exec_at P m (guard_deltas sh accts deltas k) s = (Inl e, s)"
  using assms(1)
proof (induction deltas arbitrary: m)
  case (Cons x deltas)
  obtain uid asset delta where x: "x = ((uid, asset), delta)"
    by (metis surj_pair)
  obtain r where r: "pt_bal_get (P m) (AccountId uid) asset s = (r, s)"
    using bal_get by blast
  show ?case
  proof (cases "x = ((u, a), d)")
    case True
    have neg: "is_negative d"
      using assms(2) by (simp add: amt_simps)
    have over: "is_negative b" if "checked_add c d = Inr b" "amt c = bal s (u, a)" for b c
      using that assms(3) by (auto simp: amt_simps)
    show ?thesis
    proof (cases r)
      case (Inl e)
      then show ?thesis
        using x True neg r assms(4) by (auto split: option.splits)
    next
      case (Inr b)
      with r x True have "amt (case b of None \<Rightarrow> ZERO | Some record \<Rightarrow> br_amount record) = bal s (u, a)"
        using bal_truth by fastforce
      then show ?thesis
        using x True neg r Inr assms(4) over by (auto simp: Let_def split: option.splits sum.splits)
    qed
  next
    case False
    with Cons have "\<exists>e. exec_at P j (guard_deltas sh accts deltas k) s = (Inl e, s)" for j
      by auto
    from this [of m] this [of "Suc m"] x r show ?thesis
      by (cases r) (auto simp: Let_def split: option.splits sum.splits)
  qed
qed simp

lemma guard_postings_refuses:
  assumes "strict s u" and "account_delta (AccountId u, a) (je_postings entry) < 0"
    and "bal s (u, a) + account_delta (AccountId u, a) (je_postings entry) < 0"
  shows "\<exists>e. exec_at P m (guard_postings sh entry k) s = (Inl e, s)"
proof (cases "try_fold delta_step (je_postings entry) []")
  case (Inr deltas)
  obtain r where r: "pt_acc_load_many (P m) (guard_ids deltas) s = (r, s)"
    using acc_load_many by blast
  show ?thesis
  proof (cases r)
    case (Inl e)
    with Inr r show ?thesis
      by (simp add: guard_postings_def Let_def)
  next
    case loaded: (Inr loaded)
    let ?accts = "fold (\<lambda>account m. AList.update (account_uuid (acc_id account)) account m) loaded []"
    obtain d where "((u, a), d) \<in> set deltas" "amt d = account_delta (AccountId u, a) (je_postings entry)"
      using net_changes [OF Inr, of u a] assms(2,3) by auto
    moreover have "acc_policy account = NonNegative" if "map_of ?accts u = Some account" for account
      using loaded_accounts [OF that] load_truth [OF r [unfolded loaded]] assms(1) by auto
    ultimately have "\<exists>e. exec_at P (Suc m) (guard_deltas sh ?accts deltas k) s = (Inl e, s)"
      using assms(2,3) by (intro guard_deltas_refuses) auto
    with Inr r loaded show ?thesis
      by (auto simp: guard_postings_def Let_def split: sum.splits)
  qed
qed (simp add: guard_postings_def)

lemma post_entry_refuses:
  assumes "strict s u" and "account_delta (AccountId u, a) (je_postings entry) < 0"
    and "bal s (u, a) + account_delta (AccountId u, a) (je_postings entry) < 0"
    and "exec_at P m (post_entry cx dr cmd (Inr (entry, extra))) s = (res, s')"
  shows "s' = s \<and> (\<forall>v. res = Inr v \<longrightarrow> oc_replayed v
    \<and> (\<exists>r. pt_idem_find (P m) (command_scope cmd) (cm_idempotency_key (command_meta cmd)) s = (Inr (Some r), s)))"
proof -
  let ?k = "\<lambda>hash. commit_entry cx dr (command_scope cmd) (cm_idempotency_key (command_meta cmd)) hash entry extra"
  obtain found where found: "pt_idem_find (P m) (command_scope cmd) (cm_idempotency_key (command_meta cmd)) s = (found, s)"
    using idem_read by blast
  have "\<exists>e. exec_at P (Suc m) (guard_postings (cx_uuid_show cx) entry (?k hash)) s = (Inl e, s)" for hash
    using assms(1-3) by (rule guard_postings_refuses)
  then have refused: "fst (exec_at P (Suc m) (guard_postings (cx_uuid_show cx) entry (?k hash)) s) \<noteq> Inr v
      \<and> snd (exec_at P (Suc m) (guard_postings (cx_uuid_show cx) entry (?k hash)) s) = s" for hash v
    by (metis fst_conv snd_conv sum.distinct(1))
  show ?thesis
  proof (cases "fingerprint (cx_hash cx) (cx_ser_command cx) cmd")
    case (Inr hash)
    then show ?thesis
      using assms(4) found refused [of hash]
      by (cases found) (auto simp: post_entry_def Let_def replay_done_run outcome_replayed_def result_simps
          split: option.splits)
  qed (use assms(4) in \<open>auto simp: post_entry_def Let_def\<close>)
qed

end


section \<open>Both stores keep it\<close>

definition mem_strict :: "State \<Rightarrow> uuid \<Rightarrow> bool" where
  "mem_strict st u \<longleftrightarrow>
     list_all (\<lambda>(_, account). account_uuid (acc_id account) = u \<longrightarrow> acc_policy account = NonNegative) (accounts st)"

definition pg_strict :: "Db \<Rightarrow> uuid \<Rightarrow> bool" where
  "pg_strict db u \<longleftrightarrow> list_all (\<lambda>row. ar_id row = u \<longrightarrow> ar_policy row = ''non_negative'') (t_accounts db)"

interpretation mem_guard: guarded_reads "\<lambda>_. mem_ports sh ns now" mem_strict "\<lambda>st (u, a). mem_bal st (AccountId u, a)"
  for sh ns now
proof
  fix ids s loaded s' account
  assume "pt_acc_load_many (mem_ports sh ns now) ids s = (Inr loaded, s')" "account \<in> set loaded"
    "mem_strict s (account_uuid (acc_id account))"
  moreover obtain i where "map_of (accounts s) (account_uuid i) = Some account"
    using calculation(1,2) by (auto simp: mem_ports_def load_many_def find_account_def List.map_filter_def)
  ultimately show "acc_policy account = NonNegative"
    by (auto simp: mem_strict_def list_all_iff dest: map_of_SomeD)
qed (auto simp: mem_ports_def get_balance_def balance_of_def split: option.splits)

interpretation pg_guard: guarded_reads "pg_calls env collate ns fts srs topic nows" pg_strict
    "\<lambda>db (u, a). db_balance db u (code_str a)"
  for env collate ns fts srs topic nows
proof
  fix m ids s loaded s' account
  assume load: "pt_acc_load_many (pg_calls env collate ns fts srs topic nows m) ids s = (Inr loaded, s')"
    and account: "account \<in> set loaded" "pg_strict s (account_uuid (acc_id account))"
  have "pg_account_rows env (filter (\<lambda>row. ar_id row \<in> account_uuid ` set ids) (t_accounts s)) = Inr loaded"
    using load by (auto simp: pg_calls_def pg_ports_def pg_load_many_def on_pool_def tx_bind_def tx_err_def query_def sql_def
        tx_done_def split: option.splits fault.splits sum.splits)
  then have "map account_from_row (filter (\<lambda>row. ar_id row \<in> account_uuid ` set ids) (t_accounts s)) = map Inr loaded"
    by (simp add: pg_account_rows_def result_simps collect_results_eq_Inr)
  then have "Inr account \<in> account_from_row ` set (t_accounts s)"
    using account(1) by (metis (no_types, lifting) filter_is_subset image_eqI image_mono list.set_map subsetD)
  then obtain row where "row \<in> set (t_accounts s)" "account_from_row row = Inr account"
    by (metis imageE)
  then show "acc_policy account = NonNegative"
    using account(2) by (auto simp: account_from_row_Inr pg_strict_def list_all_iff account_to_row_def policy_text_iff)
next
  fix m i a s r s'
  assume "pt_bal_get (pg_calls env collate ns fts srs topic nows m) i a s = (Inr r, s')"
  then show "amt (case r of None \<Rightarrow> ZERO | Some record \<Rightarrow> br_amount record)
      = (case (account_uuid i, a) of (u, a) \<Rightarrow> db_balance s u (code_str a))"
    by (auto simp: pg_calls_def pg_ports_def pg_get_balance_def db_balance_def column_value_def column_amount_def
        on_pool_def tx_bind_def tx_err_def query_def sql_def tx_done_def result_simps
        split: option.splits fault.splits sum.splits)
qed

section \<open>No command overdraws an account\<close>

text \<open>A successful lookup has found a row.\<close>

lemma pg_idem_found:
  "pt_idem_find (pg_calls env collate ns fts srs topic nows m) scope key db = (Inr (Some r), db')
     \<Longrightarrow> pg_answers db (scope, key_str key) \<noteq> None"
  by (auto simp: pg_calls_def pg_ports_def pg_find_idempotency_def pg_answers_def on_pool_def tx_bind_def tx_err_def
      query_def sql_def tx_done_def result_simps split: option.splits fault.splits sum.splits)

text \<open>
  C18. Overdrafts are refused before the commit.  Run any posting command over PostgreSQL, every one of
  its port calls under a fault plan of its own, so that any read of the guard may fail too.  If
  its entry lowers an account that must not go below zero by more than the account holds, nothing
  is written, and the command fails unless its key already has a stored answer, which it then
  repeats.
\<close>

theorem overdraft_refused:
  assumes "exec_at (pg_calls env collate ns fts srs topic nows) 0 (post_entry cx dr cmd (Inr (entry, extra))) db
      = (res, db')"
    and "pg_strict db u" and "account_delta (AccountId u, a) (je_postings entry) < 0"
    and "db_balance db u (code_str a) + account_delta (AccountId u, a) (je_postings entry) < 0"
  shows "db' = db \<and> (\<forall>v. res = Inr v \<longrightarrow> oc_replayed v
    \<and> pg_answers db (command_scope cmd, key_str (cm_idempotency_key (command_meta cmd))) \<noteq> None)"
  using pg_guard.post_entry_refuses [OF assms(2,3) _ assms(1)] assms(4) by (auto dest: pg_idem_found)

definition ex_overdrawn :: "(nat \<Rightarrow> faults) \<Rightarrow> (LedgerError + EntryPosted Outcome) \<times> Db" where
  "ex_overdrawn fts = exec_at (pg_calls ex_env id of_int fts (\<lambda>_. ex_serials) ''ledger'' (\<lambda>_. 60)) 0
     (post_entry ex_codec (ex_draws 40) (SubmitJournal \<lparr>sj_meta = (ex_meta 7)\<lparr>cm_idempotency_key := IdempotencyKey ''over''\<rparr>,
        sj_description = ''over'', sj_postings = []\<rparr>) (Inr (ex_entry 9 (ex_postings (-250)), []))) ex_db"

text \<open>The guard sees the missing funds; or its read of the balance, the third port call, fails.\<close>

definition ex_read_fails :: "nat \<Rightarrow> faults" where
  "ex_read_fails = (\<lambda>_. no_faults)(2 := (\<lambda>_. Some (Failed ''timeout'')))"

theorem overdraft_refused_witness:
  "(\<forall>fts. snd (ex_overdrawn fts) = ex_db)
   \<and> fst (ex_overdrawn (\<lambda>_. no_faults)) = Inl (Domain (InsufficientBalance ''1'' ''BTC'' 100 (-250)))
   \<and> fst (ex_overdrawn ex_read_fails) = Inl (Storage ''database error: sqlx'')"
proof -
  have strict: "pg_strict ex_db 1"
    by code_simp
  have delta: "account_delta (AccountId 1, btc) (je_postings (ex_entry 9 (ex_postings (-250)))) = -250"
    by code_simp
  have "db_balance ex_db 1 (code_str btc) = 100"
    by code_simp
  then have low: "db_balance ex_db 1 (code_str btc)
      + account_delta (AccountId 1, btc) (je_postings (ex_entry 9 (ex_postings (-250)))) < 0"
    using delta by simp
  have "snd (ex_overdrawn fts) = ex_db" for fts
  proof -
    obtain res db' where run: "ex_overdrawn fts = (res, db')"
      by (cases "ex_overdrawn fts")
    show ?thesis
      using overdraft_refused [OF run [unfolded ex_overdrawn_def] strict _ low] delta unfolding run by simp
  qed
  moreover have "fst (ex_overdrawn (\<lambda>_. no_faults)) = Inl (Domain (InsufficientBalance ''1'' ''BTC'' 100 (-250)))"
    by code_simp
  moreover have "fst (ex_overdrawn ex_read_fails) = Inl (Storage ''database error: sqlx'')"
    by code_simp
  ultimately show ?thesis
    by blast
qed

end
