(* ===== verification/Scenario.thy ===== *)
theory Scenario
  imports Cli Overdraft
begin

text \<open>
  The demonstration scenario of the command line tool (\<open>run_demo\<close>).  Its settlement asks the buyer for
  more US dollars than the deposits before it have put into the ledger, so on an empty ledger the
  scenario cannot complete, whatever identifiers and clocks it draws and whatever fails.
\<close>

section \<open>What a commit does to a balance\<close>

lemma select_updated:
  "select_balance u a (update_balance uid asset v now db)
     = map_option (\<lambda>row. if u = uid \<and> a = asset then row\<lparr>ba_amount_atomic := v, ba_updated_at := timestamptz now\<rparr> else row)
         (select_balance u a db)"
proof -
  have "find (\<lambda>row. ba_account_id row = u \<and> ba_asset row = a) (map (\<lambda>row. if ba_account_id row = uid \<and> ba_asset row = asset
        then row\<lparr>ba_amount_atomic := v, ba_updated_at := timestamptz now\<rparr> else row) rows)
      = map_option (\<lambda>row. if u = uid \<and> a = asset then row\<lparr>ba_amount_atomic := v, ba_updated_at := timestamptz now\<rparr> else row)
          (find (\<lambda>row. ba_account_id row = u \<and> ba_asset row = a) rows)" for rows
    by (induction rows) auto
  then show ?thesis
    by (simp add: select_balance_def update_balance_def)
qed

lemma select_inserted:
  "select_balance u a (insert_balance uid asset v now db)
     = (case select_balance u a db of
          None \<Rightarrow> if u = uid \<and> a = asset
            then Some \<lparr>ba_account_id = uid, ba_asset = asset, ba_amount_atomic = v, ba_updated_at = timestamptz now\<rparr> else None
        | Some row \<Rightarrow> Some row)"
proof -
  have "find Q (rows @ [x]) = (case find Q rows of None \<Rightarrow> if Q x then Some x else None | Some row \<Rightarrow> Some row)"
    for Q rows and x :: BalanceRow
    by (induction rows) auto
  then show ?thesis
    by (auto simp: select_balance_def insert_balance_def split: option.splits)
qed

lemma pg_apply_posting_balance:
  assumes "pg_apply_posting env no_faults i now eid p (db, n) = (Inr u', db', n')"
  shows "db_balance db' u a = db_balance db u a + (if p_key p = (AccountId u, AssetCode a) then p_delta p else 0)"
proof -
  let ?uid = "account_uuid (p_account_id p)" and ?asset = "code_str (p_asset p)"
  have key: "p_key p = (AccountId u, AssetCode a) \<longleftrightarrow> u = ?uid \<and> a = ?asset"
    by (cases "p_account_id p"; cases "p_asset p") auto
  define current where "current = (case select_balance ?uid ?asset db of None \<Rightarrow> ZERO
    | Some row \<Rightarrow> (case parse_i128 (ba_amount_atomic row) of None \<Rightarrow> ZERO | Some v \<Rightarrow> AtomicAmount v))"
  have current: "amt current = db_balance db ?uid ?asset"
    by (auto simp: current_def db_balance_def column_value_def split: option.splits)
  obtain updated where c: "checked_add current (p_amount p) = Inr updated"
      "t_balances db' = t_balances (if select_balance ?uid ?asset db \<noteq> None
         then update_balance ?uid ?asset (amount_to_str updated) now db
         else insert_balance ?uid ?asset (amount_to_str updated) now db)"
    using assms
    by (auto simp: pg_apply_posting_def Let_def tx_bind_Inr tx_err_Inr current_def column_amount_def
        result_simps split: option.splits if_splits)
  have same: "db_balance db' u a = db_balance (if select_balance ?uid ?asset db \<noteq> None
      then update_balance ?uid ?asset (amount_to_str updated) now db
      else insert_balance ?uid ?asset (amount_to_str updated) now db) u a"
    using c(2) by (simp only: db_balance_def select_balance_def)
  have sum: "amt updated = db_balance db ?uid ?asset + p_delta p"
    using current c(1) by (simp add: amt_simps)
  show ?thesis
    unfolding same key using sum
    by (auto simp: db_balance_def select_updated select_inserted split: option.splits)
qed

lemma pg_apply_postings_balance:
  "pg_apply_postings env no_faults ids now eid k ps (db, n) = (Inr u', db', n')
     \<Longrightarrow> db_balance db' u a = db_balance db u a + account_delta (AccountId u, AssetCode a) ps"
proof (induction ps arbitrary: db n k)
  case (Cons p ps)
  then obtain db1 n1 where "pg_apply_posting env no_faults (ids k) now eid p (db, n) = (Inr (), db1, n1)"
      "pg_apply_postings env no_faults ids now eid (Suc k) ps (db1, n1) = (Inr u', db', n')"
    by (auto simp: tx_bind_Inr)
  with Cons.IH pg_apply_posting_balance [OF this(1), of u a] show ?case
    by simp
qed simp

text \<open>A balance depends on the balance table alone.\<close>

definition same_balances :: "Db \<Rightarrow> Db \<Rightarrow> bool" where
  "same_balances db db' \<longleftrightarrow> t_balances db' = t_balances db"

interpretation balance_table: table_frame same_balances
  by unfold_locales (simp_all add: same_balances_def)

lemma same_balances_cong: "same_balances db db' \<Longrightarrow> db_balance db' = db_balance db"
  by (simp add: same_balances_def fun_eq_iff db_balance_def select_balance_def)

lemma insert_outbox_balances: "tx_keeps same_balances (pg_insert_outbox env ft ids topic k evs)"
  by (induction evs arbitrary: k) (auto simp: outbox_insert_def same_balances_def intro!: keeps_intros)

lemma pg_commit_balance:
  assumes "pg_commit env ft sr topic now c db = (r, db')" and "db' \<noteq> db"
  shows "db_balance db' u a = db_balance db u a + account_delta (AccountId u, AssetCode a) (je_postings (jc_entry c))"
    "t_idempotency db' = t_idempotency db @ [record_to_row (jc_idempotency c)]"
    "t_entries db' = t_entries db @ [entry_to_row (jc_entry c)]"
proof -
  obtain outcome where run: "pg_commit env no_faults sr topic now c db = (Inr outcome, db')"
    using pg_commit_effect [OF assms] by blast
  from pg_commit_answers [OF run] assms(2) have stored: "pg_answers db (record_key (jc_idempotency c)) = None"
      "t_idempotency db' = t_idempotency db @ [record_to_row (jc_idempotency c)]"
      "t_entries db' = t_entries db @ [entry_to_row (jc_entry c)]"
    by auto
  then show "t_idempotency db' = t_idempotency db @ [record_to_row (jc_idempotency c)]"
      "t_entries db' = t_entries db @ [entry_to_row (jc_entry c)]"
    by blast+
  have new: "\<not> list_ex (\<lambda>row. ik_scope row = ir_scope (jc_idempotency c)
      \<and> ik_key row = key_str (ir_key (jc_idempotency c))) (t_idempotency db)"
    using stored(1) by (auto simp: pg_answers_def record_key_def find_None_iff list_ex_iff)
  show "db_balance db' u a = db_balance db u a + account_delta (AccountId u, AssetCode a) (je_postings (jc_entry c))"
  proof (rule pg_commit_steps [OF run new])
    fix db2 n2 db3 n3 n4
    assume steps: "db2 = db\<lparr>t_idempotency := t_idempotency db @ [record_to_row (jc_idempotency c)],
         t_entries := t_entries db @ [entry_to_row (jc_entry c)]\<rparr>"
      "pg_apply_postings env no_faults (sr_posting sr) now (transaction_uuid (je_id (jc_entry c))) 0
         (je_postings (jc_entry c)) (db2, n2) = (Inr (), db3, n3)"
      "pg_insert_outbox env no_faults (sr_outbox sr) topic 0 (jc_events c) (db3, n3) = (Inr (), db', n4)"
    have "db_balance db2 = db_balance db" "db_balance db' = db_balance db3"
      using same_balances_cong [of db db2] same_balances_cong [OF keepsD [OF insert_outbox_balances steps(3)]] steps(1)
      by (simp_all add: same_balances_def)
    then show ?thesis
      using pg_apply_postings_balance [OF steps(2), of u a] by simp
  qed
qed

section \<open>What holds while the scenario runs\<close>

text \<open>
  At most \<open>n\<close> entries are recorded; the buyer's account, once created, must not go below zero; no
  settlement has a stored answer; and no account holds more than \<open>k\<close> atomic units of US dollars.
\<close>

definition buyer :: string where
  "buyer = customer_available ''alice''"

definition demo_inv :: "nat \<Rightarrow> int \<Rightarrow> Db \<Rightarrow> bool" where
  "demo_inv n k db \<longleftrightarrow> length (t_entries db) \<le> n \<and> distinct (map ar_id (t_accounts db))
     \<and> (\<forall>row \<in> set (t_accounts db). ar_name row = buyer \<longrightarrow> ar_policy row = ''non_negative'')
     \<and> (\<forall>row \<in> set (t_idempotency db). ik_scope row \<noteq> ''record_trade_settlement'')
     \<and> (\<forall>u. db_balance db u ''USD'' \<le> k)"

interpretation kept: table_frame "\<lambda>db db'. I db \<longrightarrow> I db'" for I
  by unfold_locales auto

lemma demo_inv_cong:
  "t_entries db' = t_entries db \<Longrightarrow> t_accounts db' = t_accounts db \<Longrightarrow> t_idempotency db' = t_idempotency db
     \<Longrightarrow> t_balances db' = t_balances db \<Longrightarrow> demo_inv n k db \<Longrightarrow> demo_inv n k db'"
  using same_balances_cong [of db db'] by (simp add: demo_inv_def same_balances_def)

lemma insert_outbox_demo:
  "tx_keeps (\<lambda>db db'. demo_inv n k db \<longrightarrow> demo_inv n k db') (pg_insert_outbox env ft ids topic j evs)"
  by (induction evs arbitrary: j)
    (auto simp: outbox_insert_def intro!: kept.keeps_bind kept.keeps_done kept.keeps_err kept.keeps_sql intro: demo_inv_cong [rotated -1])

lemma create_keeps_demo:
  assumes "acc_name (ac_account c) = buyer \<longrightarrow> acc_policy (ac_account c) = NonNegative"
    and "ir_scope (ac_idempotency c) \<noteq> ''record_trade_settlement''" and "demo_inv n k db"
  shows "demo_inv n k (snd (pg_create env ft sr topic c db))"
proof -
  have balances: "db_balance (db\<lparr>t_idempotency := x\<rparr>) = db_balance db" "db_balance (db\<lparr>t_accounts := y\<rparr>) = db_balance db"
    for db x y
    by (rule same_balances_cong, simp add: same_balances_def)+
  have "tx_keeps (\<lambda>db db'. demo_inv n k db \<longrightarrow> demo_inv n k db') (pg_insert_idempotency ft (ac_idempotency c))"
    unfolding pg_insert_idempotency_def using assms(2)
    by (intro kept.keeps_bind kept.keeps_done kept.keeps_err kept.keeps_sql)
      (auto simp: demo_inv_def record_to_row_def balances)
  moreover have "demo_inv n k db \<longrightarrow> demo_inv n k (snd (account_insert (ac_account c) db))" for db
    using assms(1)
    by (auto simp: account_insert_def demo_inv_def account_to_row_def policy_text_iff list_ex_iff balances)
  ultimately have "demo_inv n k db \<longrightarrow> demo_inv n k (snd (pg_create env ft sr topic c db))"
    unfolding pg_create_def
    by (intro kept.transaction_keeps kept.keeps_bind kept.keeps_if kept.keeps_done kept.keeps_err kept.keeps_sql
        insert_outbox_demo)
  with assms(3) show ?thesis
    by blast
qed

section \<open>The handlers the scenario calls\<close>

lemma find_by_name_run:
  assumes "exec_at (pg_calls env collate ns fts srs topic nows) m (find_account_by_name_query aname) db = (r, db')"
  shows "db' = db" and "r = Inr (Some account) \<Longrightarrow> \<exists>row \<in> set (t_accounts db). ar_name row = aname \<and> account_from_row row = Inr account"
proof -
  have run: "pg_find_by_name env (fts m) aname db = (r, db')"
    using assms by (simp add: find_account_by_name_query_def pg_calls_def pg_ports_def split: prod.splits)
  then show "db' = db"
    using pg_reads_keep(4) by (metis snd_conv)
  show "\<exists>row \<in> set (t_accounts db). ar_name row = aname \<and> account_from_row row = Inr account" if "r = Inr (Some account)"
    using run that
    by (auto simp: pg_find_by_name_def on_pool_def tx_bind_def tx_err_def query_def sql_def tx_done_def pg_account_row_def
        result_simps find_Some_iff split: option.splits fault.splits sum.splits)
qed

definition same_accounts :: "Db \<Rightarrow> Db \<Rightarrow> bool" where
  "same_accounts db db' \<longleftrightarrow> t_accounts db' = t_accounts db"

interpretation account_table: table_frame same_accounts
  by unfold_locales (simp_all add: same_accounts_def)

lemma pg_commit_accounts: "t_accounts (snd (pg_commit env ft sr topic now c db)) = t_accounts db"
proof -
  have "tx_keeps same_accounts (pg_apply_posting env ft i now eid p)" for i eid p
    unfolding pg_apply_posting_def Let_def
    by (intro keeps_intros) (simp_all add: update_balance_def insert_balance_def same_accounts_def)
  then have "tx_keeps same_accounts (pg_apply_postings env ft ids now eid j ps)" for ids eid j ps
    by (induction ps arbitrary: j) (simp_all add: keeps_intros)
  moreover have "tx_keeps same_accounts (pg_insert_outbox env ft ids topic j evs)" for ids j evs
    by (induction evs arbitrary: j) (auto simp: outbox_insert_def same_accounts_def intro!: keeps_intros)
  ultimately have "same_accounts db (snd (pg_commit env ft sr topic now c db))"
    unfolding pg_commit_def pg_insert_idempotency_def
    by (intro account_table.transaction_keeps keeps_intros)
      (auto simp: same_accounts_def entry_insert_def)
  then show ?thesis
    by (simp add: same_accounts_def)
qed

lemma create_account_demo:
  assumes "exec_at (pg_calls env collate ns fts srs topic nows) m (create_account cx dr cmd) db = (r, db')"
    and "trim (ca_name cmd) = buyer \<longrightarrow> ca_policy cmd = NonNegative" and "demo_inv n k db"
  shows "demo_inv n k db'"
proof -
  let ?P = "pg_calls env collate ns fts srs topic nows"
  let ?scope = "command_scope (CreateAccount cmd)" and ?key = "cm_idempotency_key (ca_meta cmd)"
  let ?name = "trim (ca_name cmd)"
  obtain found where found: "pt_idem_find (?P m) ?scope ?key db = (found, db)"
    using pg_reads.idem_read by blast
  obtain taken where taken: "pt_acc_find_by_name (?P (Suc m)) ?name db = (taken, db)"
    using keeps_ex [OF pg_reads_keep(4) [of env "fts (Suc m)" ?name db]] by (auto simp: pg_calls_def pg_ports_def)
  show ?thesis
  proof (cases "\<exists>hash. fingerprint (cx_hash cx) (cx_ser_command cx) (CreateAccount cmd) = Inr hash \<and> found = Inr None
      \<and> \<not> (?name = [] \<or> length ?name > MAX_ACCOUNT_NAME_LEN) \<and> taken = Inr None")
    case False
    then have "db' = db"
      using assms(1) found taken
      by (cases found; cases taken)
        (auto simp: create_account_def Let_def pg_reads.replay_done_run split: sum.splits option.splits if_splits)
    with assms(3) show ?thesis
      by simp
  next
    case True
    then obtain hash where hash: "fingerprint (cx_hash cx) (cx_ser_command cx) (CreateAccount cmd) = Inr hash"
      by blast
    define c where "c = (\<lambda>rec. \<lparr>ac_account = Account_new (dr_id_now dr) (AccountId (dr_id dr)) ?name (ca_kind cmd) (ca_policy cmd),
      ac_events = [wrap_event (dr_event dr 0) (dr_event_now dr 0)
        (AccountId_display (cx_uuid_show cx) (AccountId (dr_id dr))) None
        (cm_correlation_id (ca_meta cmd)) (cm_causation_id (ca_meta cmd)) [] (AccountCreatedP (AccountId (dr_id dr)) ?name)],
      ac_idempotency = rec\<rparr>)"
    show ?thesis
    proof (cases "IdempotencyRecord_new (dr_record_now dr) (cx_ser_created cx) ?scope ?key hash
        \<lparr>cr_account = Account_new (dr_id_now dr) (AccountId (dr_id dr)) ?name (ca_kind cmd) (ca_policy cmd)\<rparr>")
      case (Inl e)
      with True hash assms(1,3) found taken show ?thesis
        by (auto simp: create_account_def Let_def)
    next
      case (Inr rec)
      obtain out d where d: "pt_acc_create (?P (Suc (Suc m))) (c rec) db = (out, d)"
        by fastforce
      have "ir_scope rec \<noteq> ''record_trade_settlement''"
        using Inr by (auto simp: IdempotencyRecord_new_def result_simps)
      then have "demo_inv n k d"
        using create_keeps_demo [of "c rec" n k db env "fts (Suc (Suc m))" "srs (Suc (Suc m))" topic] assms(2,3) d
        by (simp add: c_def Account_new_def pg_calls_def pg_ports_def)
      moreover have "db' = d"
        using True hash assms(1) found taken Inr d
        by (cases out) (auto simp: create_account_def Let_def c_def Account_new_def split: CommitOutcome.splits
            dest: pg_reads.require_replay_quiet)
      ultimately show ?thesis
        by simp
    qed
  qed
qed

text \<open>A posting command of another scope keeps what holds, up to the change its entry makes.\<close>

lemma post_entry_demo:
  assumes "exec_at (pg_calls env collate ns fts srs topic nows) m (post_entry cx dr cmd build) db = (r, db')"
    and "command_scope cmd \<noteq> ''record_trade_settlement''" and "demo_inv n k db" and "0 \<le> d"
    and "\<And>entry extra u. build = Inr (entry, extra) \<Longrightarrow> account_delta (AccountId u, usd) (je_postings entry) \<le> d"
  shows "demo_inv (Suc n) (k + d) db' \<and> t_accounts db' = t_accounts db"
proof (cases "db' = db")
  case True
  have "db_balance db u ''USD'' \<le> k + d" for u
    using assms(3,4) by (simp add: demo_inv_def add_increasing2)
  with True assms(3) show ?thesis
    by (simp add: demo_inv_def)
next
  case False
  then obtain hash entry extra rec j out where build: "build = Inr (entry, extra)"
      and rec: "IdempotencyRecord_new (dr_record_now dr) (cx_ser_posted cx) (command_scope cmd)
          (cm_idempotency_key (command_meta cmd)) hash (entry_response entry) = Inr rec"
      and c: "pg_commit env (fts j) (srs j) topic (nows j)
          \<lparr>jc_entry = entry, jc_events = entry_events cx dr entry extra, jc_idempotency = rec\<rparr> db = (out, db')"
    using pg_reads.post_entry_commits [OF assms(1)] by (auto simp: pg_calls_def pg_ports_def)
  note effect = pg_commit_balance [OF c False]
  have "ir_scope rec = command_scope cmd"
    using rec by (auto simp: IdempotencyRecord_new_def result_simps)
  moreover have accounts: "t_accounts db' = t_accounts db"
    using pg_commit_accounts [of env "fts j" "srs j" topic "nows j" _ db] c by (metis snd_conv)
  moreover have "db_balance db' u ''USD'' \<le> k + d" for u
    using effect(1) [of u "''USD''"] assms(3) assms(5) [OF build, of u]
    by (auto simp: demo_inv_def usd_def intro: add_mono)
  ultimately show ?thesis
    using assms(2,3) effect(2,3) by (auto simp: demo_inv_def record_to_row_def)
qed

text \<open>The deposits of the scenario and what they do to US dollars.\<close>

lemma deposit_usd:
  assumes "build_deposit dr cmd = Inr (entry, extra)" and "rd_hot_wallet cmd = Some hot"
  shows "account_delta (i, usd) (je_postings entry) \<le> (if rd_asset cmd = usd then 4 * amt (rd_amount cmd) else 0)"
  using assms
  by (auto simp: build_deposit_def from_domain_def result_simps annotate_def ConfirmedDeposit_into_entry_def flow_simps
      split: if_splits option.splits)

text \<open>The settlement is refused: the buyer lacks the funds, and no answer is stored for it.\<close>

lemma trade_refused:
  assumes "exec_at (pg_calls env collate ns fts srs topic nows) m (record_trade_settlement cx dr cmd) db = (r, db')"
    and "demo_inv n k db" and "pg_strict db (account_uuid (rt_buyer_available cmd))"
    and "rt_quote_asset cmd = usd" and "k < amt (rt_quote_amount cmd)" and "0 \<le> k"
  shows "db' = db \<and> (\<exists>e. r = Inl e)"
proof -
  let ?P = "pg_calls env collate ns fts srs topic nows"
  let ?cmd = "RecordTradeSettlement cmd"
  have none: "pt_idem_find (?P j) (command_scope ?cmd) key db \<noteq> (Inr (Some rec), db)" for j key rec
  proof
    assume "pt_idem_find (?P j) (command_scope ?cmd) key db = (Inr (Some rec), db)"
    from pg_idem_found [OF this] obtain row where "row \<in> set (t_idempotency db)" "ik_scope row = ''record_trade_settlement''"
      by (force simp: pg_answers_def find_Some_iff dest: nth_mem)
    with assms(2) show False
      by (auto simp: demo_inv_def)
  qed
  obtain found where found: "pt_idem_find (?P m) (command_scope ?cmd) (cm_idempotency_key (command_meta ?cmd)) db = (found, db)"
    using pg_reads.idem_read by blast
  show ?thesis
  proof (cases "build_trade dr cmd")
    case (Inl e)
    then show ?thesis
      using assms(1) found none
      by (cases found) (auto simp: record_trade_settlement_def post_entry_def Let_def split: sum.splits option.splits)
  next
    case (Inr b)
    obtain entry extra where b: "build_trade dr cmd = Inr (entry, extra)"
      using Inr by (cases b) simp
    have delta: "account_delta (rt_buyer_available cmd, usd) (je_postings entry) = - amt (rt_quote_amount cmd)"
      using b assms(4)
      by (auto simp: build_trade_def from_domain_def result_simps annotate_def TradeSettlement_into_entry_def flow_simps
          split: if_splits option.splits)
    have "db_balance db (account_uuid (rt_buyer_available cmd)) ''USD'' \<le> k"
      using assms(2) by (simp add: demo_inv_def)
    then have "db' = db \<and> (\<forall>v. r = Inr v \<longrightarrow> (\<exists>rec. pt_idem_find (?P m) (command_scope ?cmd)
        (cm_idempotency_key (command_meta ?cmd)) db = (Inr (Some rec), db)))"
      using pg_guard.post_entry_refuses [OF assms(3), of usd entry env collate ns fts srs topic nows m cx dr ?cmd extra r db']
        assms(1,5,6) delta by (auto simp: b record_trade_settlement_def usd_def)
    with none show ?thesis
      by (cases r) auto
  qed
qed

section \<open>The scenario as a sequence of calls\<close>

text \<open>
  From every state in which nothing is printed and \<open>I\<close> holds of the tables, \<open>m\<close> returns and prints
  nothing; when it succeeds \<open>J\<close> holds, and when it fails at most two entries are recorded.
\<close>

definition demo_spec :: "(Db \<Rightarrow> bool) \<Rightarrow> (Db, 'a) cli \<Rightarrow> ('a \<Rightarrow> Db \<Rightarrow> bool) \<Rightarrow> bool" where
  "demo_spec I m J \<longleftrightarrow> (\<forall>s. cl_out s = [] \<and> I (cl_store s) \<longrightarrow>
     (\<exists>r s'. m s = Some (r, s') \<and> cl_out s' = []
        \<and> (case r of Inl _ \<Rightarrow> length (t_entries (cl_store s')) \<le> 2 | Inr a \<Rightarrow> J a (cl_store s'))))"

lemma spec_bind:
  assumes "demo_spec I m J" and "\<And>a. demo_spec (J a) (k a) K"
  shows "demo_spec I (cli_bind m k) K"
  unfolding demo_spec_def
proof (intro allI impI)
  fix s :: "Db cli_state"
  assume "cl_out s = [] \<and> I (cl_store s)"
  then obtain r s1 where r: "m s = Some (r, s1)" "cl_out s1 = []"
      "case r of Inl _ \<Rightarrow> length (t_entries (cl_store s1)) \<le> 2 | Inr a \<Rightarrow> J a (cl_store s1)"
    using assms(1) unfolding demo_spec_def by blast
  show "\<exists>r s'. cli_bind m k s = Some (r, s') \<and> cl_out s' = []
      \<and> (case r of Inl _ \<Rightarrow> length (t_entries (cl_store s')) \<le> 2 | Inr a \<Rightarrow> K a (cl_store s'))"
  proof (cases r)
    case (Inr a)
    with r assms(2) [of a] show ?thesis
      unfolding demo_spec_def by (simp add: cli_bind_def)
  qed (use r in \<open>simp add: cli_bind_def\<close>)
qed

lemma spec_done:
  "(\<And>db. I db \<Longrightarrow> case r of Inl _ \<Rightarrow> length (t_entries db) \<le> 2 | Inr a \<Rightarrow> J a db) \<Longrightarrow> demo_spec I (cli_done r) J"
  by (simp add: demo_spec_def cli_done_def)

lemma spec_each: "(\<And>x. x \<in> set xs \<Longrightarrow> demo_spec I (f x) (\<lambda>_. I)) \<Longrightarrow> demo_spec I (cli_each f xs) (\<lambda>_. I)"
  by (induction xs) (auto intro!: spec_done spec_bind)

lemma spec_call:
  assumes "\<And>j dr db r db'. I db \<Longrightarrow> exec_at (ce_ports ce j) 0 (p dr) db = (r, db')
    \<Longrightarrow> case r of Inl _ \<Rightarrow> length (t_entries db') \<le> 2 | Inr a \<Rightarrow> J a db'"
  shows "demo_spec I (call_ledger ce p) J"
  unfolding demo_spec_def
proof (intro allI impI)
  fix s :: "Db cli_state"
  assume s: "cl_out s = [] \<and> I (cl_store s)"
  obtain r db where run: "exec_at (ce_ports ce (cl_calls s)) 0 (p (ce_draws ce (cl_calls s))) (cl_store s) = (r, db)"
    by fastforce
  from assms [OF _ run] s run show "\<exists>r s'. call_ledger ce p s = Some (r, s') \<and> cl_out s' = []
      \<and> (case r of Inl _ \<Rightarrow> length (t_entries (cl_store s')) \<le> 2 | Inr a \<Rightarrow> J a (cl_store s'))"
    by (cases r) (simp_all add: call_ledger_def)
qed

lemma spec_meta: "(\<And>db. I db \<Longrightarrow> length (t_entries db) \<le> 2) \<Longrightarrow> demo_spec I (meta_from_key ce key) (\<lambda>_. I)"
  unfolding demo_spec_def meta_from_key_def by (auto split: sum.splits)

lemma spec_false: "demo_spec (\<lambda>_. False) m J"
  by (simp add: demo_spec_def)

lemma spec_weaken:
  assumes "demo_spec I m J" and "\<And>a db. J a db \<Longrightarrow> K a db"
  shows "demo_spec I m K"
  unfolding demo_spec_def
proof (intro allI impI)
  fix s :: "Db cli_state"
  assume "cl_out s = [] \<and> I (cl_store s)"
  then obtain r s1 where "m s = Some (r, s1)" "cl_out s1 = []"
      "case r of Inl _ \<Rightarrow> length (t_entries (cl_store s1)) \<le> 2 | Inr a \<Rightarrow> J a (cl_store s1)"
    using assms(1) unfolding demo_spec_def by blast
  then show "\<exists>r s'. m s = Some (r, s') \<and> cl_out s' = []
      \<and> (case r of Inl _ \<Rightarrow> length (t_entries (cl_store s')) \<le> 2 | Inr a \<Rightarrow> K a (cl_store s'))"
    using assms(2) by (cases r) simp_all
qed

text \<open>The ports of the command line tool over PostgreSQL, one fault plan per port call.\<close>

definition pg_demo :: "Db cli_env \<Rightarrow> bool" where
  "pg_demo ce \<longleftrightarrow> (\<exists>env collate ns fts srs topic nows.
     ce_ports ce = (\<lambda>j. pg_calls env collate ns (fts j) (srs j) topic (nows j)))"

lemma pg_demo_ports:
  assumes "pg_demo ce"
  obtains env collate ns fts srs topic nows where
    "\<And>j. ce_ports ce j = pg_calls env collate ns (fts j) (srs j) topic (nows j)"
  using assms by (auto simp: pg_demo_def)

lemma find_name_spec:
  assumes "pg_demo ce" and "n \<le> 2"
  shows "demo_spec (\<lambda>db. demo_inv n k db \<and> S db) (call_ledger ce (\<lambda>_. find_account_by_name_query aname))
    (\<lambda>found db. demo_inv n k db \<and> S db \<and> (\<forall>account. found = Some account \<and> aname = buyer
       \<longrightarrow> pg_strict db (account_uuid (acc_id account))))"
proof -
  obtain env collate ns fts srs topic nows where
      ports: "\<And>j. ce_ports ce j = pg_calls env collate ns (fts j) (srs j) topic (nows j)"
    using pg_demo_ports [OF assms(1)] by metis
  have strict: "pg_strict db (account_uuid (acc_id account))"
    if "demo_inv n k db" "row \<in> set (t_accounts db)" "ar_name row = buyer" "account_from_row row = Inr account"
    for db row account
  proof -
    have "ar_id row = account_uuid (acc_id account)"
      using that(4) by (simp add: account_from_row_Inr account_to_row_def)
    moreover have inj: "inj_on ar_id (set (t_accounts db))"
      using that(1) by (simp add: demo_inv_def distinct_map)
    moreover have "ar_policy row = ''non_negative''"
      using that(1-3) by (simp add: demo_inv_def)
    ultimately show ?thesis
      unfolding pg_strict_def list_all_iff using that(2) by (metis inj_onD)
  qed
  show ?thesis
  proof (rule spec_call)
    fix j dr db r db'
    assume inv: "demo_inv n k db \<and> S db"
      and run: "exec_at (ce_ports ce j) 0 (find_account_by_name_query aname) db = (r, db')"
    note found = find_by_name_run [OF run [unfolded ports]]
    show "case r of Inl _ \<Rightarrow> length (t_entries db') \<le> 2 | Inr found \<Rightarrow> demo_inv n k db' \<and> S db'
        \<and> (\<forall>account. found = Some account \<and> aname = buyer \<longrightarrow> pg_strict db' (account_uuid (acc_id account)))"
    proof (cases r)
      case (Inl e)
      then show ?thesis
        using inv assms(2) found(1) by (simp add: demo_inv_def)
    next
      case (Inr x)
      then show ?thesis
        using inv found strict by auto
    qed
  qed
qed

lemma ensure_account_spec:
  assumes "pg_demo ce" and "trim (spec_name spec) = buyer \<longrightarrow> spec_policy spec = NonNegative"
  shows "demo_spec (demo_inv 0 0) (ensure_account ce spec) (\<lambda>_. demo_inv 0 0)"
proof -
  obtain env collate ns fts srs topic nows where
      ports: "\<And>j. ce_ports ce j = pg_calls env collate ns (fts j) (srs j) topic (nows j)"
    using pg_demo_ports [OF assms(1)] by metis
  have empty: "length (t_entries db) \<le> 2" if "demo_inv 0 0 db" for db
    using that by (simp add: demo_inv_def)
  have create: "demo_spec (demo_inv 0 0) (call_ledger ce (\<lambda>dr. create_account (ce_codec ce) dr
      \<lparr>ca_meta = meta, ca_name = spec_name spec, ca_kind = spec_kind spec, ca_policy = spec_policy spec\<rparr>))
      (\<lambda>_. demo_inv 0 0)" for meta
  proof (rule spec_call)
    fix j dr db r db'
    assume inv: "demo_inv 0 0 db" and run: "exec_at (ce_ports ce j) 0 (create_account (ce_codec ce) dr
        \<lparr>ca_meta = meta, ca_name = spec_name spec, ca_kind = spec_kind spec, ca_policy = spec_policy spec\<rparr>) db = (r, db')"
    have "demo_inv 0 0 db'"
      using create_account_demo [OF run [unfolded ports] _ inv] assms(2) by simp
    then show "case r of Inl _ \<Rightarrow> length (t_entries db') \<le> 2 | Inr _ \<Rightarrow> demo_inv 0 0 db'"
      using empty by (simp split: sum.splits)
  qed
  have found: "demo_spec (demo_inv 0 0) (call_ledger ce (\<lambda>_. find_account_by_name_query (spec_name spec)))
      (\<lambda>_. demo_inv 0 0)"
    using find_name_spec [OF assms(1), of 0 0 "\<lambda>_. True" "spec_name spec"] by (auto elim: spec_weaken)
  have skip: "demo_spec (demo_inv 0 0) (cli_done (Inr ())) (\<lambda>_. demo_inv 0 0)"
    by (rule spec_done) simp
  have make: "demo_spec (demo_inv 0 0) (cli_bind (meta_from_key ce (''seed:'' @ spec_name spec)) (\<lambda>meta.
      cli_bind (call_ledger ce (\<lambda>dr. create_account (ce_codec ce) dr
        \<lparr>ca_meta = meta, ca_name = spec_name spec, ca_kind = spec_kind spec, ca_policy = spec_policy spec\<rparr>)) (\<lambda>_.
      cli_done (Inr ())))) (\<lambda>_. demo_inv 0 0)"
    by (rule spec_bind [OF spec_meta [OF empty] spec_bind [OF create skip]])
  show ?thesis
    unfolding ensure_account_def by (rule spec_bind [OF found], split if_split) (intro conjI impI make skip)
qed

lemma ensure_chart_spec:
  assumes "pg_demo ce"
  shows "demo_spec (demo_inv 0 0) (ensure_chart ce) (\<lambda>_. demo_inv 0 0)"
proof -
  have "list_all (\<lambda>spec. trim (spec_name spec) = buyer \<longrightarrow> spec_policy spec = NonNegative) (full_chart [''alice'', ''bob''])"
    by code_simp
  then show ?thesis
    unfolding ensure_chart_def by (intro spec_each ensure_account_spec [OF assms]) (simp add: list_all_iff)
qed

lemma account_id_spec:
  assumes "pg_demo ce" and "n \<le> 2"
  shows "demo_spec (\<lambda>db. demo_inv n k db \<and> S db) (cli_account_id ce aname)
    (\<lambda>i db. demo_inv n k db \<and> S db \<and> (aname = buyer \<longrightarrow> pg_strict db (account_uuid i)))"
  unfolding cli_account_id_def
proof (rule spec_bind [OF find_name_spec [OF assms]])
  fix found
  show "demo_spec (\<lambda>db. demo_inv n k db \<and> S db \<and> (\<forall>account. found = Some account \<and> aname = buyer
         \<longrightarrow> pg_strict db (account_uuid (acc_id account))))
      (cli_done (and_then (ok_or found (CliMessage (''account '' @ [CHR 0x27] @ aname @ [CHR 0x27] @ '' missing'')))
         (\<lambda>account. Inr (acc_id account))))
      (\<lambda>i db. demo_inv n k db \<and> S db \<and> (aname = buyer \<longrightarrow> pg_strict db (account_uuid i)))"
    by (rule spec_done) (use assms(2) in \<open>cases found; auto simp: demo_inv_def\<close>)
qed

lemma deposit_spec:
  assumes "pg_demo ce" and "n \<le> 1" and "d = (if asset = usd then 4 * sint amount else 0)" and "0 \<le> sint amount"
  shows "demo_spec (\<lambda>db. demo_inv n k db \<and> pg_strict db u) (demo_deposit ce key customer hot asset amount reference)
    (\<lambda>_ db. demo_inv (Suc n) (k + d) db \<and> pg_strict db u)"
proof -
  obtain env collate ns fts srs topic nows where
      ports: "\<And>j. ce_ports ce j = pg_calls env collate ns (fts j) (srs j) topic (nows j)"
    using pg_demo_ports [OF assms(1)] by metis
  have small: "length (t_entries db) \<le> 2" if "demo_inv n k db \<and> pg_strict db u" for db
    using that assms(2) by (simp add: demo_inv_def)
  have deposit: "demo_spec (\<lambda>db. demo_inv n k db \<and> pg_strict db u) (call_ledger ce (\<lambda>dr. record_deposit (ce_codec ce) dr
      \<lparr>rd_meta = meta, rd_customer_available = customer, rd_deposit_clearing = clearing, rd_hot_wallet = Some hot,
       rd_asset = asset, rd_amount = AtomicAmount amount, rd_external_reference = Some reference\<rparr>))
      (\<lambda>_ db. demo_inv (Suc n) (k + d) db \<and> pg_strict db u)" for meta clearing
  proof (rule spec_call)
    let ?cmd = "\<lparr>rd_meta = meta, rd_customer_available = customer, rd_deposit_clearing = clearing, rd_hot_wallet = Some hot,
       rd_asset = asset, rd_amount = AtomicAmount amount, rd_external_reference = Some reference\<rparr>"
    fix j dr db r db'
    assume inv: "demo_inv n k db \<and> pg_strict db u"
      and run: "exec_at (ce_ports ce j) 0 (record_deposit (ce_codec ce) dr ?cmd) db = (r, db')"
    have "demo_inv (Suc n) (k + d) db' \<and> t_accounts db' = t_accounts db"
    proof (rule post_entry_demo [OF run [unfolded ports record_deposit_def]])
      show "account_delta (AccountId v, usd) (je_postings entry) \<le> d"
        if "build_deposit dr ?cmd = Inr (entry, extra)" for entry extra v
        using deposit_usd [OF that, of hot "AccountId v"] assms(3) by (cases "asset = usd") simp_all
    qed (use inv assms(3,4) in simp_all)
    then show "case r of Inl _ \<Rightarrow> length (t_entries db') \<le> 2 | Inr _ \<Rightarrow> demo_inv (Suc n) (k + d) db' \<and> pg_strict db' u"
      using inv assms(2) by (auto simp: demo_inv_def pg_strict_def split: sum.splits)
  qed
  have clearing: "demo_spec (\<lambda>db. demo_inv n k db \<and> pg_strict db u) (cli_account_id ce DEPOSIT_CLEARING)
      (\<lambda>_ db. demo_inv n k db \<and> pg_strict db u)"
    by (rule spec_weaken [OF account_id_spec [OF assms(1)]]) (use assms(2) in auto)
  have finish: "demo_spec (\<lambda>db. demo_inv (Suc n) (k + d) db \<and> pg_strict db u) (cli_done (Inr ()))
      (\<lambda>_ db. demo_inv (Suc n) (k + d) db \<and> pg_strict db u)"
    by (rule spec_done) simp
  show ?thesis
    unfolding demo_deposit_def by (rule spec_bind [OF spec_meta [OF small] spec_bind [OF clearing spec_bind [OF deposit finish]]])
qed

lemma trade_spec:
  assumes "pg_demo ce" and "n \<le> 2" and "0 \<le> k" and "k < 50000000000"
  shows "demo_spec (\<lambda>db. demo_inv n k db \<and> pg_strict db (account_uuid alice)) (demo_trade ce alice bob) (\<lambda>_ _. False)"
proof -
  obtain env collate ns fts srs topic nows where
      ports: "\<And>j. ce_ports ce j = pg_calls env collate ns (fts j) (srs j) topic (nows j)"
    using pg_demo_ports [OF assms(1)] by metis
  have small: "length (t_entries db) \<le> 2" if "demo_inv n k db \<and> pg_strict db (account_uuid alice)" for db
    using that assms(2) by (simp add: demo_inv_def)
  have "demo_spec (\<lambda>db. demo_inv n k db \<and> pg_strict db (account_uuid alice))
      (call_ledger ce (\<lambda>dr. record_trade_settlement (ce_codec ce) dr
       \<lparr>rt_meta = meta, rt_buyer_available = alice, rt_seller_available = bob,
        rt_base_asset = btc, rt_base_amount = AtomicAmount 1000000, rt_quote_asset = usd,
        rt_quote_amount = AtomicAmount 50000000000, rt_trade_reference = Some ''demo-match-1''\<rparr>)) (\<lambda>_ _. False)" for meta
  proof (rule spec_call)
    let ?cmd = "\<lparr>rt_meta = meta, rt_buyer_available = alice, rt_seller_available = bob,
        rt_base_asset = btc, rt_base_amount = AtomicAmount 1000000, rt_quote_asset = usd,
        rt_quote_amount = AtomicAmount 50000000000, rt_trade_reference = Some ''demo-match-1''\<rparr>"
    fix j dr db r db'
    assume inv: "demo_inv n k db \<and> pg_strict db (account_uuid alice)"
      and run: "exec_at (ce_ports ce j) 0 (record_trade_settlement (ce_codec ce) dr ?cmd) db = (r, db')"
    have "db' = db \<and> (\<exists>e. r = Inl e)"
      by (rule trade_refused [OF run [unfolded ports], of n k]) (use inv assms(3,4) in simp_all)
    with small [OF inv] show "case r of Inl _ \<Rightarrow> length (t_entries db') \<le> 2 | Inr _ \<Rightarrow> False"
      by auto
  qed
  then show ?thesis
    unfolding demo_trade_def by (intro spec_bind [OF spec_meta [OF small]] spec_bind [OF _ spec_false])
qed

text \<open>
  C35. The demonstration scenario cannot complete on an empty ledger.  Run it over an empty PostgreSQL
  ledger with any identifiers, clocks, sequence values and codecs, every port call under any
  failures: it returns an error, prints nothing, and leaves at most two entries.  The settlement
  asks the buyer for 50000 US dollars, and nobody has deposited any for her.
\<close>

theorem demo_never_completes:
  "\<exists>e s'. cli_main (pg_cli env collate ns cx fts srs nows drs traces rfts ft now) Demo
      \<lparr>cl_store = Db_empty, cl_calls = calls, cl_out = []\<rparr> = Some (Inl e, s')
    \<and> cl_out s' = [] \<and> length (t_entries (cl_store s')) \<le> 2"
proof -
  let ?ce = "pg_cli env collate ns cx fts srs nows drs traces rfts ft now"
  have ce: "pg_demo ?ce"
    unfolding pg_demo_def pg_cli_def cli_env.select_convs by blast
  have name: "demo_spec (\<lambda>db. demo_inv 0 0 db \<and> pg_strict db u) (cli_account_id ?ce aname)
      (\<lambda>_ db. demo_inv 0 0 db \<and> pg_strict db u)" for aname u
    using account_id_spec [OF ce, of 0 0 "\<lambda>db. pg_strict db u" aname] by (auto elim: spec_weaken)
  have alice: "demo_spec (demo_inv 0 0) (cli_account_id ?ce (customer_available ''alice''))
      (\<lambda>i db. demo_inv 0 0 db \<and> pg_strict db (account_uuid i))"
    using account_id_spec [OF ce, of 0 0 "\<lambda>_. True" buyer] by (auto simp: buyer_def elim: spec_weaken)
  have btc: "demo_spec (\<lambda>db. demo_inv 0 0 db \<and> pg_strict db u)
      (demo_deposit ?ce ''demo:deposit:alice:btc'' a hot btc 100000000 ''demo-tx-btc'')
      (\<lambda>_ db. demo_inv 1 0 db \<and> pg_strict db u)" for u a hot
    using deposit_spec [OF ce, of 0 0 btc 100000000 0] by (simp add: btc_def usd_def)
  have usd: "demo_spec (\<lambda>db. demo_inv 1 0 db \<and> pg_strict db u)
      (demo_deposit ?ce ''demo:deposit:bob:usd'' b hot usd 10000000000 ''demo-tx-usd'')
      (\<lambda>_ db. demo_inv 2 40000000000 db \<and> pg_strict db u)" for u b hot
    using deposit_spec [OF ce, of 1 40000000000 usd 10000000000 0] by (simp add: numeral_2_eq_2)
  have trade: "demo_spec (\<lambda>db. demo_inv 2 40000000000 db \<and> pg_strict db (account_uuid a)) (demo_trade ?ce a b) (\<lambda>_ _. False)"
    for a b
    by (rule trade_spec [OF ce]) simp_all
  have "demo_spec (demo_inv 0 0) (run_demo ?ce) (\<lambda>_ _. False)"
    unfolding run_demo_def
    by (intro spec_bind [OF ensure_chart_spec [OF ce]] spec_bind [OF alice] spec_bind [OF name] spec_bind [OF btc]
        spec_bind [OF usd] spec_bind [OF trade] spec_false)
  note runs = this [unfolded demo_spec_def, rule_format, of "\<lparr>cl_store = Db_empty, cl_calls = calls, cl_out = []\<rparr>"]
  have "demo_inv 0 0 Db_empty"
    by (simp add: demo_inv_def Db_empty_def db_balance_def select_balance_def)
  then obtain r s' where "run_demo ?ce \<lparr>cl_store = Db_empty, cl_calls = calls, cl_out = []\<rparr> = Some (r, s')"
      "cl_out s' = []" "case r of Inl _ \<Rightarrow> length (t_entries (cl_store s')) \<le> 2 | Inr _ \<Rightarrow> False"
    using runs by auto
  then show ?thesis
    by (cases r) simp_all
qed

end
