(* ===== verification/Spec2Isabelle.thy ===== *)
theory Spec2Isabelle
  imports Outbox_Props Concurrency Chart Reconciler Projector_Props Postgres_Service Consumer_Props
    Typed_Entries Http Scenario
begin

text \<open>
  A verification library for IronLedger, a double-entry ledger service in Rust.

  \<^bold>\<open>The program.\<close>  Clients send commands over gRPC.  A command handler (\<open>crates/ledger/src/service.rs\<close>)
  fingerprints the request, looks its idempotency key up, builds a balanced journal entry from a flow of
  the domain (\<open>crates/domain\<close>), checks accounts and balances, and hands entry, events and idempotency
  record to one storage call, \<open>commit\<close>.  Storage is a set of ports (\<open>crates/ledger/src/port.rs\<close>) with two
  implementations, in memory and PostgreSQL.  The events of a commit stay in an outbox; a relay
  (\<open>crates/event-bus\<close>) publishes them to Kafka, a consumer applies them to a projection
  (\<open>crates/projector\<close>), which can also be rebuilt from the outbox, and a reconciler (\<open>crates/reconciler\<close>)
  compares balances with the journal.  HTTP routes, an operator command line and three services put
  the parts together.

  \<^bold>\<open>Theories and sources.\<close>

  \<^item> \<open>Ledger_Prelude\<close>, \<open>Rust_Std\<close>, \<open>Checked_Fold\<close>: results as sums with \<open>and_then\<close>/\<open>map_err\<close>, association
    lists as maps (locale \<open>kv_map\<close>), 128-bit checked arithmetic, decimal text and trimming, and the
    locales \<open>posting_fold\<close>, \<open>gated_posting_fold\<close>, \<open>total_posting_fold\<close> for the loops that add up postings;
    they are interpreted on every such loop (totals, in-memory commit, guard, projection, rebuild).
  \<^item> \<open>Amount\<close>, \<open>Asset\<close>, \<open>Money\<close>, \<open>Ids\<close>, \<open>Account\<close>, \<open>Journal\<close>, \<open>Flow\<close>, \<open>Event\<close>: \<open>crates/domain\<close>, one theory
    per file; \<open>flow_builder\<close> states what a flow promises and is interpreted on all eight.
  \<^item> \<open>Idempotency\<close>, \<open>Ports\<close>, \<open>Command\<close>, \<open>Chart\<close>: \<open>idempotency.rs\<close> and \<open>error.rs\<close>, \<open>port.rs\<close>, \<open>command.rs\<close>,
    \<open>chart.rs\<close> of \<open>crates/ledger\<close>.
  \<^item> \<open>Memory\<close> (model) and \<open>Memory_Inv\<close>, \<open>Memory_Journal\<close>, \<open>Memory_Laws\<close>, \<open>Memory_Props\<close>, \<open>Outbox_Props\<close>:
    \<open>memory.rs\<close>.  Every port call is an atomic function on the state behind the mutex; \<open>mem_reach\<close> is
    reachability by any sequence of calls.
  \<^item> \<open>Service\<close>, \<open>Service_Laws\<close>, \<open>Service_Props\<close>, \<open>Concurrency\<close>: the handlers of \<open>service.rs\<close> as trees of
    port calls (\<open>prog\<close>), run alone by \<open>exec\<close>, alone with a fault plan, serials and clock of its own for
    every port call by \<open>exec_at\<close>, or interleaved call by call.
  \<^item> \<open>Postgres_Convert\<close>, \<open>Postgres\<close>, \<open>Postgres_Projection\<close> (model) and \<open>Postgres_Laws\<close>, \<open>Postgres_Reach\<close>,
    \<open>Postgres_Props\<close>, \<open>Postgres_Replay\<close>, \<open>Postgres_Service\<close>: \<open>crates/storage-postgres\<close> as statements on
    tables.  A fault plan decides for every statement of a call whether it fails before its effect or
    its answer is lost after it; a transaction takes effect as a whole or not at all.  \<open>pg_calls\<close> are the
    ports of a handler whose calls each meet a plan of their own.
  \<^item> \<open>Projector\<close>, \<open>Projector_Laws\<close>, \<open>Projector_Props\<close>, \<open>Reconciler\<close>: \<open>crates/projector\<close>, \<open>crates/reconciler\<close>.
  \<^item> \<open>Event_Bus\<close>, \<open>Event_Bus_Laws\<close>, \<open>Relay_System\<close>, \<open>Relay_Drain\<close>, \<open>Consumer_Props\<close>: \<open>crates/event-bus\<close> and
    the handler of \<open>services/projector-service\<close>.  Kafka is a log of messages with faults on sending; the
    claim of a tick, its mark of the published rows and each mark of a failed row have separate plans.
  \<^item> \<open>Grpc\<close>, \<open>Grpc_Props\<close>, \<open>Exactly_Once\<close>, \<open>Typed_Entries\<close>: \<open>crates/api-grpc\<close> with the messages of
    \<open>proto/ironledger/v1/ledger.proto\<close>.
  \<^item> \<open>Http\<close>: \<open>crates/api-http\<close> and the state the ledger service builds.
  \<^item> \<open>Overdraft\<close>: the guard handlers run before a commit.
  \<^item> \<open>Cli\<close>, \<open>Scenario\<close>: \<open>crates/ironledger-cli\<close> and the services; the run of the demonstration scenario.
  \<^item> \<open>Example\<close>, \<open>Service_Example\<close>: concrete accounts, commits, codec and requests for the instances.

  \<^bold>\<open>Interfaces.\<close>  \<open>quiet_reads\<close>, \<open>ledger_ports\<close> (what a handler relies on in a store), \<open>faulty_ports\<close> (the
  same when calls may fail), \<open>guarded_reads\<close> (truthful reads of policies and balances),
  \<open>projection_store\<close>, \<open>table_frame\<close>, \<open>relay_outbox\<close>, \<open>outbox_invariant\<close>, \<open>draining_outbox\<close> and \<open>event_sink\<close>
  carry the client proofs; each is interpreted on the in-memory store, on PostgreSQL, or on both.

  \<^bold>\<open>What is shown.\<close>

  \<^item> Money: amounts survive printing and parsing; decimal parsing accepts precisely its grammar; an
    entry is accepted exactly if it balances per asset.
  \<^item> Ledger: in every reachable state, in memory and in the tables, assets sum to zero, balances
    equal the journal, policies hold; a commit refines an abstract journal and is atomic under any
    failure; the tables simulate the in-memory store; entries read back, their time in
    microseconds.
  \<^item> Requests: failures have no effect, retries replay, reused keys conflict, interleaved handlers
    spend a key once, a lost answer is recovered; through the API a request takes effect exactly
    once or not at all, what is written is well typed and can be fetched, and no command overdraws
    an account against its policy, whichever of its reads fail.
  \<^item> Events: the outbox holds the journal in order; the relay never marks as published what is not
    in the log and drains the outbox once failures stop; deliveries in any order and number count
    once; replay ends and rebuilds the balances; the projection equals the ledger when the log has
    been handled; rejected events are dead-lettered once.
  \<^item> Reconciliation reports exactly the differing balances and nothing on a reachable ledger.
  \<^item> Administration: which HTTP requests are refused; on an empty ledger the demonstration scenario
    never completes.

  \<^bold>\<open>Bounds, time and choice.\<close>  No definition uses fuel.  Loops are structural or have a termination
  proof (trimming, padding, \<open>handle_attempts\<close> with its six attempts); the replay loop is a
  \<open>partial_function\<close> whose termination over both stores is proved.  Words keep their width, and wrap
  where Rust does in release builds (counters, the discrepancy of the reconciliation response).
  Times are integers, nanoseconds as \<open>Utc::now()\<close> reads them; a \<open>TIMESTAMPTZ\<close> column keeps microseconds
  (\<open>timestamptz\<close>).  UUIDs, clock readings and sequence values drawn in a call are arguments.
  Strings are UTF-8 bytes, so lengths are byte lengths as in Rust.  \<open>uuid\<close>, \<open>serde_json\<close>, \<open>sha2\<close>,
  \<open>chrono\<close> and \<open>sqlx\<close> error texts are arguments, as is whether the server accepts a \<open>SELECT DISTINCT\<close>; what is required of them (a codec reads what it
  wrote, metadata is not serialised, identifiers are parsed as printed) is a hypothesis of the theorem
  that needs it and is met by a concrete codec in its instance.  The table \<open>consumer_offsets\<close> is read as if
  its column \<open>offset\<close> were quoted.

  \<^bold>\<open>Not modelled.\<close>  Connection pools and migrations beyond the constraints they declare, Kafka client
  configuration and rebalancing, transport, code generated from the protobuf file, metrics and
  logging, argument parsing and the start and shutdown of the services: these call third-party
  code and keep no state of the program.  Statements of one transaction are not interleaved with
  other transactions (row locks and \<open>SKIP LOCKED\<close> appear as the set of rows a claim may not take).
  Benchmarks are stubs; tests are not part of the program.
\<close>

end
